(* ===== verification/Prelude.thy ===== *)
theory Prelude
  imports Main "HOL-Library.Word"
begin

text \<open>
  Shared vocabulary of the development: the widths of Rust's integers, fallible results as sums
  (the left side is the error), saturating arithmetic, the sequencing of fallible operations, and
  the list lemmas the component theories use. Machine integers that take part in arithmetic are
  words; counts of live objects (permits, queue lengths, list lengths) are natural numbers.
\<close>

section \<open>Collections of rewrite rules\<close>

named_theorems rust_simps \<open>unfolding rules of the Rust standard library model\<close>
named_theorems pool_simps \<open>unfolding rules of the pool operations\<close>
named_theorems store_simps \<open>unfolding rules of the profile store operations\<close>

section \<open>Types\<close>

type_synonym u8 = "8 word"
type_synonym u16 = "16 word"
type_synonym u32 = "32 word"
type_synonym u64 = "64 word"
type_synonym bytes = "8 word list"

text \<open>A Rust string is the list of its UTF-8 bytes, so its length is the byte length.\<close>

definition as_bytes :: "string \<Rightarrow> bytes" where
  "as_bytes s = map (\<lambda>c. of_nat (of_char c)) s"

definition of_bytes :: "bytes \<Rightarrow> string" where
  "of_bytes bs = map (\<lambda>b. char_of (unat b)) bs"

lemma length_as_bytes [simp]: "length (as_bytes s) = length s"
  by (simp add: as_bytes_def)

lemma as_bytes_append [simp]: "as_bytes (s @ t) = as_bytes s @ as_bytes t"
  by (simp add: as_bytes_def)

lemma of_char_lt_256 [simp]: "of_char c < (256 :: nat)"
  using of_char_mod_256 [of c, where ?'a = nat] by (metis mod_less_divisor zero_less_numeral)

lemma unat_of_char [simp]: "unat (of_nat (of_char c) :: u8) = of_char c"
  by (simp add: unat_of_nat take_bit_eq_mod del: of_nat_of_char)

lemma of_bytes_as_bytes [simp]: "of_bytes (as_bytes s) = s"
  by (simp add: of_bytes_def as_bytes_def map_idI)

lemma as_bytes_inj [simp]: "as_bytes s = as_bytes t \<longleftrightarrow> s = t"
  by (metis of_bytes_as_bytes)

section \<open>Fallible results\<close>

text \<open>The question mark operator: stop at the first error.\<close>

definition res_bind :: "'e + 'a \<Rightarrow> ('a \<Rightarrow> 'e + 'b) \<Rightarrow> 'e + 'b" where
  "res_bind r f = (case r of Inl e \<Rightarrow> Inl e | Inr a \<Rightarrow> f a)"

lemma res_bind_simps [simp]:
  "res_bind (Inl e) f = Inl e"
  "res_bind (Inr a) f = f a"
  by (simp_all add: res_bind_def)

lemma res_bind_Inr [simp]: "res_bind r f = Inr b \<longleftrightarrow> (\<exists>a. r = Inr a \<and> f a = Inr b)"
  by (cases r) auto

text \<open>Turning an option into a result (\<open>ok_or\<close>).\<close>

definition ok_or :: "'a option \<Rightarrow> 'e \<Rightarrow> 'e + 'a" where
  "ok_or o' e = (case o' of None \<Rightarrow> Inl e | Some a \<Rightarrow> Inr a)"

lemma ok_or_simps [simp]:
  "ok_or None e = Inl e"
  "ok_or (Some a) e = Inr a"
  by (simp_all add: ok_or_def)

lemma ok_or_Inr [simp]: "ok_or o' e = Inr a \<longleftrightarrow> o' = Some a"
  by (cases o') auto

lemma ok_or_Inl [simp]: "ok_or o' e = Inl e' \<longleftrightarrow> o' = None \<and> e' = e"
  by (cases o') auto

section \<open>Saturating arithmetic\<close>

definition sat_mul :: "'a::len word \<Rightarrow> 'a word \<Rightarrow> 'a word" where
  "sat_mul a b = (if unat a * unat b < 2 ^ LENGTH('a) then a * b else - 1)"

definition sat_add :: "'a::len word \<Rightarrow> 'a word \<Rightarrow> 'a word" where
  "sat_add a b = (if unat a + unat b < 2 ^ LENGTH('a) then a + b else - 1)"

definition sat_sub :: "'a::len word \<Rightarrow> 'a word \<Rightarrow> 'a word" where
  "sat_sub a b = (if b \<le> a then a - b else 0)"

lemma unat_sat_sub: "unat (sat_sub a b) = unat a - unat b"
  by (simp add: sat_sub_def unat_sub word_le_nat_alt)

lemma unat_max: "unat (- 1 :: 'a::len word) = 2 ^ LENGTH('a) - 1"
  by (simp add: unsigned_minus_1_eq_mask mask_eq_exp_minus_1)

lemma unat_sat_mul:
  fixes a b :: "'a::len word"
  shows "unat (sat_mul a b) = min (unat a * unat b) (2 ^ LENGTH('a) - 1)"
proof (cases "unat a * unat b < 2 ^ LENGTH('a)")
  case True
  then show ?thesis
    by (simp add: sat_mul_def unat_mult_lem [THEN iffD1] min_absorb1 less_eq_Suc_le flip: Suc_le_eq)
next
  case False
  then show ?thesis
    by (simp add: sat_mul_def unat_max min_absorb2 not_less le_diff_conv)
qed

lemma unat_sat_add:
  fixes a b :: "'a::len word"
  shows "unat (sat_add a b) = min (unat a + unat b) (2 ^ LENGTH('a) - 1)"
proof (cases "unat a + unat b < 2 ^ LENGTH('a)")
  case True
  then show ?thesis
    by (simp add: sat_add_def unat_add_lem [THEN iffD1] min_absorb1 less_eq_Suc_le)
next
  case False
  then show ?thesis
    by (simp add: sat_add_def unat_max min_absorb2 not_less le_diff_conv)
qed

section \<open>Lists\<close>

lemma dropWhile_append_all: "\<forall>x\<in>set xs. P x \<Longrightarrow> dropWhile P (xs @ ys) = dropWhile P ys"
  by (induction xs) auto

lemma takeWhile_dropWhile_hd: "dropWhile P xs = y # ys \<Longrightarrow> \<not> P y"
  by (metis hd_dropWhile list.discI list.sel(1))

section \<open>State machines\<close>

text \<open>
  The contract every concurrent component of the server is proved against: an invariant that holds
  at the start and that each step keeps. What follows for whole runs is proved once, here.
\<close>

locale state_machine =
  fixes step :: "'st \<Rightarrow> 'st \<Rightarrow> bool" and start :: 'st and invar :: "'st \<Rightarrow> bool"
  assumes invar_start: "invar start"
    and invar_step: "step s t \<Longrightarrow> invar s \<Longrightarrow> invar t"
begin

lemma invar_run: "step\<^sup>*\<^sup>* s t \<Longrightarrow> invar s \<Longrightarrow> invar t"
  by (induction rule: rtranclp_induct) (auto intro: invar_step)

lemma invar_reachable: "step\<^sup>*\<^sup>* start t \<Longrightarrow> invar t"
  using invar_run invar_start by blast

end

text \<open>A measure that no step lowers is not lowered by a run.\<close>

lemma run_mono:
  fixes f :: "'st \<Rightarrow> nat"
  assumes "step\<^sup>*\<^sup>* s t" "\<And>a b. step a b \<Longrightarrow> f a \<le> f b"
  shows "f s \<le> f t"
  using assms(1) by (induction rule: rtranclp_induct) (auto dest: assms(2))

section \<open>Hand-outs that happen at most once\<close>

text \<open>
  The contract of every one-shot hand-out of the server (a profile to its session, a captured
  profile to its owner, a parked browser to a returning client, the single use of a process): an
  operation hands out a key only while that key is available and leaves it unavailable, and only
  the operations that grant a key make it available. A run that grants a key nowhere hands it out
  at most once.
\<close>

fun trace :: "('op \<Rightarrow> 'st \<Rightarrow> 'r option \<times> 'st) \<Rightarrow> 'op list \<Rightarrow> 'st \<Rightarrow> 'r list \<times> 'st" where
  "trace step [] s = ([], s)"
| "trace step (op # ops) s =
     (let (r, s1) = step op s; (rs, s2) = trace step ops s1
      in (case r of None \<Rightarrow> rs | Some x \<Rightarrow> x # rs, s2))"

locale one_shot =
  fixes step :: "'op \<Rightarrow> 'st \<Rightarrow> ('k \<times> 'v) option \<times> 'st"
    and wf :: "'st \<Rightarrow> bool"
    and avail :: "'st \<Rightarrow> 'k \<Rightarrow> bool"
    and grants :: "'op \<Rightarrow> 'k \<Rightarrow> bool"
  assumes wf_step: "wf s \<Longrightarrow> wf (snd (step op s))"
    and handed: "wf s \<Longrightarrow> step op s = (Some (k, v), s') \<Longrightarrow> avail s k \<and> \<not> avail s' k"
    and kept: "wf s \<Longrightarrow> step op s = (r, s') \<Longrightarrow> avail s' j \<Longrightarrow> avail s j \<or> grants op j"
begin

lemma at_most_once:
  assumes "wf s" "list_all (\<lambda>op. \<not> grants op k) ops"
  shows "length (filter (\<lambda>r. fst r = k) (fst (trace step ops s))) \<le> (if avail s k then 1 else 0)"
  using assms
proof (induction ops arbitrary: s)
  case (Cons op ops)
  obtain r s' where st: "step op s = (r, s')" by (cases "step op s")
  obtain rs s2 where tr: "trace step ops s' = (rs, s2)" by (cases "trace step ops s'")
  have IH: "length (filter (\<lambda>r. fst r = k) rs) \<le> (if avail s' k then 1 else 0)"
    using Cons.IH [of s'] Cons.prems wf_step [of s op] st tr by simp
  have was: "avail s' k \<Longrightarrow> avail s k"
    using kept [OF Cons.prems(1) st] Cons.prems(2) by auto
  show ?case
  proof (cases r)
    case None
    then show ?thesis using IH was st tr by (auto split: if_splits)
  next
    case (Some x)
    obtain j v where x: "x = (j, v)" by (cases x)
    show ?thesis
    proof (cases "j = k")
      case True
      then have "avail s k" "\<not> avail s' k" using handed Cons.prems(1) st Some x by blast+
      then show ?thesis using IH st tr Some x True by simp
    next
      case False
      then show ?thesis using IH was st tr Some x by (auto split: if_splits)
    qed
  qed
qed simp

end

section \<open>The first element that fits\<close>

text \<open>\<^verbatim>\<open>Iterator::find_map\<close>.\<close>

fun find_map :: "('a \<Rightarrow> 'b option) \<Rightarrow> 'a list \<Rightarrow> 'b option" where
  "find_map f [] = None"
| "find_map f (x # xs) = (case f x of None \<Rightarrow> find_map f xs | Some y \<Rightarrow> Some y)"

lemma ex_first:
  "(\<exists>pre y post. x # xs = pre @ y # post \<and> P y \<and> (\<forall>z \<in> set pre. N z)) \<longleftrightarrow>
   P x \<or> N x \<and> (\<exists>pre y post. xs = pre @ y # post \<and> P y \<and> (\<forall>z \<in> set pre. N z))"
proof
  assume "\<exists>pre y post. x # xs = pre @ y # post \<and> P y \<and> (\<forall>z \<in> set pre. N z)"
  then obtain pre y post where e: "x # xs = pre @ y # post" "P y" "\<forall>z \<in> set pre. N z" by blast
  then show "P x \<or> N x \<and> (\<exists>pre y post. xs = pre @ y # post \<and> P y \<and> (\<forall>z \<in> set pre. N z))"
    by (cases pre) auto
next
  assume "P x \<or> N x \<and> (\<exists>pre y post. xs = pre @ y # post \<and> P y \<and> (\<forall>z \<in> set pre. N z))"
  then show "\<exists>pre y post. x # xs = pre @ y # post \<and> P y \<and> (\<forall>z \<in> set pre. N z)"
  proof
    assume "P x"
    then show ?thesis by (intro exI [of _ "[]"]) simp
  next
    assume "N x \<and> (\<exists>pre y post. xs = pre @ y # post \<and> P y \<and> (\<forall>z \<in> set pre. N z))"
    then obtain pre y post where "N x" "xs = pre @ y # post" "P y" "\<forall>z \<in> set pre. N z" by blast
    then show ?thesis by (intro exI [of _ "x # pre"] exI [of _ y] exI [of _ post]) simp
  qed
qed

lemma find_map_Some:
  "find_map f xs = Some b \<longleftrightarrow> (\<exists>pre y post. xs = pre @ y # post \<and> f y = Some b \<and> (\<forall>z \<in> set pre. f z = None))"
proof (induction xs)
  case (Cons x xs)
  then show ?case by (subst ex_first) (auto split: option.splits)
qed simp

lemma find_Some:
  "find P xs = Some x \<longleftrightarrow> (\<exists>pre post. xs = pre @ x # post \<and> P x \<and> (\<forall>z \<in> set pre. \<not> P z))"
proof (induction xs)
  case (Cons y ys)
  have "(\<exists>pre post. y # ys = pre @ x # post \<and> P x \<and> (\<forall>z \<in> set pre. \<not> P z)) \<longleftrightarrow>
      (\<exists>pre u post. y # ys = pre @ u # post \<and> (u = x \<and> P u) \<and> (\<forall>z \<in> set pre. \<not> P z))" by blast
  then show ?case using Cons unfolding ex_first by auto
qed simp

end
