(* ===== verification/Pool.thy ===== *)
theory Pool
  imports Prelude "HOL-Library.Multiset"
begin

text \<open>
  \<^verbatim>\<open>src/pool.rs\<close>: the warm session pool. The capacity semaphore is tokio's, so it is a parameter of
  every operation (a record of its operations) and what the pool relies on is the predicate
  \<open>semaphore_ok\<close>, the documented behaviour of a counting semaphore that can be closed. An
  operation that awaits is cut at its await points: each piece is one definition, and the whole
  operation is their composition for given answers of the environment (which wake-up reached a
  queued claimer, which sessions are alive, what a launch returned). The interleavings of the
  pieces are the step relation of \<^verbatim>\<open>Pool_Machine\<close>. A permit given back while claimers wait is
  counted as available until one of them polls it. Times are milliseconds.
\<close>

section \<open>The semaphore parameter\<close>

datatype acquire_result = Permit | NoPermits | SemClosed

record 'q semaphore_api =
  sem_new :: "nat \<Rightarrow> 'q"
  try_acquire :: "'q \<Rightarrow> acquire_result \<times> 'q"
  poll_acquire :: "'q \<Rightarrow> acquire_result \<times> 'q"
  add_permits :: "'q \<Rightarrow> nat \<Rightarrow> 'q"
  forget_permits :: "'q \<Rightarrow> nat \<Rightarrow> 'q"
  sem_close :: "'q \<Rightarrow> 'q"
  available_permits :: "'q \<Rightarrow> nat"
  is_closed :: "'q \<Rightarrow> bool"

text \<open>An acquisition takes one permit of an open semaphore, or changes nothing.\<close>

definition acquire_law ::
    "('q \<Rightarrow> nat) \<Rightarrow> ('q \<Rightarrow> bool) \<Rightarrow> ('q \<Rightarrow> acquire_result \<times> 'q) \<Rightarrow> bool" where
  "acquire_law avail closed acq \<longleftrightarrow>
     (\<forall>q. case acq q of
        (Permit, q') \<Rightarrow> \<not> closed q \<and> \<not> closed q' \<and> avail q = Suc (avail q')
      | (NoPermits, q') \<Rightarrow> q' = q \<and> \<not> closed q \<and> avail q = 0
      | (SemClosed, q') \<Rightarrow> q' = q \<and> closed q)"

definition semaphore_ok :: "'q semaphore_api \<Rightarrow> bool" where
  "semaphore_ok api \<longleftrightarrow>
     (\<forall>n. available_permits api (sem_new api n) = n \<and> \<not> is_closed api (sem_new api n)) \<and>
     acquire_law (available_permits api) (is_closed api) (try_acquire api) \<and>
     acquire_law (available_permits api) (is_closed api) (poll_acquire api) \<and>
     (\<forall>q n. available_permits api (add_permits api q n) = available_permits api q + n \<and>
            is_closed api (add_permits api q n) = is_closed api q) \<and>
     (\<forall>q n. available_permits api (forget_permits api q n) = available_permits api q - n) \<and>
     (\<forall>q. available_permits api (sem_close api q) = available_permits api q \<and>
          is_closed api (sem_close api q))"

section \<open>State\<close>

record pool_options =
  min_ready :: nat
  opt_max_sessions :: nat
  max_queue :: nat
  queue_timeout :: nat
  warm_idle :: nat
  warm_max_age :: nat

datatype claim_error =
    QueueFull nat
  | QueueTimeout nat
  | Closed
  | Launch string

record 's warm =
  session :: 's
  ready_at :: nat

text \<open>\<open>replenish\<close> is the notification stored for the replenisher task.\<close>

record ('s, 'q) pool =
  semaphore :: 'q
  max_sessions :: nat
  warm :: "'s warm list"
  waiting :: nat
  launching :: nat
  replenish :: bool

record pool_stats =
  st_running :: nat
  st_queued :: nat
  st_warm :: nat
  st_max_sessions :: nat
  st_max_queue :: nat
  st_accepting :: bool

section \<open>Operations\<close>

definition pool_new :: "'q semaphore_api \<Rightarrow> pool_options \<Rightarrow> ('s, 'q) pool" where
  "pool_new api opts =
     \<lparr>semaphore = sem_new api (opt_max_sessions opts), max_sessions = opt_max_sessions opts,
      warm = [], waiting = 0, launching = 0, replenish = False\<rparr>"

definition notify_one :: "('s, 'q) pool \<Rightarrow> ('s, 'q) pool" where
  "notify_one p = p\<lparr>replenish := True\<rparr>"

subsection \<open>Taking a slot\<close>

datatype slot = SlotTaken | SlotWaits | SlotFailed claim_error

definition counter_guard_drop :: "('s, 'q) pool \<Rightarrow> ('s, 'q) pool" where
  "counter_guard_drop p = p\<lparr>waiting := waiting p - 1\<rparr>"

text \<open>
  The part of \<^verbatim>\<open>acquire_slot\<close> up to its await. A permit taken is forgotten, so only an explicit
  \<^verbatim>\<open>add_permits\<close> gives it back.
\<close>

definition acquire_slot_begin ::
    "'q semaphore_api \<Rightarrow> pool_options \<Rightarrow> ('s, 'q) pool \<Rightarrow> slot \<times> ('s, 'q) pool" where
  "acquire_slot_begin api opts p =
     (case try_acquire api (semaphore p) of
        (Permit, q) \<Rightarrow> (SlotTaken, p\<lparr>semaphore := q\<rparr>)
      | (SemClosed, q) \<Rightarrow> (SlotFailed Closed, p\<lparr>semaphore := q\<rparr>)
      | (NoPermits, q) \<Rightarrow>
          (let p1 = p\<lparr>semaphore := q, waiting := waiting p + 1\<rparr>; queued = waiting p + 1
           in if max_queue opts < queued
              then (SlotFailed (QueueFull (max_queue opts)), counter_guard_drop p1)
              else (SlotWaits, p1)))"

text \<open>What ends the wait: the semaphore polls ready, the timeout fires, or the claim is dropped.\<close>

datatype wake = SemReady | Elapsed nat | Dropped

definition acquire_slot_wake ::
    "'q semaphore_api \<Rightarrow> wake \<Rightarrow> ('s, 'q) pool \<Rightarrow> slot option \<times> ('s, 'q) pool" where
  "acquire_slot_wake api w p =
     (case w of
        SemReady \<Rightarrow>
          (case poll_acquire api (semaphore p) of
             (Permit, q) \<Rightarrow> (Some SlotTaken, counter_guard_drop (p\<lparr>semaphore := q\<rparr>))
           | (SemClosed, q) \<Rightarrow> (Some (SlotFailed Closed), counter_guard_drop (p\<lparr>semaphore := q\<rparr>))
           | (NoPermits, q) \<Rightarrow> (Some SlotWaits, p\<lparr>semaphore := q\<rparr>))
      | Elapsed waited_ms \<Rightarrow> (Some (SlotFailed (QueueTimeout waited_ms)), counter_guard_drop p)
      | Dropped \<Rightarrow> (None, counter_guard_drop p))"

text \<open>The whole of \<^verbatim>\<open>acquire_slot\<close> for a claim that is not dropped: a queued claim resolves by \<open>w\<close>.\<close>

definition acquire_slot ::
    "'q semaphore_api \<Rightarrow> pool_options \<Rightarrow> wake \<Rightarrow> ('s, 'q) pool \<Rightarrow> slot option \<times> ('s, 'q) pool" where
  "acquire_slot api opts w p =
     (case acquire_slot_begin api opts p of
        (SlotWaits, p1) \<Rightarrow> acquire_slot_wake api w p1
      | (r, p1) \<Rightarrow> (Some r, p1))"

subsection \<open>Claiming\<close>

text \<open>One turn of the loop of \<^verbatim>\<open>claim\<close>: pop the front of the warm queue and test it.\<close>

datatype 's popped = NoWarm | Fresh 's | Stale 's

definition pop_warm :: "('s, 'q) pool \<Rightarrow> 's warm option \<times> ('s, 'q) pool" where
  "pop_warm p = (case warm p of [] \<Rightarrow> (None, p) | w # ws \<Rightarrow> (Some w, p\<lparr>warm := ws\<rparr>))"

definition claim_turn :: "('s \<Rightarrow> bool) \<Rightarrow> ('s, 'q) pool \<Rightarrow> 's popped \<times> ('s, 'q) pool" where
  "claim_turn alive p =
     (case pop_warm p of
        (None, p1) \<Rightarrow> (NoWarm, notify_one p1)
      | (Some w, p1) \<Rightarrow>
          (if alive (session w) then (Fresh (session w), notify_one p1)
           else (Stale (session w), notify_one p1)))"

text \<open>
  The loop: the session handed out, if any, and the stale sessions sent to a background destroy.
  Each turn shortens the warm queue.
\<close>

function claim_warm ::
    "('s \<Rightarrow> bool) \<Rightarrow> ('s, 'q) pool \<Rightarrow> 's option \<times> 's list \<times> ('s, 'q) pool" where
  "claim_warm alive p =
     (case claim_turn alive p of
        (NoWarm, p1) \<Rightarrow> (None, [], p1)
      | (Fresh s, p1) \<Rightarrow> (Some s, [], p1)
      | (Stale s, p1) \<Rightarrow>
          (let (r, stale, p2) = claim_warm alive p1 in (r, s # stale, p2)))"
  by pat_completeness auto
termination
  by (relation "measure (\<lambda>(alive, p). length (warm p))")
     (auto simp: claim_turn_def pop_warm_def notify_one_def split: list.splits if_splits)

declare claim_warm.simps [simp del]

definition hand_out ::
    "'q semaphore_api \<Rightarrow> string + 's \<Rightarrow> ('s, 'q) pool \<Rightarrow> (claim_error + 's) \<times> ('s, 'q) pool" where
  "hand_out api launched p =
     (case launched of
        Inr s \<Rightarrow> (Inr s, p)
      | Inl message \<Rightarrow>
          (Inl (Launch message), p\<lparr>semaphore := add_permits api (semaphore p) 1\<rparr>))"

text \<open>
  The whole of \<^verbatim>\<open>claim\<close> with nothing else running: the result (\<open>None\<close> when the claim was dropped
  in the queue, or would still be waiting), the stale sessions to destroy, the pool afterwards.
\<close>

definition claim ::
    "'q semaphore_api \<Rightarrow> pool_options \<Rightarrow> wake \<Rightarrow> ('s \<Rightarrow> bool) \<Rightarrow> string + 's \<Rightarrow> ('s, 'q) pool
     \<Rightarrow> (claim_error + 's) option \<times> 's list \<times> ('s, 'q) pool" where
  "claim api opts w alive launched p =
     (case acquire_slot api opts w p of
        (Some SlotTaken, p1) \<Rightarrow>
          (case claim_warm alive p1 of
             (Some s, stale, p2) \<Rightarrow> (Some (Inr s), stale, p2)
           | (None, stale, p2) \<Rightarrow>
               (let (r, p3) = hand_out api launched p2 in (Some r, stale, p3)))
      | (Some (SlotFailed e), p1) \<Rightarrow> (Some (Inl e), [], p1)
      | (_, p1) \<Rightarrow> (None, [], p1))"

definition claim_with ::
    "'q semaphore_api \<Rightarrow> pool_options \<Rightarrow> wake \<Rightarrow> string + 's \<Rightarrow> ('s, 'q) pool
     \<Rightarrow> (claim_error + 's) option \<times> ('s, 'q) pool" where
  "claim_with api opts w launched p =
     (case acquire_slot api opts w p of
        (Some SlotTaken, p1) \<Rightarrow> (let (r, p2) = hand_out api launched p1 in (Some r, p2))
      | (Some (SlotFailed e), p1) \<Rightarrow> (Some (Inl e), p1)
      | (_, p1) \<Rightarrow> (None, p1))"

subsection \<open>Giving back, closing, resizing\<close>

text \<open>The end of \<^verbatim>\<open>destroy_session\<close>, once the factory has destroyed the session.\<close>

definition destroy_session_end :: "'q semaphore_api \<Rightarrow> ('s, 'q) pool \<Rightarrow> ('s, 'q) pool" where
  "destroy_session_end api p = notify_one (p\<lparr>semaphore := add_permits api (semaphore p) 1\<rparr>)"

text \<open>\<^verbatim>\<open>close\<close>: the drained sessions, destroyed in the background, and the pool.\<close>

definition pool_close :: "'q semaphore_api \<Rightarrow> ('s, 'q) pool \<Rightarrow> 's list \<times> ('s, 'q) pool" where
  "pool_close api p =
     (map session (warm p),
      notify_one (p\<lparr>semaphore := sem_close api (semaphore p), warm := []\<rparr>))"

definition stats :: "'q semaphore_api \<Rightarrow> pool_options \<Rightarrow> ('s, 'q) pool \<Rightarrow> pool_stats" where
  "stats api opts p =
     (let available = available_permits api (semaphore p);
          accepting = \<not> is_closed api (semaphore p)
      in \<lparr>st_running = (if accepting then max_sessions p - available else 0),
          st_queued = min (waiting p) (max_queue opts),
          st_warm = length (warm p),
          st_max_sessions = max_sessions p,
          st_max_queue = max_queue opts,
          st_accepting = accepting\<rparr>)"

definition set_max_sessions :: "'q semaphore_api \<Rightarrow> nat \<Rightarrow> ('s, 'q) pool \<Rightarrow> ('s, 'q) pool" where
  "set_max_sessions api target0 p =
     (let target = max target0 1; previous = max_sessions p; p1 = p\<lparr>max_sessions := target\<rparr>
      in if previous < target
         then p1\<lparr>semaphore := add_permits api (semaphore p) (target - previous)\<rparr>
         else if target < previous
         then p1\<lparr>semaphore := forget_permits api (semaphore p) (previous - target)\<rparr>
         else p1)"

subsection \<open>The replenisher\<close>

text \<open>One pass over the warm queue at time \<open>now\<close>: the entries kept and the sessions removed.\<close>

fun cull ::
    "pool_options \<Rightarrow> nat \<Rightarrow> ('s \<Rightarrow> bool) \<Rightarrow> 's warm list \<Rightarrow> 's list \<Rightarrow> 's warm list
     \<Rightarrow> 's warm list \<times> 's list" where
  "cull opts now alive kept removed [] = (kept, removed)"
| "cull opts now alive kept removed (entry # rest) =
     (let age = now - ready_at entry;
          dead = \<not> alive (session entry);
          too_old = warm_max_age opts \<le> age;
          excess_idle = min_ready opts \<le> length kept \<and> warm_idle opts \<le> age
      in if dead \<or> too_old \<or> excess_idle
         then cull opts now alive kept (removed @ [session entry]) rest
         else cull opts now alive (kept @ [entry]) removed rest)"

definition cull_warm ::
    "pool_options \<Rightarrow> nat \<Rightarrow> ('s \<Rightarrow> bool) \<Rightarrow> ('s, 'q) pool \<Rightarrow> 's list \<times> ('s, 'q) pool" where
  "cull_warm opts now alive p =
     (let (kept, removed) = cull opts now alive [] [] (warm p) in (removed, p\<lparr>warm := kept\<rparr>))"

text \<open>How many sessions the replenisher wants to launch.\<close>

definition wanted :: "'q semaphore_api \<Rightarrow> pool_options \<Rightarrow> ('s, 'q) pool \<Rightarrow> nat" where
  "wanted api opts p =
     (let warm_n = length (warm p);
          active = max_sessions p - available_permits api (semaphore p);
          headroom = max_sessions p - (active + warm_n + launching p)
      in min (min_ready opts - (warm_n + launching p)) headroom)"

definition launch_begin :: "('s, 'q) pool \<Rightarrow> ('s, 'q) pool" where
  "launch_begin p = p\<lparr>launching := launching p + 1\<rparr>"

definition launch_end :: "('s, 'q) pool \<Rightarrow> ('s, 'q) pool" where
  "launch_end p = p\<lparr>launching := launching p - 1\<rparr>"

definition push_warm :: "'s \<Rightarrow> nat \<Rightarrow> ('s, 'q) pool \<Rightarrow> ('s, 'q) pool" where
  "push_warm s now p = p\<lparr>warm := warm p @ [\<lparr>session = s, ready_at = now\<rparr>]\<rparr>"

text \<open>The retry delay after a failed warm launch, in milliseconds.\<close>

definition retry_backoff_start :: nat where
  "retry_backoff_start = 200"

definition next_backoff :: "nat \<Rightarrow> nat" where
  "next_backoff b = min (b * 2) 10000"

lemmas pool_defs [pool_simps] =
  acquire_slot_begin_def acquire_slot_wake_def counter_guard_drop_def claim_turn_def pop_warm_def
  notify_one_def hand_out_def destroy_session_end_def pool_close_def set_max_sessions_def
  cull_warm_def launch_begin_def launch_end_def push_warm_def

section \<open>What the laws of the semaphore give\<close>

lemma acquire_lawD:
  assumes "acquire_law avail closed acq"
  shows "acq q = (Permit, q') \<Longrightarrow> \<not> closed q \<and> \<not> closed q' \<and> avail q = Suc (avail q')"
    and "acq q = (NoPermits, q') \<Longrightarrow> q' = q \<and> \<not> closed q \<and> avail q = 0"
    and "acq q = (SemClosed, q') \<Longrightarrow> q' = q \<and> closed q"
proof -
  have "case acq q of
        (Permit, q') \<Rightarrow> \<not> closed q \<and> \<not> closed q' \<and> avail q = Suc (avail q')
      | (NoPermits, q') \<Rightarrow> q' = q \<and> \<not> closed q \<and> avail q = 0
      | (SemClosed, q') \<Rightarrow> q' = q \<and> closed q"
    using assms unfolding acquire_law_def by (rule spec)
  then show "acq q = (Permit, q') \<Longrightarrow> \<not> closed q \<and> \<not> closed q' \<and> avail q = Suc (avail q')"
    and "acq q = (NoPermits, q') \<Longrightarrow> q' = q \<and> \<not> closed q \<and> avail q = 0"
    and "acq q = (SemClosed, q') \<Longrightarrow> q' = q \<and> closed q"
    by simp_all
qed

lemma semaphore_okD:
  assumes "semaphore_ok api"
  shows "available_permits api (sem_new api n) = n"
    and "\<not> is_closed api (sem_new api n)"
    and "available_permits api (add_permits api q n) = available_permits api q + n"
    and "is_closed api (add_permits api q n) = is_closed api q"
    and "available_permits api (forget_permits api q n) = available_permits api q - n"
    and "available_permits api (sem_close api q) = available_permits api q"
    and "is_closed api (sem_close api q)"
  using assms unfolding semaphore_ok_def by blast+

lemma semaphore_ok_acquire:
  assumes "semaphore_ok api"
  shows "acquire_law (available_permits api) (is_closed api) (try_acquire api)"
    and "acquire_law (available_permits api) (is_closed api) (poll_acquire api)"
  using assms unfolding semaphore_ok_def by blast+

lemma try_acquireD:
  assumes "semaphore_ok api"
  shows "try_acquire api q = (Permit, q') \<Longrightarrow>
           \<not> is_closed api q \<and> \<not> is_closed api q' \<and> available_permits api q = Suc (available_permits api q')"
    and "try_acquire api q = (NoPermits, q') \<Longrightarrow> q' = q \<and> \<not> is_closed api q \<and> available_permits api q = 0"
    and "try_acquire api q = (SemClosed, q') \<Longrightarrow> q' = q \<and> is_closed api q"
  using acquire_lawD [OF semaphore_ok_acquire(1) [OF assms]] by blast+

lemma poll_acquireD:
  assumes "semaphore_ok api"
  shows "poll_acquire api q = (Permit, q') \<Longrightarrow>
           \<not> is_closed api q \<and> \<not> is_closed api q' \<and> available_permits api q = Suc (available_permits api q')"
    and "poll_acquire api q = (NoPermits, q') \<Longrightarrow> q' = q \<and> \<not> is_closed api q \<and> available_permits api q = 0"
    and "poll_acquire api q = (SemClosed, q') \<Longrightarrow> q' = q \<and> is_closed api q"
  using acquire_lawD [OF semaphore_ok_acquire(2) [OF assms]] by blast+

lemma try_acquire_cases:
  assumes "semaphore_ok api"
  obtains (permit) q' where "try_acquire api q = (Permit, q')" "\<not> is_closed api q"
      "available_permits api q = Suc (available_permits api q')" "\<not> is_closed api q'"
  | (empty) "try_acquire api q = (NoPermits, q)" "\<not> is_closed api q" "available_permits api q = 0"
  | (closed) "try_acquire api q = (SemClosed, q)" "is_closed api q"
proof -
  obtain r q' where rq: "try_acquire api q = (r, q')" by (cases "try_acquire api q")
  show thesis
  proof (cases r)
    case Permit
    with rq permit try_acquireD(1) [OF assms, of q q'] show ?thesis by simp
  next
    case NoPermits
    with rq empty try_acquireD(2) [OF assms, of q q'] show ?thesis by simp
  next
    case SemClosed
    with rq closed try_acquireD(3) [OF assms, of q q'] show ?thesis by simp
  qed
qed

lemma poll_acquire_cases:
  assumes "semaphore_ok api"
  obtains (permit) q' where "poll_acquire api q = (Permit, q')" "\<not> is_closed api q"
      "available_permits api q = Suc (available_permits api q')" "\<not> is_closed api q'"
  | (empty) "poll_acquire api q = (NoPermits, q)" "\<not> is_closed api q" "available_permits api q = 0"
  | (closed) "poll_acquire api q = (SemClosed, q)" "is_closed api q"
proof -
  obtain r q' where rq: "poll_acquire api q = (r, q')" by (cases "poll_acquire api q")
  show thesis
  proof (cases r)
    case Permit
    with rq permit poll_acquireD(1) [OF assms, of q q'] show ?thesis by simp
  next
    case NoPermits
    with rq empty poll_acquireD(2) [OF assms, of q q'] show ?thesis by simp
  next
    case SemClosed
    with rq closed poll_acquireD(3) [OF assms, of q q'] show ?thesis by simp
  qed
qed

section \<open>The warm loop\<close>

lemma claim_warm_eq:
  "claim_warm alive p =
     (let stale = takeWhile (\<lambda>w. \<not> alive (session w)) (warm p);
          rest = dropWhile (\<lambda>w. \<not> alive (session w)) (warm p)
      in (case rest of [] \<Rightarrow> None | w # _ \<Rightarrow> Some (session w),
          map session stale, p\<lparr>warm := tl rest, replenish := True\<rparr>))"
proof (induction "warm p" arbitrary: p)
  case Nil
  then have "warm p = []" by simp
  then show ?case
    by (subst claim_warm.simps) (simp add: claim_turn_def pop_warm_def notify_one_def)
next
  case (Cons w ws)
  then have p: "warm p = w # ws" by simp
  have IH: "claim_warm alive (p\<lparr>warm := ws, replenish := True\<rparr>) =
     (let stale = takeWhile (\<lambda>w. \<not> alive (session w)) ws;
          rest = dropWhile (\<lambda>w. \<not> alive (session w)) ws
      in (case rest of [] \<Rightarrow> None | w # _ \<Rightarrow> Some (session w),
          map session stale, p\<lparr>warm := tl rest, replenish := True\<rparr>))"
    using Cons.hyps(1) [of "p\<lparr>warm := ws, replenish := True\<rparr>"] by simp
  show ?case
    by (subst claim_warm.simps)
       (simp add: p claim_turn_def pop_warm_def notify_one_def IH Let_def)
qed

lemma cull_mset:
  "cull opts now alive kept removed ws = (k, r) \<Longrightarrow>
   mset (map session k) + mset r = mset (map session kept) + mset removed + mset (map session ws)"
proof (induction ws arbitrary: kept removed)
  case (Cons w ws)
  from Cons.prems show ?case
    by (auto simp: Let_def split: if_splits dest!: Cons.IH)
qed simp

lemma cull_length:
  assumes "cull opts now alive kept removed ws = (k, r)"
  shows "length k + length r = length kept + length removed + length ws"
  using arg_cong [OF cull_mset [OF assms], of size] by simp

section \<open>A semaphore that satisfies the laws\<close>

definition counting_acquire :: "nat \<times> bool \<Rightarrow> acquire_result \<times> nat \<times> bool" where
  "counting_acquire q =
     (case q of (n, c) \<Rightarrow>
        if c then (SemClosed, q) else if n = 0 then (NoPermits, q) else (Permit, n - 1, c))"

definition counting_semaphore :: "(nat \<times> bool) semaphore_api" where
  "counting_semaphore =
     \<lparr>sem_new = (\<lambda>n. (n, False)), try_acquire = counting_acquire, poll_acquire = counting_acquire,
      add_permits = (\<lambda>(n, c) k. (n + k, c)), forget_permits = (\<lambda>(n, c) k. (n - k, c)),
      sem_close = (\<lambda>(n, c). (n, True)), available_permits = fst, is_closed = snd\<rparr>"

lemma counting_semaphore_ok: "semaphore_ok counting_semaphore"
  by (auto simp: semaphore_ok_def counting_semaphore_def acquire_law_def counting_acquire_def
      split: prod.splits)

definition demo_options :: pool_options where
  "demo_options = \<lparr>min_ready = 1, opt_max_sessions = 1, max_queue = 1, queue_timeout = 200,
                   warm_idle = 300000, warm_max_age = 3600000\<rparr>"

section \<open>Properties of a claim\<close>

lemma acquire_slot_free:
  assumes "semaphore_ok api" "\<not> is_closed api (semaphore p)" "0 < available_permits api (semaphore p)"
  shows "\<exists>q. acquire_slot api opts wk p = (Some SlotTaken, p\<lparr>semaphore := q\<rparr>) \<and>
             available_permits api (semaphore p) = Suc (available_permits api q)"
  using assms(1)
  by (rule try_acquire_cases [where q = "semaphore p"])
     (use assms(2,3) in \<open>auto simp: acquire_slot_def acquire_slot_begin_def\<close>)

text \<open>
  With a free slot, a claim hands out the oldest live warm browser and launches
  nothing; exactly the dead browsers in front of it are sent to destruction, the younger ones stay
  in their order, and one permit is spent.
\<close>

theorem claim_hands_out_oldest_live:
  assumes "semaphore_ok api" "\<not> is_closed api (semaphore p)"
    and "0 < available_permits api (semaphore p)"
    and "warm p = stale @ w # rest" "list_all (\<lambda>x. \<not> alive (session x)) stale" "alive (session w)"
  shows "\<exists>p'. claim api opts wk alive launched p = (Some (Inr (session w)), map session stale, p') \<and>
              warm p' = rest \<and> waiting p' = waiting p \<and> max_sessions p' = max_sessions p \<and>
              available_permits api (semaphore p) = Suc (available_permits api (semaphore p'))"
proof -
  obtain q where q: "acquire_slot api opts wk p = (Some SlotTaken, p\<lparr>semaphore := q\<rparr>)"
      "available_permits api (semaphore p) = Suc (available_permits api q)"
    using acquire_slot_free [OF assms(1-3)] by blast
  have "takeWhile (\<lambda>w. \<not> alive (session w)) (warm p) = stale"
       "dropWhile (\<lambda>w. \<not> alive (session w)) (warm p) = w # rest"
    using assms(4-6) by (auto simp: list_all_iff takeWhile_append2 dropWhile_append2)
  then show ?thesis
    using q by (simp add: claim_def claim_warm_eq)
qed

theorem claim_hands_out_oldest_live_witness:
  "\<exists>p'. claim counting_semaphore demo_options Dropped (\<lambda>n. 3 \<le> n) (Inl ''unused'')
          \<lparr>semaphore = (2, False), max_sessions = 2,
           warm = [\<lparr>session = 1, ready_at = 5\<rparr>, \<lparr>session = (4::nat), ready_at = 7\<rparr>],
           waiting = 0, launching = 0, replenish = False\<rparr>
        = (Some (Inr 4), [1], p') \<and> warm p' = []"
  using claim_hands_out_oldest_live [OF counting_semaphore_ok,
      of "\<lparr>semaphore = (2, False), max_sessions = 2,
           warm = [\<lparr>session = 1, ready_at = 5\<rparr>, \<lparr>session = (4::nat), ready_at = 7\<rparr>],
           waiting = 0, launching = 0, replenish = False\<rparr>"
         "[\<lparr>session = 1, ready_at = 5\<rparr>]" "\<lparr>session = 4, ready_at = 7\<rparr>" "[]" "\<lambda>n. 3 \<le> n"
         demo_options Dropped "Inl ''unused''"]
  by (auto simp: counting_semaphore_def)

lemma acquire_slot_refused:
  assumes "semaphore_ok api" "acquire_slot api opts wk p = (Some (SlotFailed e), p')"
  shows "p' = p"
  using assms(1)
proof (rule try_acquire_cases [where q = "semaphore p"])
  assume e: "try_acquire api (semaphore p) = (NoPermits, semaphore p)"
  show ?thesis
    using assms(1)
    by (rule poll_acquire_cases [where q = "semaphore p"])
       (use assms(2) e in \<open>cases wk; auto simp: acquire_slot_def acquire_slot_begin_def
           acquire_slot_wake_def counter_guard_drop_def Let_def split: if_splits\<close>)+
qed (use assms(2) in \<open>auto simp: acquire_slot_def acquire_slot_begin_def\<close>)

lemma acquire_slot_taken:
  assumes "semaphore_ok api" "acquire_slot api opts wk p = (Some SlotTaken, p')"
  shows "\<exists>q. p' = p\<lparr>semaphore := q\<rparr> \<and> available_permits api (semaphore p) = Suc (available_permits api q)"
  using assms(1)
proof (rule try_acquire_cases [where q = "semaphore p"])
  assume e: "try_acquire api (semaphore p) = (NoPermits, semaphore p)"
    "available_permits api (semaphore p) = 0"
  show ?thesis
    using assms(1)
    by (rule poll_acquire_cases [where q = "semaphore p"])
       (use assms(2) e in \<open>cases wk; auto simp: acquire_slot_def acquire_slot_begin_def
           acquire_slot_wake_def counter_guard_drop_def Let_def split: if_splits\<close>)+
qed (use assms(2) in \<open>auto simp: acquire_slot_def acquire_slot_begin_def\<close>)

text \<open>
  A claim that fails costs nothing. A refusal (queue full, queue timeout, closed)
  leaves the pool as it was; a failed launch, which happens only after every warm browser was found
  dead, gives its slot back and leaves the queue counter as it was.
\<close>

theorem failed_claim_restores_capacity:
  assumes "semaphore_ok api" "claim api opts wk alive launched p = (Some (Inl e), stale, p')"
  shows "available_permits api (semaphore p') = available_permits api (semaphore p) \<and>
         waiting p' = waiting p \<and> max_sessions p' = max_sessions p \<and> launching p' = launching p \<and>
         (case e of
            Launch m \<Rightarrow> launched = Inl m \<and> warm p' = [] \<and> stale = map session (warm p) \<and>
                        list_all (\<lambda>x. \<not> alive x) stale
          | _ \<Rightarrow> p' = p \<and> stale = [])"
proof (cases "\<exists>p1. acquire_slot api opts wk p = (Some SlotTaken, p1)")
  case True
  then obtain q where q: "acquire_slot api opts wk p = (Some SlotTaken, p\<lparr>semaphore := q\<rparr>)"
      "available_permits api (semaphore p) = Suc (available_permits api q)"
    using acquire_slot_taken [OF assms(1)] by blast
  from q(1) assms(2) have drop: "dropWhile (\<lambda>w. \<not> alive (session w)) (warm p) = []"
    by (auto simp: claim_def claim_warm_eq Let_def split: list.splits)
  then have tw: "takeWhile (\<lambda>w. \<not> alive (session w)) (warm p) = warm p"
    by (metis append_Nil2 takeWhile_dropWhile_id)
  have dead: "list_all (\<lambda>x. \<not> alive x) (map session (warm p))"
    using drop by (simp add: list_all_iff)
  have "claim api opts wk alive launched p =
        (let (r, p3) = hand_out api launched (p\<lparr>semaphore := q, warm := [], replenish := True\<rparr>)
         in (Some r, map session (warm p), p3))"
    using drop tw
    by (simp add: claim_def q claim_warm_eq Let_def del: dropWhile_eq_Nil_conv takeWhile_eq_all_conv)
  then show ?thesis
    using assms(2) q(2) dead
    by (cases launched) (auto simp: hand_out_def semaphore_okD [OF assms(1)])
next
  case False
  with assms(2) have "acquire_slot api opts wk p = (Some (SlotFailed e), p') \<and> stale = []"
    by (auto simp: claim_def split: prod.splits option.splits slot.splits)
  moreover from this have "p' = p"
    using acquire_slot_refused [OF assms(1)] by blast
  moreover from calculation have "\<nexists>m. e = Launch m"
    by (auto simp: acquire_slot_def acquire_slot_begin_def acquire_slot_wake_def Let_def
        split: prod.splits acquire_result.splits if_splits wake.splits slot.splits)
  ultimately show ?thesis by (cases e) auto
qed

lemma failed_claim_example:
  "claim counting_semaphore demo_options Dropped (\<lambda>n. 3 \<le> n) (Inl ''boom'')
      \<lparr>semaphore = (2, False), max_sessions = 2, warm = [\<lparr>session = 1, ready_at = 5\<rparr>],
       waiting = 0, launching = 0, replenish = False\<rparr>
    = (Some (Inl (Launch ''boom'')), [1::nat],
       \<lparr>semaphore = (2, False), max_sessions = 2, warm = [],
        waiting = 0, launching = 0, replenish = True\<rparr>)"
  by (simp add: claim_def acquire_slot_def acquire_slot_begin_def counting_semaphore_def
      counting_acquire_def claim_warm_eq hand_out_def)

theorem failed_claim_restores_capacity_witness:
  "available_permits counting_semaphore (2, False) = available_permits counting_semaphore (2, False)
   \<and> list_all (\<lambda>x. \<not> (\<lambda>n. 3 \<le> n) x) [1::nat]"
  using failed_claim_restores_capacity [OF counting_semaphore_ok failed_claim_example] by simp

end
