(* ===== verification/Pool_Machine.thy ===== *)
theory Pool_Machine
  imports Pool
begin

text \<open>
  The pool as the concurrent object it is: the step relation \<open>pool_step\<close> interleaves the pieces of
  the operations of \<^verbatim>\<open>src/pool.rs\<close>, one rule per piece, over a system state that records, beside the
  pool itself, which claimers are queued, which own a slot without a browser, which browsers are
  claimed, being destroyed with their slot still held, or discarded in the background, and where
  the replenisher task stands. \<open>created\<close> and \<open>destroyed\<close> are ghost fields, the browsers ever
  launched and ever torn down. A claim that is dropped while its launch is pending is a step of
  its own.
\<close>

section \<open>System state\<close>

datatype 's replenisher = RepIdle | RepLaunching | RepChecked 's | RepDone

record ('s, 'q) sys =
  pl :: "('s, 'q) pool"
  waiters :: nat
  holders :: nat
  leaked :: nat
  claimed :: "'s multiset"
  dying :: "'s multiset"
  discards :: "'s multiset"
  rep :: "'s replenisher"
  created :: "'s multiset"
  destroyed :: "'s multiset"

definition sys_init :: "'q semaphore_api \<Rightarrow> pool_options \<Rightarrow> ('s, 'q) sys" where
  "sys_init api opts =
     \<lparr>pl = pool_new api opts, waiters = 0, holders = 0, leaked = 0, claimed = {#}, dying = {#},
      discards = {#}, rep = RepIdle, created = {#}, destroyed = {#}\<rparr>"

text \<open>No claim is under way and no slot is out: the state in which the ceiling is resized.\<close>

definition no_slot_out :: "('s, 'q) sys \<Rightarrow> bool" where
  "no_slot_out s \<longleftrightarrow>
     waiters s = 0 \<and> holders s = 0 \<and> leaked s = 0 \<and> claimed s = {#} \<and> dying s = {#}"

section \<open>Steps\<close>

inductive pool_step ::
    "'q semaphore_api \<Rightarrow> pool_options \<Rightarrow> ('s, 'q) sys \<Rightarrow> ('s, 'q) sys \<Rightarrow> bool"
  for api :: "'q semaphore_api" and opts :: pool_options where
  claim_taken:
    "acquire_slot_begin api opts (pl s) = (SlotTaken, p) \<Longrightarrow>
     pool_step api opts s (s\<lparr>pl := p, holders := holders s + 1\<rparr>)"
| claim_waits:
    "acquire_slot_begin api opts (pl s) = (SlotWaits, p) \<Longrightarrow>
     pool_step api opts s (s\<lparr>pl := p, waiters := waiters s + 1\<rparr>)"
| claim_refused:
    "acquire_slot_begin api opts (pl s) = (SlotFailed e, p) \<Longrightarrow>
     pool_step api opts s (s\<lparr>pl := p\<rparr>)"
| wake_taken:
    "0 < waiters s \<Longrightarrow> acquire_slot_wake api w (pl s) = (Some SlotTaken, p) \<Longrightarrow>
     pool_step api opts s (s\<lparr>pl := p, waiters := waiters s - 1, holders := holders s + 1\<rparr>)"
| wake_refused:
    "0 < waiters s \<Longrightarrow> acquire_slot_wake api w (pl s) = (Some (SlotFailed e), p) \<Longrightarrow>
     pool_step api opts s (s\<lparr>pl := p, waiters := waiters s - 1\<rparr>)"
| wake_dropped:
    "0 < waiters s \<Longrightarrow> acquire_slot_wake api w (pl s) = (None, p) \<Longrightarrow>
     pool_step api opts s (s\<lparr>pl := p, waiters := waiters s - 1\<rparr>)"
| pop_fresh:
    "0 < holders s \<Longrightarrow> claim_turn alive (pl s) = (Fresh x, p) \<Longrightarrow>
     pool_step api opts s
       (s\<lparr>pl := p, holders := holders s - 1, claimed := add_mset x (claimed s)\<rparr>)"
| pop_stale:
    "0 < holders s \<Longrightarrow> claim_turn alive (pl s) = (Stale x, p) \<Longrightarrow>
     pool_step api opts s (s\<lparr>pl := p, discards := add_mset x (discards s)\<rparr>)"
| pop_none:
    "0 < holders s \<Longrightarrow> claim_turn alive (pl s) = (NoWarm, p) \<Longrightarrow>
     pool_step api opts s (s\<lparr>pl := p\<rparr>)"
| launch_ok:
    "0 < holders s \<Longrightarrow> hand_out api (Inr x) (pl s) = (Inr y, p) \<Longrightarrow>
     pool_step api opts s
       (s\<lparr>pl := p, holders := holders s - 1, claimed := add_mset y (claimed s),
          created := add_mset x (created s)\<rparr>)"
| launch_failed:
    "0 < holders s \<Longrightarrow> hand_out api (Inl m) (pl s) = (Inl e, p) \<Longrightarrow>
     pool_step api opts s (s\<lparr>pl := p, holders := holders s - 1\<rparr>)"
| launch_dropped:
    "0 < holders s \<Longrightarrow>
     pool_step api opts s (s\<lparr>holders := holders s - 1, leaked := leaked s + 1\<rparr>)"
| destroy_begin:
    "x \<in># claimed s \<Longrightarrow>
     pool_step api opts s (s\<lparr>claimed := claimed s - {#x#}, dying := add_mset x (dying s)\<rparr>)"
| destroy_end:
    "x \<in># dying s \<Longrightarrow>
     pool_step api opts s
       (s\<lparr>pl := destroy_session_end api (pl s), dying := dying s - {#x#},
          destroyed := add_mset x (destroyed s)\<rparr>)"
| discard_end:
    "x \<in># discards s \<Longrightarrow>
     pool_step api opts s
       (s\<lparr>discards := discards s - {#x#}, destroyed := add_mset x (destroyed s)\<rparr>)"
| close_pool:
    "pool_close api (pl s) = (drained, p) \<Longrightarrow>
     pool_step api opts s (s\<lparr>pl := p, discards := discards s + mset drained\<rparr>)"
| resize:
    "no_slot_out s \<Longrightarrow>
     pool_step api opts s (s\<lparr>pl := set_max_sessions api n (pl s)\<rparr>)"
| rep_cull:
    "rep s = RepIdle \<Longrightarrow> cull_warm opts now alive (pl s) = (removed, p) \<Longrightarrow>
     pool_step api opts s (s\<lparr>pl := p, discards := discards s + mset removed\<rparr>)"
| rep_stop:
    "rep s = RepIdle \<Longrightarrow> is_closed api (semaphore (pl s)) \<Longrightarrow>
     pool_step api opts s (s\<lparr>rep := RepDone\<rparr>)"
| rep_launch:
    "rep s = RepIdle \<Longrightarrow> 0 < wanted api opts (pl s) \<Longrightarrow>
     pool_step api opts s (s\<lparr>pl := launch_begin (pl s), rep := RepLaunching\<rparr>)"
| rep_checked:
    "rep s = RepLaunching \<Longrightarrow> \<not> is_closed api (semaphore (pl s)) \<Longrightarrow>
     pool_step api opts s
       (s\<lparr>pl := launch_end (pl s), rep := RepChecked x, created := add_mset x (created s)\<rparr>)"
| rep_too_late:
    "rep s = RepLaunching \<Longrightarrow> is_closed api (semaphore (pl s)) \<Longrightarrow>
     pool_step api opts s
       (s\<lparr>pl := launch_end (pl s), rep := RepDone, created := add_mset x (created s),
          discards := add_mset x (discards s)\<rparr>)"
| rep_failed:
    "rep s = RepLaunching \<Longrightarrow>
     pool_step api opts s (s\<lparr>pl := launch_end (pl s), rep := RepIdle\<rparr>)"
| rep_push:
    "rep s = RepChecked x \<Longrightarrow>
     pool_step api opts s (s\<lparr>pl := push_warm x now (pl s), rep := RepIdle\<rparr>)"

definition reachable :: "'q semaphore_api \<Rightarrow> pool_options \<Rightarrow> ('s, 'q) sys \<Rightarrow> bool" where
  "reachable api opts s \<longleftrightarrow> (pool_step api opts)\<^sup>*\<^sup>* (sys_init api opts) s"

section \<open>Invariants\<close>

text \<open>Every permit of the ceiling is free, held, claimed, being freed, or lost to a dropped launch.\<close>

definition slot_inv :: "'q semaphore_api \<Rightarrow> ('s, 'q) sys \<Rightarrow> bool" where
  "slot_inv api s \<longleftrightarrow>
     available_permits api (semaphore (pl s)) + holders s + size (claimed s) + size (dying s)
       + leaked s = max_sessions (pl s)"

definition queue_inv :: "pool_options \<Rightarrow> ('s, 'q) sys \<Rightarrow> bool" where
  "queue_inv opts s \<longleftrightarrow> waiting (pl s) = waiters s \<and> waiters s \<le> max_queue opts"

fun rep_held :: "'s replenisher \<Rightarrow> 's multiset" where
  "rep_held (RepChecked x) = {#x#}"
| "rep_held _ = {#}"

definition warm_inv :: "pool_options \<Rightarrow> ('s, 'q) sys \<Rightarrow> bool" where
  "warm_inv opts s \<longleftrightarrow>
     launching (pl s) = (if rep s = RepLaunching then 1 else 0) \<and>
     length (warm (pl s)) + launching (pl s) + size (rep_held (rep s)) \<le> min_ready opts"

definition session_inv :: "('s, 'q) sys \<Rightarrow> bool" where
  "session_inv s \<longleftrightarrow>
     created s = mset (map session (warm (pl s))) + rep_held (rep s) + claimed s + dying s
                 + discards s + destroyed s"

lemma cull_warm_length:
  "cull_warm opts now alive p = (r, p') \<Longrightarrow> length (warm p') \<le> length (warm p)"
  by (auto simp: cull_warm_def split: prod.splits dest: cull_length)

lemma cull_warm_mset:
  "cull_warm opts now alive p = (r, p') \<Longrightarrow>
   mset (map session (warm p)) = mset (map session (warm p')) + mset r"
  by (auto simp: cull_warm_def split: prod.splits dest!: cull_mset)

lemma cull_warm_frame:
  "cull_warm opts now alive p = (r, p') \<Longrightarrow>
   semaphore p' = semaphore p \<and> max_sessions p' = max_sessions p \<and> waiting p' = waiting p \<and>
   launching p' = launching p"
  by (auto simp: cull_warm_def split: prod.splits)

lemma acquire_slot_begin_frame:
  "acquire_slot_begin api opts p = (r, p') \<Longrightarrow>
   max_sessions p' = max_sessions p \<and> warm p' = warm p \<and> launching p' = launching p"
  by (auto simp: acquire_slot_begin_def counter_guard_drop_def Let_def
      split: prod.splits acquire_result.splits if_splits)

lemma acquire_slot_begin_counts:
  assumes "semaphore_ok api" "acquire_slot_begin api opts p = (r, p')"
  shows "(case r of
            SlotTaken \<Rightarrow> available_permits api (semaphore p) = Suc (available_permits api (semaphore p')) \<and>
                         waiting p' = waiting p
          | SlotWaits \<Rightarrow> semaphore p' = semaphore p \<and> waiting p' = Suc (waiting p) \<and>
                         waiting p < max_queue opts
          | SlotFailed e \<Rightarrow> p' = p)"
  using assms(1)
  by (rule try_acquire_cases [where q = "semaphore p"])
     (use assms(2) in \<open>auto simp: acquire_slot_begin_def counter_guard_drop_def Let_def split: if_splits\<close>)

lemma acquire_slot_wake_frame:
  "acquire_slot_wake api w p = (r, p') \<Longrightarrow>
   max_sessions p' = max_sessions p \<and> warm p' = warm p \<and> launching p' = launching p"
  by (auto simp: acquire_slot_wake_def counter_guard_drop_def
      split: prod.splits acquire_result.splits wake.splits)

lemma acquire_slot_wake_counts:
  assumes "semaphore_ok api" "acquire_slot_wake api w p = (r, p')"
  shows "(case r of
            Some SlotTaken \<Rightarrow>
              available_permits api (semaphore p) = Suc (available_permits api (semaphore p')) \<and>
              waiting p' = waiting p - 1
          | Some SlotWaits \<Rightarrow> p' = p
          | _ \<Rightarrow> semaphore p' = semaphore p \<and> waiting p' = waiting p - 1)"
  using assms(1)
  by (rule poll_acquire_cases [where q = "semaphore p"])
     (use assms(2) in \<open>cases w; auto simp: acquire_slot_wake_def counter_guard_drop_def\<close>)+

lemma claim_turn_frame:
  "claim_turn alive p = (r, p') \<Longrightarrow>
   semaphore p' = semaphore p \<and> max_sessions p' = max_sessions p \<and> waiting p' = waiting p \<and>
   launching p' = launching p"
  by (auto simp: claim_turn_def pop_warm_def notify_one_def split: list.splits if_splits)

lemma claim_turn_warm:
  "claim_turn alive p = (r, p') \<Longrightarrow>
   (case r of NoWarm \<Rightarrow> warm p = [] \<and> warm p' = []
    | Fresh x \<Rightarrow> alive x \<and> (\<exists>w. session w = x \<and> warm p = w # warm p')
    | Stale x \<Rightarrow> \<not> alive x \<and> (\<exists>w. session w = x \<and> warm p = w # warm p'))"
  by (auto simp: claim_turn_def pop_warm_def notify_one_def split: list.splits if_splits)

lemma set_max_sessions_counts:
  assumes "semaphore_ok api" "available_permits api (semaphore p) = max_sessions p"
  shows "available_permits api (semaphore (set_max_sessions api n p)) =
         max_sessions (set_max_sessions api n p)"
  using assms by (auto simp: set_max_sessions_def Let_def semaphore_okD max_def)

lemma set_max_sessions_frame [simp]:
  "warm (set_max_sessions api n p) = warm p"
  "waiting (set_max_sessions api n p) = waiting p"
  "launching (set_max_sessions api n p) = launching p"
  by (simp_all add: set_max_sessions_def Let_def)

lemma hand_out_counts:
  assumes "semaphore_ok api" "hand_out api l p = (r, p')"
  shows "warm p' = warm p \<and> waiting p' = waiting p \<and> launching p' = launching p \<and>
         max_sessions p' = max_sessions p \<and>
         (case r of Inr x \<Rightarrow> p' = p \<and> l = Inr x
          | Inl e \<Rightarrow> available_permits api (semaphore p') = Suc (available_permits api (semaphore p)))"
  using assms by (auto simp: hand_out_def semaphore_okD split: sum.splits)

section \<open>Every step keeps the invariants\<close>

lemmas count_facts =
  acquire_slot_begin_counts acquire_slot_wake_counts hand_out_counts

lemma step_slot_inv:
  assumes ok: "semaphore_ok api" and "pool_step api opts s t" and "slot_inv api s"
  shows "slot_inv api t"
  using assms(2,3)
proof (induction rule: pool_step.induct)
  case (claim_taken s p)
  then show ?case
    using acquire_slot_begin_counts [OF ok claim_taken.hyps] acquire_slot_begin_frame [OF claim_taken.hyps]
    by (simp add: slot_inv_def)
next
  case (claim_waits s p)
  then show ?case
    using acquire_slot_begin_counts [OF ok claim_waits.hyps] acquire_slot_begin_frame [OF claim_waits.hyps]
    by (simp add: slot_inv_def)
next
  case (claim_refused s e p)
  then show ?case
    using acquire_slot_begin_counts [OF ok claim_refused.hyps] by (simp add: slot_inv_def)
next
  case (wake_taken s w p)
  then show ?case
    using acquire_slot_wake_counts [OF ok wake_taken.hyps(2)] acquire_slot_wake_frame [OF wake_taken.hyps(2)]
    by (simp add: slot_inv_def)
next
  case (wake_refused s w e p)
  then show ?case
    using acquire_slot_wake_counts [OF ok wake_refused.hyps(2)] acquire_slot_wake_frame [OF wake_refused.hyps(2)]
    by (simp add: slot_inv_def)
next
  case (wake_dropped s w p)
  then show ?case
    using acquire_slot_wake_counts [OF ok wake_dropped.hyps(2)] acquire_slot_wake_frame [OF wake_dropped.hyps(2)]
    by (simp add: slot_inv_def)
next
  case (launch_ok s x y p)
  then show ?case
    using hand_out_counts [OF ok launch_ok.hyps(2)] by (simp add: slot_inv_def)
next
  case (launch_failed s m e p)
  then show ?case
    using hand_out_counts [OF ok launch_failed.hyps(2)] by (simp add: slot_inv_def)
next
  case (destroy_begin x s)
  then show ?case
    by (auto simp: slot_inv_def dest!: multi_member_split)
next
  case (destroy_end x s)
  then show ?case
    by (auto simp: slot_inv_def destroy_session_end_def notify_one_def semaphore_okD [OF ok]
        dest!: multi_member_split)
next
  case (resize s n)
  then show ?case
    using set_max_sessions_counts [OF ok, of "pl s" n]
    by (auto simp: slot_inv_def no_slot_out_def)
qed (auto simp: slot_inv_def pool_close_def notify_one_def launch_begin_def launch_end_def
      push_warm_def semaphore_okD [OF ok] dest!: claim_turn_frame cull_warm_frame)

lemma step_queue_inv:
  assumes ok: "semaphore_ok api" and "pool_step api opts s t" and "queue_inv opts s"
  shows "queue_inv opts t"
  using assms(2,3)
proof (induction rule: pool_step.induct)
  case (wake_refused s w e p)
  then show ?case
    using acquire_slot_wake_counts [OF ok wake_refused.hyps(2)] by (auto simp: queue_inv_def)
qed (auto simp: queue_inv_def pool_close_def notify_one_def launch_begin_def launch_end_def
      push_warm_def destroy_session_end_def
      dest!: claim_turn_frame cull_warm_frame count_facts [OF ok])

lemma step_warm_inv:
  assumes "pool_step api opts s t" and "warm_inv opts s"
  shows "warm_inv opts t"
  using assms
proof (induction rule: pool_step.induct)
  case (pop_fresh s alive x p)
  then show ?case
    using claim_turn_frame [OF pop_fresh.hyps(2)] claim_turn_warm [OF pop_fresh.hyps(2)]
    by (auto simp: warm_inv_def)
next
  case (pop_stale s alive x p)
  then show ?case
    using claim_turn_frame [OF pop_stale.hyps(2)] claim_turn_warm [OF pop_stale.hyps(2)]
    by (auto simp: warm_inv_def)
next
  case (pop_none s alive p)
  then show ?case
    using claim_turn_frame [OF pop_none.hyps(2)] claim_turn_warm [OF pop_none.hyps(2)]
    by (auto simp: warm_inv_def)
next
  case (rep_cull s now alive removed p)
  then show ?case
    using cull_warm_frame [OF rep_cull.hyps(2)] cull_warm_length [OF rep_cull.hyps(2)]
    by (auto simp: warm_inv_def)
next
  case (rep_launch s)
  then show ?case
    by (auto simp: warm_inv_def wanted_def launch_begin_def Let_def)
qed (auto simp: warm_inv_def pool_close_def notify_one_def launch_end_def push_warm_def
      destroy_session_end_def hand_out_def split: if_splits
      dest!: acquire_slot_begin_frame acquire_slot_wake_frame)

lemma step_session_inv:
  assumes "pool_step api opts s t" and "session_inv s"
  shows "session_inv t"
  using assms
proof (induction rule: pool_step.induct)
  case (pop_fresh s alive x p)
  then show ?case
    using claim_turn_warm [OF pop_fresh.hyps(2)] by (auto simp: session_inv_def)
next
  case (pop_stale s alive x p)
  then show ?case
    using claim_turn_warm [OF pop_stale.hyps(2)] by (auto simp: session_inv_def)
next
  case (pop_none s alive p)
  then show ?case
    using claim_turn_warm [OF pop_none.hyps(2)] by (auto simp: session_inv_def)
next
  case (rep_cull s now alive removed p)
  then show ?case
    using cull_warm_mset [OF rep_cull.hyps(2)] by (simp add: session_inv_def)
next
  case (destroy_begin x s)
  then show ?case
    by (auto simp: session_inv_def dest!: multi_member_split)
next
  case (destroy_end x s)
  then show ?case
    by (auto simp: session_inv_def destroy_session_end_def notify_one_def dest!: multi_member_split)
next
  case (discard_end x s)
  then show ?case
    by (auto simp: session_inv_def dest!: multi_member_split)
qed (auto simp: session_inv_def pool_close_def notify_one_def launch_begin_def launch_end_def
      push_warm_def hand_out_def dest!: acquire_slot_begin_frame acquire_slot_wake_frame)

definition pool_inv :: "'q semaphore_api \<Rightarrow> pool_options \<Rightarrow> ('s, 'q) sys \<Rightarrow> bool" where
  "pool_inv api opts s \<longleftrightarrow>
     (semaphore_ok api \<longrightarrow>
        slot_inv api s \<and> queue_inv opts s \<and> warm_inv opts s \<and> session_inv s)"

lemma pool_inv_init: "pool_inv api opts (sys_init api opts)"
  by (simp add: pool_inv_def slot_inv_def queue_inv_def warm_inv_def session_inv_def sys_init_def
      pool_new_def semaphore_okD)

lemma pool_inv_step: "pool_step api opts s t \<Longrightarrow> pool_inv api opts s \<Longrightarrow> pool_inv api opts t"
  unfolding pool_inv_def
  using step_slot_inv step_queue_inv step_warm_inv step_session_inv by blast

interpretation pool_machine:
  state_machine "pool_step api opts" "sys_init api opts" "pool_inv api opts" for api opts
  by unfold_locales (rule pool_inv_init, rule pool_inv_step)

lemma reachable_invs:
  assumes "semaphore_ok api" "reachable api opts s"
  shows "slot_inv api s" "queue_inv opts s" "warm_inv opts s" "session_inv s"
  using pool_machine.invar_reachable [OF assms(2) [unfolded reachable_def]] assms(1)
  by (simp_all add: pool_inv_def)

lemma reachable_run:
  "reachable api opts s \<Longrightarrow> (pool_step api opts)\<^sup>*\<^sup>* s t \<Longrightarrow> reachable api opts t"
  by (auto simp: reachable_def)

section \<open>A slot lost to a dropped launch stays lost\<close>

lemma step_leaked: "pool_step api opts s t \<Longrightarrow> leaked s \<le> leaked t"
  by (induction rule: pool_step.induct) auto

lemma step_max_sessions:
  "pool_step api opts s t \<Longrightarrow> 0 < leaked s \<Longrightarrow> max_sessions (pl t) = max_sessions (pl s)"
  by (induction rule: pool_step.induct)
     (auto simp: no_slot_out_def pool_close_def notify_one_def destroy_session_end_def
       launch_begin_def launch_end_def push_warm_def hand_out_def split: sum.splits
       dest!: acquire_slot_begin_frame acquire_slot_wake_frame claim_turn_frame cull_warm_frame)

lemma run_leaked:
  assumes "(pool_step api opts)\<^sup>*\<^sup>* s t" "0 < leaked s"
  shows "leaked s \<le> leaked t \<and> max_sessions (pl t) = max_sessions (pl s)"
  using assms
proof (induction rule: rtranclp_induct)
  case (step u v)
  then have "leaked u \<le> leaked v" "max_sessions (pl v) = max_sessions (pl u)"
    using step_leaked step_max_sessions by fastforce+
  with step show ?case by auto
qed simp

section \<open>Idle culling\<close>

lemma cull_no_excess:
  assumes "length kept + length ws \<le> min_ready opts"
  shows "cull opts now alive kept removed ws = cull (opts\<lparr>warm_idle := n\<rparr>) now alive kept removed ws"
  using assms
proof (induction ws arbitrary: kept removed)
  case (Cons w ws)
  then show ?case by (auto simp: Let_def)
qed simp

section \<open>Properties of the running pool\<close>

text \<open>
  Property C1: in every reachable state the permits of the ceiling are accounted for exactly: free,
  held by a claim that is launching, claimed, being torn down, or lost to a launch whose claim was
  dropped. So browsers in the hands of clients never outnumber the ceiling, and a browser being
  torn down still holds its slot.
\<close>

theorem session_ceiling:
  assumes "semaphore_ok api" "reachable api opts s"
  shows "available_permits api (semaphore (pl s)) + holders s + size (claimed s) + size (dying s)
           + leaked s = max_sessions (pl s) \<and>
         size (claimed s) + size (dying s) \<le> max_sessions (pl s)"
  using reachable_invs(1) [OF assms] by (simp add: slot_inv_def)

theorem session_ceiling_witness:
  "available_permits counting_semaphore (semaphore (pl (sys_init counting_semaphore demo_options)))
     = (1::nat) \<and>
   reachable counting_semaphore demo_options (sys_init counting_semaphore demo_options)"
  using session_ceiling [OF counting_semaphore_ok, of demo_options
      "sys_init counting_semaphore demo_options"]
  by (simp add: reachable_def sys_init_def pool_new_def demo_options_def)

text \<open>
  Property C11: a browser is never shared and never reused. Every browser ever launched is in exactly
  one place: parked warm, with the replenisher, claimed by one client, being torn down, discarded
  in the background, or destroyed; in particular a destroyed browser is never handed out again.
\<close>

theorem browser_never_reused:
  assumes "semaphore_ok api" "reachable api opts s" "count (created s) x = 1"
  shows "count (mset (map session (warm (pl s)))) x + count (rep_held (rep s)) x
           + count (claimed s) x + count (dying s) x + count (discards s) x
           + count (destroyed s) x = 1 \<and>
         (x \<in># destroyed s \<longrightarrow> x \<notin># claimed s \<and> x \<notin> session ` set (warm (pl s)))"
proof -
  have eq: "count (mset (map session (warm (pl s)))) x + count (rep_held (rep s)) x
           + count (claimed s) x + count (dying s) x + count (discards s) x
           + count (destroyed s) x = 1"
    using reachable_invs(4) [OF assms(1,2)] assms(3) by (simp add: session_inv_def)
  moreover have "count (claimed s) x = 0 \<and> count (mset (map session (warm (pl s)))) x = 0"
    if "x \<in># destroyed s"
    using eq that count_greater_zero_iff [of "destroyed s" x] by linarith
  moreover have "x \<notin> session ` set (warm (pl s))" if "count (mset (map session (warm (pl s)))) x = 0"
    using that by (metis count_eq_zero_iff image_set set_mset_mset)
  ultimately show ?thesis by (simp add: not_in_iff)
qed

text \<open>
  A run of the one-session pool: a client claims a freshly launched browser, gives it back, and it
  is torn down.
\<close>

definition served_once :: "(nat, nat \<times> bool) sys" where
  "served_once = (sys_init counting_semaphore demo_options)
     \<lparr>pl := (pool_new counting_semaphore demo_options)\<lparr>replenish := True\<rparr>,
      created := {#7#}, destroyed := {#7#}\<rparr>"

lemmas demo_defs =
  sys_init_def pool_new_def counting_semaphore_def demo_options_def counting_acquire_def

lemma served_once_reachable: "reachable counting_semaphore demo_options served_once"
proof -
  let ?step = "pool_step counting_semaphore demo_options"
  define s0 where "s0 = (sys_init counting_semaphore demo_options :: (nat, nat \<times> bool) sys)"
  define s1 where "s1 = s0\<lparr>pl := (pl s0)\<lparr>semaphore := (0, False)\<rparr>, holders := 1\<rparr>"
  define s2 where "s2 = s1\<lparr>holders := 0, claimed := {#7#}, created := {#7#}\<rparr>"
  define s3 where "s3 = s2\<lparr>claimed := {#}, dying := {#7#}\<rparr>"
  have "?step s0 s1"
    using pool_step.claim_taken [of counting_semaphore demo_options s0 "pl s1"]
    by (simp add: s0_def s1_def acquire_slot_begin_def demo_defs)
  moreover have "?step s1 s2"
    using pool_step.launch_ok [of s1 counting_semaphore 7 7 "pl s1" demo_options]
    by (simp add: s0_def s1_def s2_def hand_out_def demo_defs)
  moreover have "?step s2 s3"
    using pool_step.destroy_begin [of 7 s2 counting_semaphore demo_options]
    by (simp add: s0_def s1_def s2_def s3_def demo_defs)
  moreover have "?step s3 served_once"
    using pool_step.destroy_end [of 7 s3 counting_semaphore demo_options]
    by (simp add: s0_def s1_def s2_def s3_def served_once_def destroy_session_end_def notify_one_def
        demo_defs)
  ultimately have "?step\<^sup>*\<^sup>* s0 served_once" by (meson converse_rtranclp_into_rtranclp rtranclp.rtrancl_refl)
  then show ?thesis by (simp add: reachable_def s0_def)
qed

theorem browser_never_reused_witness:
  "(7::nat) \<in># destroyed served_once \<and> 7 \<notin># claimed served_once"
  using browser_never_reused [OF counting_semaphore_ok served_once_reachable, of 7]
  by (simp add: served_once_def sys_init_def)



text \<open>
  The replenisher never parks more than \<open>min_ready\<close> browsers, counting the one it is
  launching. As a consequence the idle rule of the cull pass, which only removes browsers beyond
  \<open>min_ready\<close>, never removes anything: the pass has the same effect under every idle limit.
\<close>

theorem warm_idle_has_no_effect:
  assumes "semaphore_ok api" "reachable api opts s"
  shows "length (warm (pl s)) + launching (pl s) \<le> min_ready opts \<and>
         cull_warm opts now alive (pl s) = cull_warm (opts\<lparr>warm_idle := n\<rparr>) now alive (pl s)"
  using reachable_invs(3) [OF assms]
    cull_no_excess [of "[]" "warm (pl s)" opts now alive "[]" n]
  by (simp add: warm_inv_def cull_warm_def)

theorem warm_idle_has_no_effect_witness:
  "cull_warm demo_options 9 (\<lambda>_. True) (pl served_once)
     = cull_warm (demo_options\<lparr>warm_idle := 0\<rparr>) 9 (\<lambda>_. True) (pl served_once)"
  using warm_idle_has_no_effect [OF counting_semaphore_ok served_once_reachable] by blast

text \<open>
  A claim that is dropped while its browser launches never gives its slot back. From
  then on, in every later state, at most one less than the ceiling can be in use, and the ceiling
  itself can no longer change.
\<close>

theorem dropped_launch_loses_slot:
  assumes "semaphore_ok api" "reachable api opts s" "0 < holders s"
    and "(pool_step api opts)\<^sup>*\<^sup>* (s\<lparr>holders := holders s - 1, leaked := leaked s + 1\<rparr>) t"
  shows "pool_step api opts s (s\<lparr>holders := holders s - 1, leaked := leaked s + 1\<rparr>) \<and>
         max_sessions (pl t) = max_sessions (pl s) \<and>
         available_permits api (semaphore (pl t)) + holders t + size (claimed t) + size (dying t)
           < max_sessions (pl t)"
proof -
  let ?s = "s\<lparr>holders := holders s - 1, leaked := leaked s + 1\<rparr>"
  have drop: "pool_step api opts s ?s"
    using assms(3) by (rule pool_step.launch_dropped)
  then have "reachable api opts t"
    using reachable_run assms(2,4) by (metis converse_rtranclp_into_rtranclp)
  then have "slot_inv api t"
    using reachable_invs(1) [OF assms(1)] by blast
  then show ?thesis
    using drop run_leaked [OF assms(4)] by (simp add: slot_inv_def)
qed

definition launching_once :: "(nat, nat \<times> bool) sys" where
  "launching_once = (sys_init counting_semaphore demo_options)
     \<lparr>pl := (pool_new counting_semaphore demo_options)\<lparr>semaphore := (0, False)\<rparr>, holders := 1\<rparr>"

lemma launching_once_reachable: "reachable counting_semaphore demo_options launching_once"
proof -
  have "pool_step counting_semaphore demo_options (sys_init counting_semaphore demo_options) launching_once"
    using pool_step.claim_taken [of counting_semaphore demo_options
        "sys_init counting_semaphore demo_options" "pl launching_once"]
    by (simp add: launching_once_def acquire_slot_begin_def demo_defs)
  then show ?thesis by (simp add: reachable_def)
qed

theorem dropped_launch_loses_slot_witness:
  "pool_step counting_semaphore demo_options launching_once
     (launching_once\<lparr>holders := 0, leaked := 1\<rparr>)"
  using dropped_launch_loses_slot [OF counting_semaphore_ok launching_once_reachable,
      of "launching_once\<lparr>holders := 0, leaked := 1\<rparr>"]
  by (simp add: launching_once_def sys_init_def)

lemma closed_claim_refused:
  assumes "semaphore_ok api" "is_closed api (semaphore p)"
  shows "claim api opts w alive launched p = (Some (Inl Closed), [], p)"
  using assms(1)
  by (rule try_acquire_cases [where q = "semaphore p"])
     (use assms(2) in \<open>simp_all add: claim_def acquire_slot_def acquire_slot_begin_def\<close>)

definition stranded :: "(nat, nat \<times> bool) sys" where
  "stranded = (sys_init counting_semaphore demo_options)
     \<lparr>pl := (pool_new counting_semaphore demo_options)
        \<lparr>semaphore := (1, True), warm := [\<lparr>session = 7, ready_at = 0\<rparr>], replenish := True\<rparr>,
      rep := RepDone, created := {#7#}\<rparr>"

lemma stranded_reachable: "reachable counting_semaphore demo_options stranded"
proof -
  let ?step = "pool_step counting_semaphore demo_options"
  define s0 where "s0 = (sys_init counting_semaphore demo_options :: (nat, nat \<times> bool) sys)"
  define s1 where "s1 = s0\<lparr>pl := launch_begin (pl s0), rep := RepLaunching\<rparr>"
  define s2 where "s2 = s0\<lparr>rep := RepChecked 7, created := {#7#}\<rparr>"
  define s3 where "s3 = s2\<lparr>pl := (pl s2)\<lparr>semaphore := (1, True), replenish := True\<rparr>\<rparr>"
  define s4 where "s4 = s3\<lparr>pl := push_warm 7 0 (pl s3), rep := RepIdle\<rparr>"
  have "?step s0 s1"
    using pool_step.rep_launch [of s0 counting_semaphore demo_options]
    by (simp add: s0_def s1_def wanted_def demo_defs)
  moreover have "?step s1 s2"
    using pool_step.rep_checked [of s1 counting_semaphore demo_options 7]
    by (simp add: s0_def s1_def s2_def launch_begin_def launch_end_def demo_defs)
  moreover have "?step s2 s3"
    using pool_step.close_pool [of counting_semaphore s2 "[]" "pl s3" demo_options]
    by (simp add: s0_def s2_def s3_def pool_close_def notify_one_def demo_defs)
  moreover have "?step s3 s4"
    using pool_step.rep_push [of s3 7 counting_semaphore demo_options 0]
    by (simp add: s2_def s3_def s4_def)
  moreover have "?step s4 stranded"
    using pool_step.rep_stop [of s4 counting_semaphore demo_options]
    by (simp add: s0_def s2_def s3_def s4_def stranded_def push_warm_def demo_defs)
  ultimately have "?step\<^sup>*\<^sup>* s0 stranded"
    by (meson converse_rtranclp_into_rtranclp rtranclp.rtrancl_refl)
  then show ?thesis by (simp add: reachable_def s0_def)
qed

text \<open>
  Closing drains the warm stock and refuses every later claim, but it races with the
  replenisher: a launch whose closed-check came before the close is pushed afterwards, and then a
  closed pool holds a warm browser that nothing drains again.
\<close>

theorem close_drains_but_races:
  "(\<forall>api (p :: (nat, nat \<times> bool) pool). fst (pool_close api p) = map session (warm p) \<and>
      warm (snd (pool_close api p)) = []) \<and>
   reachable counting_semaphore demo_options stranded \<and>
   is_closed counting_semaphore (semaphore (pl stranded)) \<and> warm (pl stranded) \<noteq> [] \<and>
   rep stranded = RepDone \<and>
   fst (claim counting_semaphore demo_options Dropped (\<lambda>_. True) (Inl []) (pl stranded))
     = Some (Inl Closed)"
proof -
  have c: "is_closed counting_semaphore (semaphore (pl stranded))"
    by (simp add: stranded_def counting_semaphore_def)
  show ?thesis
    using stranded_reachable c closed_claim_refused [OF counting_semaphore_ok c]
    by (simp add: pool_close_def notify_one_def) (simp add: stranded_def)
qed

end
