(* ===== verification/Rust_Str.thy ===== *)
theory Rust_Str
  imports Prelude
begin

text \<open>
  The parts of Rust's standard string library the server uses, on strings as lists of UTF-8
  bytes: ASCII case folding, prefix and suffix removal, splitting, substring search, trimming of
  Unicode white space, decimal printing, integer parsing (which accepts one leading plus sign),
  the UTF-8 validity check of \<^verbatim>\<open>String::from_utf8\<close> and the control-character test of
  \<^verbatim>\<open>char::is_control\<close>.
\<close>

section \<open>ASCII\<close>

definition ascii_lower :: "char \<Rightarrow> char" where
  "ascii_lower c = (let n = of_char c :: nat in if 65 \<le> n \<and> n \<le> 90 then char_of (n + 32) else c)"

definition to_ascii_lowercase :: "string \<Rightarrow> string" where
  "to_ascii_lowercase = map ascii_lower"

definition eq_ignore_ascii_case :: "string \<Rightarrow> string \<Rightarrow> bool" where
  "eq_ignore_ascii_case a b \<longleftrightarrow> to_ascii_lowercase a = to_ascii_lowercase b"

definition is_ascii_digit :: "char \<Rightarrow> bool" where
  "is_ascii_digit c \<longleftrightarrow> (let n = of_char c :: nat in 48 \<le> n \<and> n \<le> 57)"

definition is_ascii_alphanumeric :: "char \<Rightarrow> bool" where
  "is_ascii_alphanumeric c \<longleftrightarrow>
     (let n = of_char c :: nat in 48 \<le> n \<and> n \<le> 57 \<or> 65 \<le> n \<and> n \<le> 90 \<or> 97 \<le> n \<and> n \<le> 122)"

lemma ascii_lower_idem [simp]: "ascii_lower (ascii_lower c) = ascii_lower c"
  by (auto simp: ascii_lower_def Let_def)

lemma to_ascii_lowercase_simps [simp]:
  "to_ascii_lowercase [] = []"
  "to_ascii_lowercase (c # s) = ascii_lower c # to_ascii_lowercase s"
  "to_ascii_lowercase (s @ t) = to_ascii_lowercase s @ to_ascii_lowercase t"
  "length (to_ascii_lowercase s) = length s"
  by (simp_all add: to_ascii_lowercase_def)

lemma to_ascii_lowercase_idem [simp]:
  "to_ascii_lowercase (to_ascii_lowercase s) = to_ascii_lowercase s"
  by (simp add: to_ascii_lowercase_def)

lemma eq_ignore_ascii_case_refl [simp]: "eq_ignore_ascii_case s s"
  by (simp add: eq_ignore_ascii_case_def)

section \<open>Prefixes, suffixes, splitting\<close>

definition starts_with :: "string \<Rightarrow> string \<Rightarrow> bool" where
  "starts_with s p \<longleftrightarrow> take (length p) s = p"

definition strip_prefix :: "string \<Rightarrow> string \<Rightarrow> string option" where
  "strip_prefix s p = (if starts_with s p then Some (drop (length p) s) else None)"

definition strip_suffix :: "string \<Rightarrow> string \<Rightarrow> string option" where
  "strip_suffix s p = map_option rev (strip_prefix (rev s) (rev p))"

fun split_once :: "string \<Rightarrow> char \<Rightarrow> (string \<times> string) option" where
  "split_once [] c = None"
| "split_once (x # xs) c =
     (if x = c then Some ([], xs) else map_option (\<lambda>(a, b). (x # a, b)) (split_once xs c))"

definition rsplit_once :: "string \<Rightarrow> char \<Rightarrow> (string \<times> string) option" where
  "rsplit_once s c = map_option (\<lambda>(a, b). (rev b, rev a)) (split_once (rev s) c)"

text \<open>Splitting at the first occurrence of a string, as \<^verbatim>\<open>str::split_once\<close> with a string pattern.\<close>

fun split_once_str :: "string \<Rightarrow> string \<Rightarrow> (string \<times> string) option" where
  "split_once_str [] p = (if p = [] then Some ([], []) else None)"
| "split_once_str (x # xs) p =
     (if starts_with (x # xs) p then Some ([], drop (length p) (x # xs))
      else map_option (\<lambda>(a, b). (x # a, b)) (split_once_str xs p))"

definition str_contains :: "string \<Rightarrow> string \<Rightarrow> bool" where
  "str_contains s p \<longleftrightarrow> split_once_str s p \<noteq> None"

fun split_on :: "string \<Rightarrow> char \<Rightarrow> string list" where
  "split_on [] c = [[]]"
| "split_on (x # xs) c =
     (if x = c then [] # split_on xs c
      else case split_on xs c of [] \<Rightarrow> [[x]] | y # ys \<Rightarrow> (x # y) # ys)"

fun str_join :: "string \<Rightarrow> string list \<Rightarrow> string" where
  "str_join sep [] = []"
| "str_join sep [x] = x"
| "str_join sep (x # y # ys) = x @ sep @ str_join sep (y # ys)"

lemma starts_with_iff: "starts_with s p \<longleftrightarrow> (\<exists>t. s = p @ t)"
  by (metis append_eq_conv_conj append_take_drop_id starts_with_def)

lemma starts_with_append [simp]: "starts_with (p @ t) p"
  by (simp add: starts_with_def)

lemma strip_prefix_Some [simp]: "strip_prefix s p = Some t \<longleftrightarrow> s = p @ t"
  by (auto simp: strip_prefix_def starts_with_iff)

lemma strip_prefix_None [simp]: "strip_prefix s p = None \<longleftrightarrow> \<not> starts_with s p"
  by (simp add: strip_prefix_def)

lemma strip_suffix_Some [simp]: "strip_suffix s p = Some t \<longleftrightarrow> s = t @ p"
proof
  assume "strip_suffix s p = Some t"
  then have "rev s = rev p @ rev t"
    by (auto simp: strip_suffix_def)
  then show "s = t @ p"
    by (metis rev_append rev_rev_ident)
qed (simp add: strip_suffix_def)

lemma split_once_Some:
  "split_once s c = Some (a, b) \<longleftrightarrow> s = a @ c # b \<and> c \<notin> set a"
proof (induction s arbitrary: a)
  case (Cons x xs)
  show ?case
  proof (cases a)
    case Nil
    then show ?thesis by (auto split: if_splits)
  next
    case (Cons y ys)
    then show ?thesis using Cons.IH [of ys] by (auto split: if_splits)
  qed
qed simp

lemma split_once_None [simp]: "split_once s c = None \<longleftrightarrow> c \<notin> set s"
  by (induction s) auto

lemma rsplit_once_Some:
  "rsplit_once s c = Some (a, b) \<longleftrightarrow> s = a @ c # b \<and> c \<notin> set b"
proof -
  have "rsplit_once s c = Some (a, b) \<longleftrightarrow> split_once (rev s) c = Some (rev b, rev a)"
    by (auto simp: rsplit_once_def)
  also have "\<dots> \<longleftrightarrow> rev s = rev b @ c # rev a \<and> c \<notin> set b"
    by (simp add: split_once_Some)
  also have "\<dots> \<longleftrightarrow> s = a @ c # b \<and> c \<notin> set b"
    by (metis append.assoc append_Cons append_Nil rev.simps(2) rev_append rev_rev_ident)
  finally show ?thesis .
qed

lemma rsplit_once_None [simp]: "rsplit_once s c = None \<longleftrightarrow> c \<notin> set s"
  by (simp add: rsplit_once_def)

lemma split_once_str_Some:
  "split_once_str s p = Some (a, b) \<Longrightarrow> s = a @ p @ b"
proof (induction s arbitrary: a)
  case (Cons x xs)
  then show ?case
    by (auto simp: starts_with_iff split: if_splits)
qed (auto split: if_splits)

lemma str_contains_iff: "str_contains s p \<longleftrightarrow> (\<exists>a b. s = a @ p @ b)"
proof
  assume "str_contains s p"
  then show "\<exists>a b. s = a @ p @ b"
    by (auto simp: str_contains_def dest: split_once_str_Some)
next
  assume "\<exists>a b. s = a @ p @ b"
  then obtain a b where "s = a @ p @ b" by blast
  then show "str_contains s p"
  proof (induction a arbitrary: s)
    case Nil
    then have "starts_with s p" by simp
    then show ?case
      by (cases s) (auto simp: str_contains_def, simp add: starts_with_def)
  next
    case (Cons x xs)
    then have "str_contains (xs @ p @ b) p" by blast
    with Cons.prems show ?case
      by (auto simp: str_contains_def)
  qed
qed

lemma split_on_ne [simp]: "split_on s c \<noteq> []"
  by (induction s) (auto split: list.splits)

lemma split_on_no_sep: "p \<in> set (split_on s c) \<Longrightarrow> c \<notin> set p"
  by (induction s arbitrary: p) (auto split: if_splits list.splits)

lemma split_on_id: "c \<notin> set s \<Longrightarrow> split_on s c = [s]"
  by (induction s) auto

lemma split_on_append: "c \<notin> set a \<Longrightarrow> split_on (a @ c # b) c = a # split_on b c"
  by (induction a) auto

lemma split_on_join:
  assumes "ps \<noteq> []" "\<forall>p\<in>set ps. c \<notin> set p"
  shows "split_on (str_join [c] ps) c = ps"
  using assms
  by (induction "[c]" ps rule: str_join.induct) (auto simp: split_on_id split_on_append)

section \<open>White space and trimming\<close>

text \<open>The UTF-8 encodings of the characters with the Unicode property White\_Space.\<close>

definition white_space :: "string list" where
  "white_space =
     [[CHR 0x09], [CHR 0x0A], [CHR 0x0B], [CHR 0x0C], [CHR 0x0D], [CHR 0x20],
      [CHR 0xC2, CHR 0x85], [CHR 0xC2, CHR 0xA0], [CHR 0xE1, CHR 0x9A, CHR 0x80],
      [CHR 0xE2, CHR 0x80, CHR 0x80], [CHR 0xE2, CHR 0x80, CHR 0x81],
      [CHR 0xE2, CHR 0x80, CHR 0x82], [CHR 0xE2, CHR 0x80, CHR 0x83],
      [CHR 0xE2, CHR 0x80, CHR 0x84], [CHR 0xE2, CHR 0x80, CHR 0x85],
      [CHR 0xE2, CHR 0x80, CHR 0x86], [CHR 0xE2, CHR 0x80, CHR 0x87],
      [CHR 0xE2, CHR 0x80, CHR 0x88], [CHR 0xE2, CHR 0x80, CHR 0x89],
      [CHR 0xE2, CHR 0x80, CHR 0x8A], [CHR 0xE2, CHR 0x80, CHR 0xA8],
      [CHR 0xE2, CHR 0x80, CHR 0xA9], [CHR 0xE2, CHR 0x80, CHR 0xAF],
      [CHR 0xE2, CHR 0x81, CHR 0x9F], [CHR 0xE3, CHR 0x80, CHR 0x80]]"

text \<open>The number of bytes the white space character at the head of a string takes, 0 if none.\<close>

definition ws_len :: "string list \<Rightarrow> string \<Rightarrow> nat" where
  "ws_len ws s = (case find (\<lambda>w. starts_with s w) ws of None \<Rightarrow> 0 | Some w \<Rightarrow> length w)"

lemma ws_len_pos: "0 < ws_len ws s \<Longrightarrow> s \<noteq> []"
  by (auto simp: ws_len_def starts_with_def find_Some_iff split: option.splits)

function trim_start_by :: "string list \<Rightarrow> string \<Rightarrow> string" where
  "trim_start_by ws s = (if ws_len ws s = 0 then s else trim_start_by ws (drop (ws_len ws s) s))"
  by pat_completeness auto
termination
proof (relation "measure (\<lambda>(ws, s). length s)", goal_cases)
  case (2 ws s)
  then have "0 < ws_len ws s" by simp
  moreover from this have "s \<noteq> []" by (rule ws_len_pos)
  ultimately show ?case by simp
qed simp

declare trim_start_by.simps [simp del]

definition trim_start :: "string \<Rightarrow> string" where
  "trim_start = trim_start_by white_space"

definition trim_end :: "string \<Rightarrow> string" where
  "trim_end s = rev (trim_start_by (map rev white_space) (rev s))"

definition trim :: "string \<Rightarrow> string" where
  "trim s = trim_end (trim_start s)"

text \<open>The maximal runs of characters that are not white space (\<^verbatim>\<open>str::split_whitespace\<close>).\<close>

function split_ws_from :: "string \<Rightarrow> string \<Rightarrow> string list" where
  "split_ws_from acc s =
     (if s = [] then (if acc = [] then [] else [acc])
      else if ws_len white_space s = 0 then split_ws_from (acc @ [hd s]) (tl s)
      else (if acc = [] then [] else [acc]) @ split_ws_from [] (drop (ws_len white_space s) s))"
  by pat_completeness auto
termination
  by (relation "measure (\<lambda>(acc, s). length s)") auto

declare split_ws_from.simps [simp del]

definition split_whitespace :: "string \<Rightarrow> string list" where
  "split_whitespace = split_ws_from []"

text \<open>Lines: the terminator is a line feed, with a carriage return before it removed.\<close>

definition strip_cr :: "string \<Rightarrow> string" where
  "strip_cr l = (case strip_suffix l [CHR 0x0D] of None \<Rightarrow> l | Some l' \<Rightarrow> l')"

definition str_lines :: "string \<Rightarrow> string list" where
  "str_lines s =
     (let ps = split_on s (CHR 0x0A)
      in map strip_cr (butlast ps) @ (if last ps = [] then [] else [last ps]))"

text \<open>A string between two alphanumeric characters has nothing to trim.\<close>

lemma ws_len_alnum:
  assumes "is_ascii_alphanumeric c" "list_all (\<lambda>w. w \<noteq> [] \<and> \<not> is_ascii_alphanumeric (hd w)) ws"
  shows "ws_len ws (c # s) = 0"
proof -
  have "\<not> starts_with (c # s) w" if "w \<in> set ws" for w
  proof
    assume "starts_with (c # s) w"
    moreover from that assms(2) have "w \<noteq> []" "\<not> is_ascii_alphanumeric (hd w)"
      by (simp_all add: list_all_iff)
    ultimately show False using assms(1) by (cases w) (simp_all add: starts_with_def)
  qed
  then have "find (\<lambda>w. starts_with (c # s) w) ws = None" by (simp add: find_None_iff)
  then show ?thesis by (simp add: ws_len_def)
qed

lemma trim_alnum:
  assumes "is_ascii_alphanumeric (hd s)" "is_ascii_alphanumeric (last s)" "s \<noteq> []"
  shows "trim s = s"
proof -
  have ws: "list_all (\<lambda>w. w \<noteq> [] \<and> \<not> is_ascii_alphanumeric (hd w)) white_space"
    "list_all (\<lambda>w. w \<noteq> [] \<and> \<not> is_ascii_alphanumeric (hd w)) (map rev white_space)"
    by code_simp+
  obtain c t where s: "s = c # t" using assms(3) by (cases s) auto
  obtain d u where r: "rev s = d # u" using assms(3) by (cases "rev s") auto
  then have d: "d = last s" using hd_rev [of s] by simp
  have "ws_len white_space s = 0"
    using ws_len_alnum [OF _ ws(1), of c t] assms(1) s by simp
  then have "trim_start s = s"
    unfolding trim_start_def by (subst trim_start_by.simps) simp
  have "ws_len (map rev white_space) (rev s) = 0"
    using ws_len_alnum [OF _ ws(2), of d u] assms(2) unfolding r d by blast
  then have "trim_end s = s"
    unfolding trim_end_def by (subst trim_start_by.simps) simp
  with \<open>trim_start s = s\<close> show ?thesis by (simp add: trim_def)
qed

lemma ws_len_Nil [simp]: "ws_len white_space [] = 0"
  by (simp add: ws_len_def white_space_def starts_with_def)

section \<open>Numbers\<close>

fun digits_value :: "nat \<Rightarrow> string \<Rightarrow> nat" where
  "digits_value acc [] = acc"
| "digits_value acc (c # cs) = digits_value (10 * acc + (of_char c - 48)) cs"

text \<open>
  \<^verbatim>\<open>str::parse\<close> for an unsigned type whose largest value is \<open>mx\<close>: an optional plus sign, at
  least one decimal digit, nothing else, no overflow.
\<close>

definition parse_uint :: "nat \<Rightarrow> string \<Rightarrow> nat option" where
  "parse_uint mx s =
     (let d = (if starts_with s ''+'' then tl s else s)
      in if d \<noteq> [] \<and> list_all is_ascii_digit d \<and> digits_value 0 d \<le> mx
         then Some (digits_value 0 d) else None)"

definition u16_max :: nat where "u16_max = 65535"
definition u32_max :: nat where "u32_max = 4294967295"
definition u64_max :: nat where "u64_max = 18446744073709551615"

fun show_nat :: "nat \<Rightarrow> string" where
  "show_nat n = (if n < 10 then [char_of (48 + n)]
                 else show_nat (n div 10) @ [char_of (48 + n mod 10)])"

declare show_nat.simps [simp del]

lemma parse_uint_le: "parse_uint mx s = Some n \<Longrightarrow> n \<le> mx"
  by (auto simp: parse_uint_def Let_def split: if_splits)

lemma digits_value_append [simp]:
  "digits_value acc (s @ [c]) = 10 * digits_value acc s + (of_char c - 48)"
  by (induction s arbitrary: acc) auto

lemma of_char_digit [simp]: "d < 10 \<Longrightarrow> of_char (char_of (48 + d) :: char) = (48 + d :: nat)"
  by (simp add: of_char_mod_256)

lemma digits_value_show_nat [simp]: "digits_value 0 (show_nat n) = n"
proof (induction n rule: show_nat.induct)
  case (1 n)
  then show ?case
    by (cases "n < 10") (auto simp: show_nat.simps [of n])
qed

lemma show_nat_digits: "list_all is_ascii_digit (show_nat n)"
proof (induction n rule: show_nat.induct)
  case (1 n)
  then show ?case
    by (cases "n < 10") (auto simp: show_nat.simps [of n] is_ascii_digit_def Let_def)
qed

lemma show_nat_last: "is_ascii_alphanumeric (last (show_nat n))"
  by (subst show_nat.simps) (auto simp: is_ascii_alphanumeric_def Let_def)

lemma show_nat_ne [simp]: "show_nat n \<noteq> []"
  by (subst show_nat.simps) simp

lemma show_nat_no_plus: "\<not> starts_with (show_nat n) ''+''"
proof -
  obtain c cs where c: "show_nat n = c # cs" by (cases "show_nat n") simp_all
  then have "is_ascii_digit c" using show_nat_digits [of n] by simp
  with c show ?thesis by (auto simp: starts_with_def is_ascii_digit_def Let_def)
qed

lemma parse_show_nat [simp]: "n \<le> mx \<Longrightarrow> parse_uint mx (show_nat n) = Some n"
  by (simp add: parse_uint_def show_nat_no_plus show_nat_digits)

section \<open>UTF-8\<close>

definition utf8_cont :: "nat \<Rightarrow> bool" where
  "utf8_cont b \<longleftrightarrow> 128 \<le> b \<and> b \<le> 191"

fun utf8_valid_codes :: "nat list \<Rightarrow> bool" where
  "utf8_valid_codes [] = True"
| "utf8_valid_codes (a # xs) =
     (if a < 128 then utf8_valid_codes xs
      else if 194 \<le> a \<and> a \<le> 223 then
        (case xs of b # ys \<Rightarrow> utf8_cont b \<and> utf8_valid_codes ys | _ \<Rightarrow> False)
      else if 224 \<le> a \<and> a \<le> 239 then
        (case xs of b # c # ys \<Rightarrow>
           (if a = 224 then 160 else 128) \<le> b \<and> b \<le> (if a = 237 then 159 else 191) \<and>
           utf8_cont c \<and> utf8_valid_codes ys
         | _ \<Rightarrow> False)
      else if 240 \<le> a \<and> a \<le> 244 then
        (case xs of b # c # d # ys \<Rightarrow>
           (if a = 240 then 144 else 128) \<le> b \<and> b \<le> (if a = 244 then 143 else 191) \<and>
           utf8_cont c \<and> utf8_cont d \<and> utf8_valid_codes ys
         | _ \<Rightarrow> False)
      else False)"

definition utf8_valid :: "string \<Rightarrow> bool" where
  "utf8_valid s = utf8_valid_codes (map of_char s)"

text \<open>The encoding of one Unicode scalar value.\<close>

definition utf8_encode :: "nat \<Rightarrow> string" where
  "utf8_encode cp =
     map char_of
      (if cp < 128 then [cp]
       else if cp < 2048 then [192 + cp div 64, 128 + cp mod 64]
       else if cp < 65536 then [224 + cp div 4096, 128 + cp div 64 mod 64, 128 + cp mod 64]
       else [240 + cp div 262144, 128 + cp div 4096 mod 64, 128 + cp div 64 mod 64,
             128 + cp mod 64])"

text \<open>
  A string holds a control character: C0 and DEL are single bytes, the C1 block is a byte C2
  followed by a byte 80 to 9F.
\<close>

fun has_control :: "string \<Rightarrow> bool" where
  "has_control [] = False"
| "has_control (c # cs) =
     (let n = of_char c :: nat
      in n < 32 \<or> n = 127 \<or>
         (n = 194 \<and> (case cs of [] \<Rightarrow> False | d # _ \<Rightarrow> (let m = of_char d :: nat in 128 \<le> m \<and> m \<le> 159))) \<or>
         has_control cs)"

lemma utf8_ascii: "\<forall>c\<in>set s. (of_char c :: nat) < 128 \<Longrightarrow> utf8_valid s"
  by (induction s) (auto simp: utf8_valid_def)

end
