(* ===== verification/Flags.thy ===== *)
theory Flags
  imports Rust_Str
begin

text \<open>
  \<^verbatim>\<open>src/chrome/flags.rs\<close>: the command line of a browser. Chromium honours only the last occurrence
  of a switch, so the feature lists of the operator are merged with the built-in ones, and what a
  session needs is appended after what the operator set; \<open>effective\<close> is that last occurrence.
\<close>

section \<open>Definitions\<close>

definition default_flags :: "string list" where
  "default_flags =
     [''--headless'',
      ''--allow-pre-commit-input'',
      ''--disable-background-networking'',
      ''--disable-background-timer-throttling'',
      ''--disable-backgrounding-occluded-windows'',
      ''--disable-renderer-backgrounding'',
      ''--disable-breakpad'',
      ''--disable-crash-reporter'',
      ''--disable-client-side-phishing-detection'',
      ''--disable-component-extensions-with-background-pages'',
      ''--disable-component-update'',
      ''--disable-default-apps'',
      ''--disable-extensions'',
      ''--disable-hang-monitor'',
      ''--disable-ipc-flooding-protection'',
      ''--disable-popup-blocking'',
      ''--disable-prompt-on-repost'',
      ''--disable-session-crashed-bubble'',
      ''--hide-crash-restore-bubble'',
      ''--disable-sync'',
      ''--disable-features=Translate,MediaRouter,DialMediaRouteProvider,OptimizationHints,AcceptCHFrame,DestroyProfileOnBrowserClose'',
      ''--export-tagged-pdf'',
      ''--force-color-profile=srgb'',
      ''--metrics-recording-only'',
      ''--mute-audio'',
      ''--no-default-browser-check'',
      ''--no-first-run'',
      ''--password-store=basic'',
      ''--use-mock-keychain'',
      ''--window-size=1280,720'']"

definition shm_min_mb :: nat where "shm_min_mb = 512"

text \<open>The available bytes of /dev/shm, \<open>None\<close> when it cannot be inspected.\<close>

definition small_dev_shm :: "(u64 \<times> u64) option \<Rightarrow> bool" where
  "small_dev_shm stat =
     (case stat of
        None \<Rightarrow> False
      | Some (blocks_available, fragment_size) \<Rightarrow>
          blocks_available * fragment_size < of_nat (shm_min_mb * 1024 * 1024))"

definition stealth_screen :: string where
  "stealth_screen = ''--screen-info={1920x1080}''"

definition stock_user_agent :: "nat \<Rightarrow> string" where
  "stock_user_agent major =
     ''Mozilla/5.0 (X11; Linux x86_64) AppleWebKit/537.36 (KHTML, like Gecko) Chrome/'' @
     show_nat major @ ''.0.0.0 Safari/537.36''"

definition user_sets :: "string list \<Rightarrow> string \<Rightarrow> bool" where
  "user_sets extra prefix = list_ex (\<lambda>f. starts_with f prefix) extra"

definition stealth_flags :: "nat option \<Rightarrow> string list \<Rightarrow> string list" where
  "stealth_flags major extra =
     [''--disable-blink-features=AutomationControlled''] @
     (case major of
        Some m \<Rightarrow>
          (if user_sets extra ''--user-agent='' then [] else [''--user-agent='' @ stock_user_agent m])
      | None \<Rightarrow> []) @
     (if user_sets extra ''--screen-info='' then [] else [stealth_screen])"

definition launch_extra_flags :: "bool \<Rightarrow> nat option \<Rightarrow> string list \<Rightarrow> string list" where
  "launch_extra_flags stealth major extra =
     (if stealth then stealth_flags major extra @ extra else extra)"

definition sets_proxy :: "string list \<Rightarrow> bool" where
  "sets_proxy extra =
     list_ex (\<lambda>f. hd (split_on f (CHR ''='')) \<in>
                    set [''--proxy-server'', ''--proxy-pac-url'', ''--proxy-auto-detect'']) extra"

definition session_proxy_flags :: "string \<Rightarrow> string list" where
  "session_proxy_flags proxy_server =
     [''--proxy-server='' @ proxy_server,
      ''--proxy-bypass-list=<-loopback>'',
      ''--force-webrtc-ip-handling-policy=disable_non_proxied_udp'']"

record flag_options =
  user_data_dir :: string
  no_sandbox :: bool
  disable_dev_shm :: bool
  extra :: "string list"

definition mergeable_feature_switches :: "string list" where
  "mergeable_feature_switches =
     [''--disable-features='', ''--enable-features='', ''--disable-blink-features='']"

definition is_mergeable :: "string \<Rightarrow> bool" where
  "is_mergeable f = list_ex (\<lambda>p. starts_with f p) mergeable_feature_switches"

text \<open>Appending the parts that are not there yet.\<close>

definition add_values :: "string list \<Rightarrow> string list \<Rightarrow> string list" where
  "add_values values parts =
     foldl (\<lambda>vs part. if part \<in> set vs then vs else vs @ [part]) values parts"

definition switch_values :: "string \<Rightarrow> string list \<Rightarrow> string list" where
  "switch_values prefix extra0 =
     (let defaults = (case find (\<lambda>f. starts_with f prefix) default_flags of
                        None \<Rightarrow> []
                      | Some f \<Rightarrow> split_on (drop (length prefix) f) (CHR '',''))
      in foldl (\<lambda>vs flag. case strip_prefix flag prefix of
                             None \<Rightarrow> vs
                           | Some v \<Rightarrow> add_values vs (split_on v (CHR '','')))
           defaults extra0)"

definition merged_switch :: "string list \<Rightarrow> string \<Rightarrow> string list" where
  "merged_switch extra0 prefix =
     (let values = switch_values prefix extra0
      in if values = [] then [] else [prefix @ str_join '','' values])"

definition merge_feature_switches :: "string list \<Rightarrow> string list \<times> string list" where
  "merge_feature_switches extra0 =
     (concat (map (merged_switch extra0) mergeable_feature_switches),
      filter (\<lambda>f. \<not> is_mergeable f) extra0)"

definition build_flags :: "flag_options \<Rightarrow> string list" where
  "build_flags opts =
     (let (merged, remaining_extra) = merge_feature_switches (extra opts)
      in filter (\<lambda>f. \<not> is_mergeable f) default_flags @ merged @
         [''--remote-debugging-pipe'', ''--user-data-dir='' @ user_data_dir opts] @
         (if no_sandbox opts then [''--no-sandbox''] else []) @
         (if disable_dev_shm opts then [''--disable-dev-shm-usage''] else []) @
         remaining_extra @ [''about:blank''])"

section \<open>The effective value of a switch\<close>

definition occurrences :: "string \<Rightarrow> string list \<Rightarrow> string list" where
  "occurrences prefix args = filter (\<lambda>f. starts_with f prefix) args"

definition effective :: "string \<Rightarrow> string list \<Rightarrow> string option" where
  "effective prefix args =
     (let fs = occurrences prefix args in if fs = [] then None else Some (drop (length prefix) (last fs)))"

lemma add_values_set: "set (add_values vs parts) = set vs \<union> set parts"
proof (induction parts arbitrary: vs)
  case (Cons p parts)
  then show ?case by (auto simp: add_values_def)
qed (simp add: add_values_def)

lemma add_values_distinct: "distinct vs \<Longrightarrow> distinct (add_values vs parts)"
proof (induction parts arbitrary: vs)
  case (Cons p parts)
  then show ?case by (auto simp: add_values_def)
qed (simp add: add_values_def)

definition user_values :: "string \<Rightarrow> string list \<Rightarrow> string set" where
  "user_values prefix extra0 = {part. \<exists>v. prefix @ v \<in> set extra0 \<and> part \<in> set (split_on v (CHR '',''))}"

lemma switch_values_fold:
  "set (foldl (\<lambda>vs flag. case strip_prefix flag prefix of
                 None \<Rightarrow> vs | Some v \<Rightarrow> add_values vs (split_on v (CHR '',''))) vs extra0) =
   set vs \<union> user_values prefix extra0"
proof (induction extra0 arbitrary: vs)
  case (Cons f fs)
  show ?case
    using Cons by (auto simp: user_values_def add_values_set starts_with_iff split: option.splits)
qed (simp add: user_values_def)

lemma switch_values_distinct:
  assumes "distinct vs"
  shows "distinct (foldl (\<lambda>vs flag. case strip_prefix flag prefix of
                 None \<Rightarrow> vs | Some v \<Rightarrow> add_values vs (split_on v (CHR '',''))) vs extra0)"
  using assms
proof (induction extra0 arbitrary: vs)
  case (Cons f fs)
  then show ?case by (auto simp: add_values_distinct split: option.splits)
qed simp

section \<open>Feature switches\<close>

definition default_values :: "string \<Rightarrow> string set" where
  "default_values prefix =
     (case find (\<lambda>f. starts_with f prefix) default_flags of
        None \<Rightarrow> {} | Some f \<Rightarrow> set (split_on (drop (length prefix) f) (CHR '','')))"

lemma switch_values_set: "set (switch_values prefix extra0) = default_values prefix \<union> user_values prefix extra0"
  by (simp add: switch_values_def Let_def switch_values_fold default_values_def split: option.splits)

lemma switch_values_no_comma: "v \<in> set (switch_values prefix extra0) \<Longrightarrow> CHR '','' \<notin> set v"
  by (auto simp: switch_values_set default_values_def user_values_def dest: split_on_no_sep
      split: option.splits)

lemma merge_fst: "fst (merge_feature_switches extra0) = concat (map (merged_switch extra0) mergeable_feature_switches)"
  by (simp add: merge_feature_switches_def)

lemma occurrences_append [simp]: "occurrences p (xs @ ys) = occurrences p xs @ occurrences p ys"
  by (simp add: occurrences_def)

lemma occurrences_not_mergeable:
  "p \<in> set mergeable_feature_switches \<Longrightarrow> occurrences p (filter (\<lambda>f. \<not> is_mergeable f) xs) = []"
  by (auto simp: occurrences_def is_mergeable_def list_ex_iff filter_empty_conv)

lemma occurrences_merged:
  assumes "p \<in> set mergeable_feature_switches"
  shows "occurrences p (concat (map (merged_switch extra0) mergeable_feature_switches)) = merged_switch extra0 p"
  using assms
  by (auto simp: mergeable_feature_switches_def merged_switch_def Let_def occurrences_def starts_with_def)

lemma occurrences_fixed:
  assumes "p \<in> set mergeable_feature_switches"
  shows "occurrences p [''--remote-debugging-pipe'', ''--user-data-dir='' @ d] = []"
    and "occurrences p (if c then [''--no-sandbox''] else []) = []"
    and "occurrences p (if c then [''--disable-dev-shm-usage''] else []) = []"
    and "occurrences p [''about:blank''] = []"
  using assms by (auto simp: mergeable_feature_switches_def occurrences_def starts_with_def)

lemma build_flags_occurrences:
  assumes "p \<in> set mergeable_feature_switches"
  shows "occurrences p (build_flags opts) = merged_switch (extra opts) p"
  by (simp only: build_flags_def merge_feature_switches_def Let_def prod.case occurrences_append
      occurrences_not_mergeable [OF assms] occurrences_merged [OF assms] occurrences_fixed [OF assms]
      append_Nil append_Nil2)

lemma merged_switch_effective:
  assumes "occurrences p args = merged_switch extra0 p" "switch_values p extra0 \<noteq> []"
  shows "\<exists>v. effective p args = Some v \<and> split_on v (CHR '','') = switch_values p extra0"
proof -
  have "split_on (str_join [CHR '',''] (switch_values p extra0)) (CHR '','') = switch_values p extra0"
    using split_on_join [OF assms(2)] switch_values_no_comma by blast
  then show ?thesis
    using assms by (simp add: effective_def merged_switch_def Let_def)
qed

text \<open>
  No feature list silently overrides another. Each of the three list-valued feature
  switches occurs at most once on the command line, and the value Chromium honours consists of
  exactly the built-in entries and the operator's entries (and no switch is there when there are
  none of either).
\<close>

theorem feature_switches_merged:
  "list_all (\<lambda>p. length (occurrences p (build_flags opts)) \<le> 1 \<and>
      (if default_values p \<union> user_values p (extra opts) = {} then effective p (build_flags opts) = None
       else (\<exists>v. effective p (build_flags opts) = Some v \<and>
               set (split_on v (CHR '','')) = default_values p \<union> user_values p (extra opts))))
     mergeable_feature_switches"
  unfolding list_all_iff
proof
  fix p assume p: "p \<in> set mergeable_feature_switches"
  note occ = build_flags_occurrences [OF p, of opts]
  have len: "length (occurrences p (build_flags opts)) \<le> 1"
    by (simp add: occ merged_switch_def Let_def)
  show "length (occurrences p (build_flags opts)) \<le> 1 \<and>
      (if default_values p \<union> user_values p (extra opts) = {} then effective p (build_flags opts) = None
       else (\<exists>v. effective p (build_flags opts) = Some v \<and>
               set (split_on v (CHR '','')) = default_values p \<union> user_values p (extra opts)))"
  proof (cases "switch_values p (extra opts) = []")
    case True
    then have "default_values p \<union> user_values p (extra opts) = {}"
      using switch_values_set [of p "extra opts"] by simp
    then show ?thesis using len True occ by (simp add: effective_def merged_switch_def Let_def)
  next
    case False
    then have ne: "default_values p \<union> user_values p (extra opts) \<noteq> {}"
      using switch_values_set [of p "extra opts"] by (metis set_empty)
    from merged_switch_effective [OF occ False] show ?thesis
      using len ne switch_values_set [of p "extra opts"] by (auto simp del: Un_empty)
  qed
qed

section \<open>The session's proxy\<close>

lemma session_proxy_not_mergeable:
  "filter (\<lambda>f. \<not> is_mergeable f) (session_proxy_flags server) = session_proxy_flags server"
  by (simp add: session_proxy_flags_def is_mergeable_def mergeable_feature_switches_def starts_with_def)

lemma effective_last:
  "effective p (xs @ ys) = (if occurrences p ys = [] then effective p xs else effective p ys)"
  by (simp add: effective_def Let_def)

text \<open>
  A proxied session cannot leak around its proxy through operator flags. Whatever extra
  flags the operator configured, the proxy server, the bypass list and the WebRTC policy that
  Chromium honours are the session's: the relay, no bypass even for loopback, and no UDP outside
  the proxy.
\<close>

theorem session_proxy_wins:
  "effective ''--proxy-server='' (build_flags (opts\<lparr>extra := operator @ session_proxy_flags server\<rparr>)) = Some server \<and>
   effective ''--proxy-bypass-list='' (build_flags (opts\<lparr>extra := operator @ session_proxy_flags server\<rparr>))
     = Some ''<-loopback>'' \<and>
   effective ''--force-webrtc-ip-handling-policy='' (build_flags (opts\<lparr>extra := operator @ session_proxy_flags server\<rparr>))
     = Some ''disable_non_proxied_udp''"
proof -
  obtain front where "build_flags (opts\<lparr>extra := operator @ session_proxy_flags server\<rparr>) =
      (front @ session_proxy_flags server) @ [''about:blank'']"
    by (simp add: build_flags_def merge_feature_switches_def session_proxy_not_mergeable Let_def)
  then show ?thesis
    by (simp add: effective_last occurrences_def session_proxy_flags_def starts_with_def effective_def Let_def)
qed

section \<open>The sandbox switch\<close>

lemma merged_not_no_sandbox: "''--no-sandbox'' \<notin> set (fst (merge_feature_switches extra0))"
  by (auto simp: merge_fst merged_switch_def mergeable_feature_switches_def Let_def)

lemma no_sandbox_flag:
  "''--no-sandbox'' \<in> set (build_flags opts) \<longleftrightarrow> no_sandbox opts \<or> ''--no-sandbox'' \<in> set (extra opts)"
proof -
  have "''--no-sandbox'' \<notin> set default_flags" "\<not> is_mergeable ''--no-sandbox''"
    by (simp_all add: default_flags_def is_mergeable_def mergeable_feature_switches_def starts_with_def)
  then show ?thesis
    using merged_not_no_sandbox [of "extra opts"]
    by (auto simp: build_flags_def merge_feature_switches_def Let_def)
qed

end
