(* ===== verification/Cdp_Pipe.thy ===== *)
theory Cdp_Pipe
  imports Prelude
begin

text \<open>
  \<^verbatim>\<open>src/chrome/pipe.rs\<close>: the zero-terminated framing of the browser's command pipe. The operating
  system is the environment: a reader is given the list of results its reads will return (in which
  the bytes are cut at arbitrary places), a writer is given the write operation of its pipe. The
  byte search of the memchr crate is an argument with its documented behaviour \<open>memchr_ok\<close>.
\<close>

section \<open>Types\<close>

datatype io_error = BrokenPipe | OtherIo string

datatype pipe_error =
    PipeClosed
  | FrameTooLarge nat
  | BadJson string
  | Io io_error

datatype read_result = Data bytes | Eof | ReadError io_error

record cdp_reader =
  buf :: bytes
  max_frame :: nat

type_synonym memchr_fun = "u8 \<Rightarrow> bytes \<Rightarrow> nat option"

definition memchr_ok :: "memchr_fun \<Rightarrow> bool" where
  "memchr_ok memchr \<longleftrightarrow>
     (\<forall>b xs. memchr b xs =
        (if b \<in> set xs then Some (length (takeWhile (\<lambda>x. x \<noteq> b) xs)) else None))"

section \<open>Operations\<close>

definition map_closed :: "io_error \<Rightarrow> pipe_error" where
  "map_closed e = (if e = BrokenPipe then PipeClosed else Io e)"

definition take_frame ::
    "memchr_fun \<Rightarrow> bytes \<Rightarrow> nat \<Rightarrow> (pipe_error + bytes option) \<times> bytes" where
  "take_frame memchr b max_frame0 =
     (case memchr 0 b of
        Some pos \<Rightarrow>
          (if max_frame0 < pos then (Inl (FrameTooLarge max_frame0), b)
           else (Inr (Some (take pos b)), drop (pos + 1) b))
      | None \<Rightarrow>
          (if max_frame0 < length b then (Inl (FrameTooLarge max_frame0), b) else (Inr None, b)))"

text \<open>
  \<^verbatim>\<open>recv_raw\<close>: the frame or the error, what is left of the reads, and the reader; \<open>None\<close> when the
  reads run out and the call is still waiting, with everything read so far in the buffer.
\<close>

fun recv_raw ::
    "memchr_fun \<Rightarrow> read_result list \<Rightarrow> cdp_reader
     \<Rightarrow> (pipe_error + bytes) option \<times> read_result list \<times> cdp_reader" where
  "recv_raw memchr [] r =
     (case take_frame memchr (buf r) (max_frame r) of
        (Inl e, b) \<Rightarrow> (Some (Inl e), [], r\<lparr>buf := b\<rparr>)
      | (Inr (Some frame), b) \<Rightarrow> (Some (Inr frame), [], r\<lparr>buf := b\<rparr>)
      | (Inr None, b) \<Rightarrow> (None, [], r\<lparr>buf := b\<rparr>))"
| "recv_raw memchr (x # xs) r =
     (case take_frame memchr (buf r) (max_frame r) of
        (Inl e, b) \<Rightarrow> (Some (Inl e), x # xs, r\<lparr>buf := b\<rparr>)
      | (Inr (Some frame), b) \<Rightarrow> (Some (Inr frame), x # xs, r\<lparr>buf := b\<rparr>)
      | (Inr None, b) \<Rightarrow>
          (case x of
             ReadError e \<Rightarrow> (Some (Inl (map_closed e)), xs, r\<lparr>buf := b\<rparr>)
           | Eof \<Rightarrow> (Some (Inl PipeClosed), xs, r\<lparr>buf := b\<rparr>)
           | Data ds \<Rightarrow>
               (if ds = [] then (Some (Inl PipeClosed), xs, r\<lparr>buf := b\<rparr>)
                else recv_raw memchr xs (r\<lparr>buf := b @ ds\<rparr>))))"

text \<open>\<^verbatim>\<open>recv\<close>: a raw frame, parsed by the JSON parser of the serde crate (an argument).\<close>

definition recv ::
    "memchr_fun \<Rightarrow> (bytes \<Rightarrow> string + 'j) \<Rightarrow> read_result list \<Rightarrow> cdp_reader
     \<Rightarrow> (pipe_error + 'j) option \<times> read_result list \<times> cdp_reader" where
  "recv memchr from_slice reads r =
     (case recv_raw memchr reads r of
        (Some (Inr frame), rest, r1) \<Rightarrow>
          (case from_slice frame of
             Inl m \<Rightarrow> (Some (Inl (BadJson m)), rest, r1)
           | Inr v \<Rightarrow> (Some (Inr v), rest, r1))
      | (Some (Inl e), rest, r1) \<Rightarrow> (Some (Inl e), rest, r1)
      | (None, rest, r1) \<Rightarrow> (None, rest, r1))"

text \<open>The first \<open>n\<close> results of receiving over and over.\<close>

fun recv_n ::
    "memchr_fun \<Rightarrow> nat \<Rightarrow> read_result list \<Rightarrow> cdp_reader \<Rightarrow> (pipe_error + bytes) option list" where
  "recv_n memchr 0 reads r = []"
| "recv_n memchr (Suc n) reads r =
     (case recv_raw memchr reads r of (res, rest, r1) \<Rightarrow> res # recv_n memchr n rest r1)"

text \<open>
  \<^verbatim>\<open>send_raw\<close> over the write operation of the pipe (the operating system's, an argument).
\<close>

definition send_raw ::
    "('w \<Rightarrow> bytes \<Rightarrow> io_error option \<times> 'w) \<Rightarrow> bytes \<Rightarrow> 'w \<Rightarrow> pipe_error option \<times> 'w" where
  "send_raw write_all frame w =
     (case write_all w frame of
        (Some e, w1) \<Rightarrow> (Some (map_closed e), w1)
      | (None, w1) \<Rightarrow>
          (case write_all w1 [0] of
             (Some e, w2) \<Rightarrow> (Some (map_closed e), w2)
           | (None, w2) \<Rightarrow> (None, w2)))"

definition send ::
    "('w \<Rightarrow> bytes \<Rightarrow> io_error option \<times> 'w) \<Rightarrow> ('j \<Rightarrow> string + bytes) \<Rightarrow> 'j \<Rightarrow> 'w
     \<Rightarrow> pipe_error option \<times> 'w" where
  "send write_all to_vec message w =
     (case to_vec message of
        Inl m \<Rightarrow> (Some (BadJson m), w)
      | Inr frame \<Rightarrow> send_raw write_all frame w)"

text \<open>A pipe with both ends, and its halves.\<close>

record 'w cdp_pipe =
  writer :: 'w
  reader :: cdp_reader

definition pipe_new :: "'w \<Rightarrow> nat \<Rightarrow> 'w cdp_pipe" where
  "pipe_new w cap = \<lparr>writer = w, reader = \<lparr>buf = [], max_frame = cap\<rparr>\<rparr>"

definition pipe_split :: "'w cdp_pipe \<Rightarrow> cdp_reader \<times> 'w" where
  "pipe_split p = (reader p, writer p)"

definition from_halves :: "cdp_reader \<Rightarrow> 'w \<Rightarrow> 'w cdp_pipe" where
  "from_halves r w = \<lparr>writer = w, reader = r\<rparr>"

section \<open>The memchr crate and a writable pipe, concretely\<close>

definition find_byte :: memchr_fun where
  "find_byte b xs =
     (if b \<in> set xs then Some (length (takeWhile (\<lambda>x. x \<noteq> b) xs)) else None)"

lemma find_byte_ok: "memchr_ok find_byte"
  by (simp add: memchr_ok_def find_byte_def)

text \<open>A pipe the browser keeps reading from: every write succeeds and appends.\<close>

definition open_pipe :: "bytes \<Rightarrow> bytes \<Rightarrow> io_error option \<times> bytes" where
  "open_pipe out bs = (None, out @ bs)"

section \<open>Framing\<close>

definition wire :: "bytes list \<Rightarrow> bytes" where
  "wire fs = concat (map (\<lambda>f. f @ [0]) fs)"

lemma wire_simps [simp]: "wire [] = []" "wire (f # fs) = f @ 0 # wire fs" "wire (fs @ gs) = wire fs @ wire gs"
  by (simp_all add: wire_def)

lemma send_raw_open [simp]: "send_raw open_pipe frame out = (None, out @ frame @ [0])"
  by (simp add: send_raw_def open_pipe_def)

lemma take_frame_whole:
  assumes "memchr_ok memchr" "0 \<notin> set f" "length f \<le> n"
  shows "take_frame memchr (f @ 0 # rest) n = (Inr (Some f), rest)"
proof -
  have "takeWhile (\<lambda>x. x \<noteq> 0) (f @ 0 # rest) = f"
    using assms(2) by (subst takeWhile_append2) auto
  then show ?thesis
    using assms by (simp add: take_frame_def memchr_ok_def)
qed

lemma take_frame_partial:
  assumes "memchr_ok memchr" "0 \<notin> set b"
  shows "take_frame memchr b n = (if n < length b then (Inl (FrameTooLarge n), b) else (Inr None, b))"
  using assms by (simp add: take_frame_def memchr_ok_def)

lemma take_frame_long:
  assumes "memchr_ok memchr" "0 \<notin> set f" "n < length f"
  shows "take_frame memchr (f @ 0 # rest) n = (Inl (FrameTooLarge n), f @ 0 # rest)"
proof -
  have "takeWhile (\<lambda>x. x \<noteq> 0) (f @ 0 # rest) = f"
    using assms(2) by (subst takeWhile_append2) auto
  then show ?thesis
    using assms by (simp add: take_frame_def memchr_ok_def)
qed

text \<open>Everything the reader has or will read.\<close>

fun incoming :: "read_result list \<Rightarrow> bytes" where
  "incoming (Data ds # xs) = ds @ incoming xs"
| "incoming _ = []"

definition chunks :: "bytes list \<Rightarrow> read_result list" where
  "chunks cs = map Data cs @ [Eof]"

lemma chunks_simps [simp]: "chunks [] = [Eof]" "chunks (c # cs) = Data c # chunks cs"
  by (simp_all add: chunks_def)

lemma recv_raw_ready:
  assumes "take_frame memchr (buf r) (max_frame r) = (Inr (Some f), b)"
  shows "recv_raw memchr reads r = (Some (Inr f), reads, r\<lparr>buf := b\<rparr>)"
  using assms by (cases reads) simp_all

lemma first_zero_in_front:
  assumes "xs @ ys = f @ 0 # rest" "0 \<in> set xs" "0 \<notin> set f"
  shows "\<exists>b. xs = f @ 0 # b \<and> b @ ys = rest"
  using assms by (auto simp: append_eq_append_conv2 append_eq_Cons_conv)

lemma no_zero_in_front:
  assumes "xs @ ys = f @ 0 # rest" "0 \<notin> set xs"
  shows "length xs \<le> length f \<and> ys \<noteq> []"
  using assms by (auto simp: append_eq_append_conv2 append_eq_Cons_conv)

lemma recv_raw_chunks:
  assumes "memchr_ok memchr" "0 \<notin> set f" "length f \<le> max_frame r"
    and "list_all (\<lambda>c. c \<noteq> []) cs" "buf r @ concat cs = f @ 0 # rest"
  shows "\<exists>b cs'. recv_raw memchr (chunks cs) r = (Some (Inr f), chunks cs', r\<lparr>buf := b\<rparr>) \<and>
                 b @ concat cs' = rest \<and> list_all (\<lambda>c. c \<noteq> []) cs'"
  using assms(3-5)
proof (induction cs arbitrary: r)
  case Nil
  then have "buf r = f @ 0 # rest" by simp
  then show ?case
    using take_frame_whole [OF assms(1,2) Nil.prems(1), of rest]
    by (intro exI [of _ rest] exI [of _ "[]"]) (simp add: recv_raw_ready)
next
  case (Cons c cs)
  show ?case
  proof (cases "0 \<in> set (buf r)")
    case True
    then obtain b where b: "buf r = f @ 0 # b" "b @ concat (c # cs) = rest"
      using first_zero_in_front [OF Cons.prems(3) _ assms(2)] by blast
    have "recv_raw memchr (chunks (c # cs)) r = (Some (Inr f), chunks (c # cs), r\<lparr>buf := b\<rparr>)"
      using take_frame_whole [OF assms(1,2) Cons.prems(1)] b(1) by (intro recv_raw_ready) simp
    then show ?thesis using b(2) Cons.prems(2) by blast
  next
    case False
    then have "\<not> max_frame r < length (buf r)"
      using no_zero_in_front [OF Cons.prems(3)] Cons.prems(1) by auto
    then have "recv_raw memchr (chunks (c # cs)) r =
               recv_raw memchr (chunks cs) (r\<lparr>buf := buf r @ c\<rparr>)"
      using take_frame_partial [OF assms(1) False] Cons.prems(2) by simp
    then show ?thesis
      using Cons.IH [of "r\<lparr>buf := buf r @ c\<rparr>"] Cons.prems by simp
  qed
qed

lemma recv_raw_end:
  assumes "memchr_ok memchr" "list_all (\<lambda>c. c \<noteq> []) cs" "buf r @ concat cs = []"
  shows "fst (recv_raw memchr (chunks cs) r) = Some (Inl PipeClosed)"
  using assms by (cases cs) (auto simp: take_frame_partial)

lemma recv_n_chunks:
  assumes "memchr_ok memchr" "list_all (\<lambda>f. 0 \<notin> set f \<and> length f \<le> max_frame r) fs"
    and "list_all (\<lambda>c. c \<noteq> []) cs" "buf r @ concat cs = wire fs"
  shows "recv_n memchr (Suc (length fs)) (chunks cs) r = map (\<lambda>f. Some (Inr f)) fs @ [Some (Inl PipeClosed)]"
  using assms(2-)
proof (induction fs arbitrary: r cs)
  case Nil
  then show ?case
    using recv_raw_end [OF assms(1) Nil.prems(2), of r] by (auto split: prod.splits)
next
  case (Cons f fs)
  then obtain b cs' where st: "recv_raw memchr (chunks cs) r = (Some (Inr f), chunks cs', r\<lparr>buf := b\<rparr>)"
      "b @ concat cs' = wire fs" "list_all (\<lambda>c. c \<noteq> []) cs'"
    using recv_raw_chunks [OF assms(1), of f r cs "wire fs"] by auto
  then show ?case
    using Cons.IH [of "r\<lparr>buf := b\<rparr>" cs'] Cons.prems(1) by simp
qed

text \<open>The wire after sending frames one after another over an open pipe.\<close>

fun send_all :: "('w \<Rightarrow> bytes \<Rightarrow> io_error option \<times> 'w) \<Rightarrow> bytes list \<Rightarrow> 'w \<Rightarrow> 'w" where
  "send_all write_all [] w = w"
| "send_all write_all (f # fs) w = send_all write_all fs (snd (send_raw write_all f w))"

lemma send_all_open: "send_all open_pipe fs out = out @ wire fs"
  by (induction fs arbitrary: out) simp_all

text \<open>
  Property C25: framing round trip. Messages without a zero byte and within the frame cap, sent one
  after another with \<open>send_raw\<close>, are received by \<open>recv_raw\<close> as exactly those messages in that
  order, and then the end of the stream as closed, however the pipe cuts the bytes into reads.
\<close>

theorem framing_round_trip:
  assumes "memchr_ok memchr" "list_all (\<lambda>f. 0 \<notin> set f \<and> length f \<le> cap) fs"
    and "list_all (\<lambda>c. c \<noteq> []) cs" "concat cs = send_all open_pipe fs []"
  shows "recv_n memchr (Suc (length fs)) (chunks cs) (reader (pipe_new w cap)) =
         map (\<lambda>f. Some (Inr f)) fs @ [Some (Inl PipeClosed)]"
  using recv_n_chunks [OF assms(1), of "reader (pipe_new w cap)" fs cs] assms(2-)
  by (simp add: pipe_new_def send_all_open)

theorem framing_round_trip_witness:
  "recv_n find_byte 3 (chunks [[1], [2, 0, 3], [0]]) (reader (pipe_new () 2)) =
   [Some (Inr [1, 2]), Some (Inr [3]), Some (Inl PipeClosed)]"
  using framing_round_trip [OF find_byte_ok, of 2 "[[1, 2], [3]]" "[[1], [2, 0, 3], [0]]" "()"]
  by (simp add: send_all_open numeral_3_eq_3)

lemma take_frame_cases:
  assumes "memchr_ok memchr"
  obtains (frame) f b' where "take_frame memchr b n = (Inr (Some f), b')" "b = f @ 0 # b'"
      "0 \<notin> set f" "length f \<le> n"
  | (part) "take_frame memchr b n = (Inr None, b)" "0 \<notin> set b" "length b \<le> n"
  | (long) "take_frame memchr b n = (Inl (FrameTooLarge n), b)"
proof (cases "0 \<in> set b")
  case True
  then obtain f b' where b: "b = f @ 0 # b'" "0 \<notin> set f" by (meson split_list_first)
  show thesis
  proof (cases "length f \<le> n")
    case True
    then show ?thesis using frame b take_frame_whole [OF assms b(2) True] by blast
  next
    case False
    then show ?thesis using long b take_frame_long [OF assms b(2)] by simp
  qed
next
  case False
  then show ?thesis
    using part long take_frame_partial [OF assms False, of n] by (cases "n < length b") auto
qed

lemma recv_raw_bounded:
  assumes "memchr_ok memchr" "recv_raw memchr reads r = (res, rest, r')"
  shows "(case res of
            Some (Inr f) \<Rightarrow> length f \<le> max_frame r \<and> 0 \<notin> set f
          | Some (Inl e) \<Rightarrow> True
          | None \<Rightarrow> length (buf r') \<le> max_frame r \<and> buf r' = buf r @ incoming reads)"
  using assms(2)
proof (induction reads arbitrary: r)
  case Nil
  show ?case
    using assms(1) by (rule take_frame_cases [where b = "buf r" and n = "max_frame r"]) (use Nil in auto)
next
  case (Cons x xs)
  show ?case
    using assms(1)
  proof (rule take_frame_cases [where b = "buf r" and n = "max_frame r"])
    assume part: "take_frame memchr (buf r) (max_frame r) = (Inr None, buf r)"
    show ?thesis
    proof (cases "\<exists>ds. x = Data ds \<and> ds \<noteq> []")
      case True
      then obtain ds where ds: "x = Data ds" "ds \<noteq> []" by blast
      then have "recv_raw memchr xs (r\<lparr>buf := buf r @ ds\<rparr>) = (res, rest, r')"
        using Cons.prems part by simp
      from Cons.IH [OF this] ds show ?thesis by (auto split: option.splits sum.splits)
    next
      case False
      then show ?thesis using Cons.prems part by (cases x) auto
    qed
  qed (use Cons.prems in auto)
qed

lemma long_front:
  assumes "g @ 0 # b @ ys = f @ rest" "0 \<notin> set f"
  shows "length f \<le> length g"
proof (rule ccontr)
  assume "\<not> length f \<le> length g"
  then have "(g @ 0 # b @ ys) ! length g = f ! length g" "length g < length f"
    using assms(1) by (simp_all add: nth_append)
  then show False using assms(2) nth_mem [of "length g" f] by simp
qed

lemma recv_raw_too_long:
  assumes "memchr_ok memchr" "0 \<notin> set f" "max_frame r < length f"
    and "list_all (\<lambda>c. c \<noteq> []) cs" "buf r @ concat cs = f @ rest"
  shows "fst (recv_raw memchr (chunks cs) r) = Some (Inl (FrameTooLarge (max_frame r)))"
  using assms(3-)
proof (induction cs arbitrary: r)
  case Nil
  show ?case
    using assms(1)
  proof (rule take_frame_cases [where b = "buf r" and n = "max_frame r"])
    fix g b' assume "buf r = g @ 0 # b'" "length g \<le> max_frame r"
    then show ?thesis using Nil.prems long_front [of g b' "[]" f rest] assms(2) by simp
  next
    assume "0 \<notin> set (buf r)" "length (buf r) \<le> max_frame r"
    then show ?thesis using Nil.prems by auto
  qed simp
next
  case (Cons c cs)
  show ?case
    using assms(1)
  proof (rule take_frame_cases [where b = "buf r" and n = "max_frame r"])
    fix g b' assume "buf r = g @ 0 # b'" "length g \<le> max_frame r"
    then show ?thesis
      using Cons.prems long_front [of g b' "concat (c # cs)" f rest] assms(2) by simp
  next
    assume "take_frame memchr (buf r) (max_frame r) = (Inr None, buf r)"
    then show ?thesis using Cons.IH [of "r\<lparr>buf := buf r @ c\<rparr>"] Cons.prems by simp
  qed simp
qed

text \<open>
  The frame cap holds whatever the pipe does. A received frame is never longer than the
  cap and never contains a zero byte; while a receive waits, exactly what was read is buffered and it
  is at most the cap; a message longer than the cap is refused under every cut into reads.
\<close>

theorem frame_cap:
  assumes "memchr_ok memchr"
  shows "(case recv_raw memchr reads r of
            (Some (Inr f), _, _) \<Rightarrow> length f \<le> max_frame r \<and> 0 \<notin> set f
          | (Some (Inl e), _, _) \<Rightarrow> True
          | (None, _, r') \<Rightarrow> length (buf r') \<le> max_frame r \<and> buf r' = buf r @ incoming reads) \<and>
         (0 \<notin> set f \<and> cap < length f \<and> list_all (\<lambda>c. c \<noteq> []) cs \<and> concat cs = f @ rest \<longrightarrow>
          fst (recv_raw memchr (chunks cs) \<lparr>buf = [], max_frame = cap\<rparr>) = Some (Inl (FrameTooLarge cap)))"
proof -
  obtain res left r' where e: "recv_raw memchr reads r = (res, left, r')"
    by (cases "recv_raw memchr reads r")
  show ?thesis
    using recv_raw_bounded [OF assms e] recv_raw_too_long [OF assms, of f "\<lparr>buf = [], max_frame = cap\<rparr>" cs rest]
    by (auto simp: e split: option.splits sum.splits)
qed

theorem frame_cap_witness:
  "fst (recv_raw find_byte (chunks [[1, 2], [3, 0]]) \<lparr>buf = [], max_frame = 2\<rparr>) = Some (Inl (FrameTooLarge 2))"
  using frame_cap [OF find_byte_ok, where reads = "[]" and r = "\<lparr>buf = [], max_frame = 2\<rparr>" and
      f = "[1, 2, 3]" and cap = 2 and cs = "[[1, 2], [3, 0]]" and rest = "[0]"]
  by simp

text \<open>
  Writing is not safe to cancel. If a send is abandoned after the pipe took only a part
  of its bytes, the next message sent on the same pipe is glued to that part: the browser receives
  one frame that is neither message.
\<close>

theorem abandoned_send_corrupts_next:
  assumes "memchr_ok memchr" "0 \<notin> set part" "0 \<notin> set g" "length part + length g \<le> cap"
  shows "recv_n memchr 1 (chunks [snd (send_raw open_pipe g (snd (open_pipe [] part)))])
           \<lparr>buf = [], max_frame = cap\<rparr> = [Some (Inr (part @ g))]"
proof -
  have "\<exists>b cs'. recv_raw memchr (chunks [part @ g @ [0]]) \<lparr>buf = [], max_frame = cap\<rparr>
          = (Some (Inr (part @ g)), chunks cs', \<lparr>buf = b, max_frame = cap\<rparr>)"
    using recv_raw_chunks [OF assms(1), of "part @ g" "\<lparr>buf = [], max_frame = cap\<rparr>" "[part @ g @ [0]]" "[]"] assms
    by auto
  then show ?thesis by (auto simp: open_pipe_def [of "[]"])
qed

theorem abandoned_send_corrupts_next_witness:
  "recv_n find_byte 1 (chunks [snd (send_raw open_pipe [7, 8] (snd (open_pipe [] [1])))])
     \<lparr>buf = [], max_frame = 9\<rparr> = [Some (Inr [1, 7, 8])]"
  using abandoned_send_corrupts_next [OF find_byte_ok, of "[1]" "[7, 8]" 9] by simp

end
