(* ===== verification/Json_Api.thy ===== *)
theory Json_Api
  imports Prelude
begin

text \<open>
  The JSON values of the serde\_json crate, which is outside the repository: a record of the
  constructors and accessors the program uses, with their documented behaviour \<open>json_ok\<close>, and the
  crate's documented value type as the instance that shows the behaviour can hold.
\<close>

record 'j json_api =
  jget :: "string \<Rightarrow> 'j \<Rightarrow> 'j option"
  as_u64 :: "'j \<Rightarrow> u64 option"
  as_i64 :: "'j \<Rightarrow> int option"
  as_str :: "'j \<Rightarrow> string option"
  as_bool :: "'j \<Rightarrow> bool option"
  as_array :: "'j \<Rightarrow> 'j list option"
  jnull :: 'j
  jbool :: "bool \<Rightarrow> 'j"
  jnum :: "u64 \<Rightarrow> 'j"
  jstring :: "string \<Rightarrow> 'j"
  jarray :: "'j list \<Rightarrow> 'j"
  jobject :: "(string \<times> 'j) list \<Rightarrow> 'j"

definition json_ok :: "'j json_api \<Rightarrow> bool" where
  "json_ok J \<longleftrightarrow>
     (\<forall>k kvs. jget J k (jobject J kvs) = map_of kvs k) \<and>
     (\<forall>n. as_u64 J (jnum J n) = Some n) \<and>
     (\<forall>s. as_str J (jstring J s) = Some s) \<and>
     (\<forall>b. as_bool J (jbool J b) = Some b) \<and>
     (\<forall>xs. as_array J (jarray J xs) = Some xs)"

lemma json_okD:
  assumes "json_ok J"
  shows "jget J k (jobject J kvs) = map_of kvs k"
    and "as_u64 J (jnum J n) = Some n"
    and "as_str J (jstring J s) = Some s"
    and "as_bool J (jbool J b) = Some b"
    and "as_array J (jarray J xs) = Some xs"
  using assms by (simp_all add: json_ok_def)

datatype json =
    JNull
  | JBool bool
  | JNum int
  | JString string
  | JArray "json list"
  | JObject "(string \<times> json) list"

fun json_get :: "string \<Rightarrow> json \<Rightarrow> json option" where
  "json_get k (JObject kvs) = map_of kvs k"
| "json_get k _ = None"

fun json_u64 :: "json \<Rightarrow> u64 option" where
  "json_u64 (JNum i) = (if 0 \<le> i \<and> i < 2 ^ 64 then Some (word_of_int i) else None)"
| "json_u64 _ = None"

fun json_i64 :: "json \<Rightarrow> int option" where
  "json_i64 (JNum i) = (if - (2 ^ 63) \<le> i \<and> i < 2 ^ 63 then Some i else None)"
| "json_i64 _ = None"

fun json_str :: "json \<Rightarrow> string option" where
  "json_str (JString s) = Some s"
| "json_str _ = None"

fun json_bool :: "json \<Rightarrow> bool option" where
  "json_bool (JBool b) = Some b"
| "json_bool _ = None"

fun json_array :: "json \<Rightarrow> json list option" where
  "json_array (JArray xs) = Some xs"
| "json_array _ = None"

definition json_values :: "json json_api" where
  "json_values =
     \<lparr>jget = json_get, as_u64 = json_u64, as_i64 = json_i64, as_str = json_str, as_bool = json_bool,
      as_array = json_array, jnull = JNull, jbool = JBool, jnum = (\<lambda>n. JNum (uint n)),
      jstring = JString, jarray = JArray, jobject = JObject\<rparr>"

lemma json_values_ok: "json_ok json_values"
proof -
  have "uint n < 2 ^ 64" for n :: u64
    using uint_lt2p [of n] by simp
  then show ?thesis by (simp add: json_ok_def json_values_def)
qed

end
