(* ===== verification/Cdp_Client.thy ===== *)
theory Cdp_Client
  imports Cdp_Pipe Json_Api
begin

text \<open>
  \<^verbatim>\<open>src/chrome/client.rs\<close>: the request and response client over a browser's pipe. A command is
  numbered and written; its reply is the first later message carrying that number. The messages
  the pipe delivers are given as the list of results of \<open>Cdp_Pipe.recv\<close>.
\<close>

datatype cdp_error =
    PipeFailure pipe_error
  | Protocol string int string

record cdp_client =
  next_id :: u64

definition client_new :: cdp_client where
  "client_new = \<lparr>next_id = 1\<rparr>"

definition with_first_id :: "u64 \<Rightarrow> cdp_client" where
  "with_first_id first_id = \<lparr>next_id = first_id\<rparr>"

definition envelope :: "'j json_api \<Rightarrow> u64 \<Rightarrow> string \<Rightarrow> 'j \<Rightarrow> string option \<Rightarrow> 'j" where
  "envelope J cid method params session_id =
     jobject J ([(''id'', jnum J cid), (''method'', jstring J method), (''params'', params)] @
                (case session_id of None \<Rightarrow> [] | Some sid \<Rightarrow> [(''sessionId'', jstring J sid)]))"

definition client_send ::
    "'j json_api \<Rightarrow> ('j \<Rightarrow> 'w \<Rightarrow> pipe_error option \<times> 'w) \<Rightarrow> string \<Rightarrow> 'j \<Rightarrow> string option
     \<Rightarrow> cdp_client \<Rightarrow> 'w \<Rightarrow> (cdp_error + u64) \<times> cdp_client \<times> 'w" where
  "client_send J pipe_send method params session_id c w =
     (let cid = next_id c; c1 = c\<lparr>next_id := next_id c + 1\<rparr>
      in case pipe_send (envelope J cid method params session_id) w of
           (Some e, w1) \<Rightarrow> (Inl (PipeFailure e), c1, w1)
         | (None, w1) \<Rightarrow> (Inr cid, c1, w1))"

definition reply_of :: "'j json_api \<Rightarrow> string \<Rightarrow> 'j \<Rightarrow> cdp_error + 'j" where
  "reply_of J method msg =
     (case jget J ''error'' msg of
        Some err \<Rightarrow>
          Inl (Protocol method
                (case Option.bind (jget J ''code'' err) (as_i64 J) of None \<Rightarrow> 0 | Some n \<Rightarrow> n)
                (case Option.bind (jget J ''message'' err) (as_str J) of
                   None \<Rightarrow> ''unknown'' | Some m \<Rightarrow> m))
      | None \<Rightarrow> Inr (case jget J ''result'' msg of None \<Rightarrow> jnull J | Some v \<Rightarrow> v))"

text \<open>The loop of \<^verbatim>\<open>call_on\<close>: \<open>None\<close> when the messages run out and the call still waits.\<close>

fun await_reply ::
    "'j json_api \<Rightarrow> u64 \<Rightarrow> string \<Rightarrow> (pipe_error + 'j) list
     \<Rightarrow> (cdp_error + 'j) option \<times> (pipe_error + 'j) list" where
  "await_reply J cid method [] = (None, [])"
| "await_reply J cid method (Inl e # ms) = (Some (Inl (PipeFailure e)), ms)"
| "await_reply J cid method (Inr msg # ms) =
     (if Option.bind (jget J ''id'' msg) (as_u64 J) \<noteq> Some cid then await_reply J cid method ms
      else (Some (reply_of J method msg), ms))"

definition call_on ::
    "'j json_api \<Rightarrow> ('j \<Rightarrow> 'w \<Rightarrow> pipe_error option \<times> 'w) \<Rightarrow> string option \<Rightarrow> string \<Rightarrow> 'j
     \<Rightarrow> (pipe_error + 'j) list \<Rightarrow> cdp_client \<Rightarrow> 'w
     \<Rightarrow> (cdp_error + 'j) option \<times> (pipe_error + 'j) list \<times> cdp_client \<times> 'w" where
  "call_on J pipe_send session_id method params msgs c w =
     (case client_send J pipe_send method params session_id c w of
        (Inl e, c1, w1) \<Rightarrow> (Some (Inl e), msgs, c1, w1)
      | (Inr cid, c1, w1) \<Rightarrow>
          (let (r, rest) = await_reply J cid method msgs in (r, rest, c1, w1)))"

definition call ::
    "'j json_api \<Rightarrow> ('j \<Rightarrow> 'w \<Rightarrow> pipe_error option \<times> 'w) \<Rightarrow> string \<Rightarrow> 'j
     \<Rightarrow> (pipe_error + 'j) list \<Rightarrow> cdp_client \<Rightarrow> 'w
     \<Rightarrow> (cdp_error + 'j) option \<times> (pipe_error + 'j) list \<times> cdp_client \<times> 'w" where
  "call J pipe_send method params msgs c w = call_on J pipe_send None method params msgs c w"

section \<open>Correlation\<close>

definition msg_id :: "'j json_api \<Rightarrow> 'j \<Rightarrow> u64 option" where
  "msg_id J msg = Option.bind (jget J ''id'' msg) (as_u64 J)"

lemma await_reply_skip:
  "list_all (\<lambda>m. msg_id J m \<noteq> Some cid) skipped \<Longrightarrow>
   await_reply J cid method (map Inr skipped @ rest) = await_reply J cid method rest"
  by (induction skipped) (auto simp: msg_id_def)

lemma await_reply_hit:
  "msg_id J m = Some cid \<Longrightarrow> await_reply J cid method (Inr m # rest) = (Some (reply_of J method m), rest)"
  by (simp add: msg_id_def)

text \<open>
  A command's answer is its own. The number written to the browser is the client's next
  one; every event and every reply to another command that arrives before it is skipped; the
  first message with that number decides the result, and the messages after it stay unread. The
  next command gets a fresh number.
\<close>

theorem call_correlates:
  assumes "json_ok J" "pipe_send (envelope J (next_id c) method params sid) w = (None, w1)"
    and "list_all (\<lambda>m. msg_id J m \<noteq> Some (next_id c)) skipped" "msg_id J m = Some (next_id c)"
  shows "call_on J pipe_send sid method params (map Inr skipped @ Inr m # rest) c w =
           (Some (reply_of J method m), rest, \<lparr>next_id = next_id c + 1\<rparr>, w1) \<and>
         msg_id J (envelope J (next_id c) method params sid) = Some (next_id c) \<and>
         next_id c + 1 \<noteq> next_id c"
  using assms
  by (simp add: call_on_def client_send_def Let_def await_reply_skip await_reply_hit del: await_reply.simps)
     (simp add: msg_id_def envelope_def json_okD)

theorem call_correlates_witness:
  "call_on json_values (\<lambda>v w. (None, Suc w)) None ''Browser.getVersion'' JNull
     [Inr (JObject [(''method'', JString ''Target.targetCreated'')]),
      Inr (JObject [(''id'', JNum 1), (''result'', JString ''ok'')])] client_new 0
   = (Some (Inr (JString ''ok'')), [], \<lparr>next_id = 2\<rparr>, 1)"
  using call_correlates [OF json_values_ok, of "\<lambda>v w. (None, Suc w)" client_new "''Browser.getVersion''" JNull
      None 0 1 "[JObject [(''method'', JString ''Target.targetCreated'')]]"
      "JObject [(''id'', JNum 1), (''result'', JString ''ok'')]" "[]"]
  by (simp add: msg_id_def json_values_def client_new_def reply_of_def)

end
