(* ===== verification/Launch.thy ===== *)
theory Launch
  imports Flags Cdp_Client
begin

text \<open>
  \<^verbatim>\<open>src/chrome/launch.rs\<close> and \<^verbatim>\<open>src/chrome/kill.rs\<close>: starting a browser and taking it down. The
  operating system's answers (pipes, spawn, wait, what arrives on the pipe and on standard error) are
  the environment of a call; what the code does to process groups is returned as a list of signals.
\<close>

section \<open>Errors\<close>

datatype launch_error =
    Pipes string
  | FdMapping
  | Spawn string
  | PidUnavailable
  | Wire string
  | ChromeExited string string
  | StartupPipe pipe_error string
  | ReadyTimeout nat string

definition sandbox_signatures :: "string list" where
  "sandbox_signatures =
     [''No usable sandbox'', ''sandbox/linux/services/credentials'',
      ''Failed to move to new namespace'', ''chrome_sandbox'', ''setuid sandbox'']"

definition enter_leaf_failure_marker :: string where
  "enter_leaf_failure_marker = ''cgroup.procs''"

text \<open>The standard error tail that the three readiness failures carry.\<close>

fun stderr_of :: "launch_error \<Rightarrow> string option" where
  "stderr_of (ChromeExited _ tail) = Some tail"
| "stderr_of (StartupPipe _ tail) = Some tail"
| "stderr_of (ReadyTimeout _ tail) = Some tail"
| "stderr_of _ = None"

text \<open>Whether there is a remediation hint (its text does not matter here).\<close>

definition remediation :: "launch_error \<Rightarrow> bool" where
  "remediation e =
     (case stderr_of e of None \<Rightarrow> False | Some tail \<Rightarrow> str_contains tail ''No usable sandbox'')"

definition is_sandbox_failure :: "launch_error \<Rightarrow> bool" where
  "is_sandbox_failure e =
     (case stderr_of e of
        None \<Rightarrow> False
      | Some tail \<Rightarrow> list_ex (\<lambda>sig. str_contains tail sig) sandbox_signatures)"

fun is_cgroup_enter_failure :: "launch_error \<Rightarrow> bool" where
  "is_cgroup_enter_failure (ChromeExited _ tail) = str_contains tail enter_leaf_failure_marker"
| "is_cgroup_enter_failure _ = False"

section \<open>The tail of standard error\<close>

definition stderr_max_lines :: nat where "stderr_max_lines = 200"

fun trim_front :: "string list \<Rightarrow> string list" where
  "trim_front lines = (if stderr_max_lines < length lines then trim_front (tl lines) else lines)"

declare trim_front.simps [simp del]

definition tail_push :: "string list \<Rightarrow> string \<Rightarrow> string list" where
  "tail_push lines line = trim_front (lines @ [line])"

text \<open>
  What the line reader gives: a line, or \<open>None\<close> for one that is too long or is not text. The collecting task
  ends at the first such line.
\<close>

fun collect_stderr :: "string option list \<Rightarrow> string list \<Rightarrow> string list" where
  "collect_stderr [] tail = tail"
| "collect_stderr (None # items) tail = tail"
| "collect_stderr (Some line # items) tail = collect_stderr items (tail_push tail line)"

definition joined :: "string list \<Rightarrow> string" where
  "joined lines = str_join [CHR 0x0A] lines"

section \<open>Starting\<close>

record browser_version =
  product :: string
  protocol_version :: string
  user_agent :: string
  js_version :: string

record launch_spec =
  executable :: string
  ls_user_data_dir :: string
  ls_no_sandbox :: bool
  ls_disable_dev_shm :: bool
  extra_flags :: "string list"
  launch_timeout :: nat
  max_frame_bytes :: nat
  cgroup_leaf :: "string option"

record browser =
  pid :: int
  version :: browser_version
  has_pipe :: bool

definition take_pipe :: "browser \<Rightarrow> bool \<times> browser" where
  "take_pipe b = (has_pipe b, b\<lparr>has_pipe := False\<rparr>)"

definition enter_leaf_then_exec :: string where
  "enter_leaf_then_exec = ''echo $$ > '' @ [CHR 0x22] @ ''$0/cgroup.procs'' @ [CHR 0x22] @ '' && exec '' @
     [CHR 0x22] @ ''$@'' @ [CHR 0x22]"

text \<open>The program and its arguments.\<close>

definition browser_command :: "string \<Rightarrow> string option \<Rightarrow> string \<times> string list" where
  "browser_command exe leaf =
     (case leaf of
        Some l \<Rightarrow> (''/bin/sh'', [''-c'', enter_leaf_then_exec, l, exe])
      | None \<Rightarrow> (exe, []))"

definition command_line :: "launch_spec \<Rightarrow> string \<times> string list" where
  "command_line spec =
     (let (program, args) = browser_command (executable spec) (cgroup_leaf spec)
      in (program,
          args @ build_flags \<lparr>user_data_dir = ls_user_data_dir spec, no_sandbox = ls_no_sandbox spec,
                              disable_dev_shm = ls_disable_dev_shm spec, extra = extra_flags spec\<rparr>))"

datatype probe_failure = Exited string | ProbePipe pipe_error

datatype 'j probe_event = ChildExited string | Received "pipe_error + 'j"

definition ready_probe_id :: u64 where "ready_probe_id = 1"

definition version_field :: "'j json_api \<Rightarrow> 'j \<Rightarrow> string \<Rightarrow> string" where
  "version_field J value name =
     (case Option.bind (Option.bind (jget J ''result'' value) (jget J name)) (as_str J) of
        None \<Rightarrow> [] | Some s \<Rightarrow> s)"

definition parse_version :: "'j json_api \<Rightarrow> 'j \<Rightarrow> browser_version" where
  "parse_version J value =
     \<lparr>product = version_field J value ''product'',
      protocol_version = version_field J value ''protocolVersion'',
      user_agent = version_field J value ''userAgent'',
      js_version = version_field J value ''jsVersion''\<rparr>"

text \<open>The loop of \<^verbatim>\<open>probe_ready\<close>: \<open>None\<close> when the events run out, that is, when the timeout fires.\<close>

fun probe_loop :: "'j json_api \<Rightarrow> 'j probe_event list \<Rightarrow> (probe_failure + browser_version) option" where
  "probe_loop J [] = None"
| "probe_loop J (ChildExited status # evs) = Some (Inl (Exited status))"
| "probe_loop J (Received (Inl e) # evs) = Some (Inl (ProbePipe e))"
| "probe_loop J (Received (Inr value) # evs) =
     (if Option.bind (jget J ''id'' value) (as_u64 J) = Some ready_probe_id
      then Some (Inr (parse_version J value)) else probe_loop J evs)"

definition probe_ready ::
    "'j json_api \<Rightarrow> pipe_error option \<Rightarrow> 'j probe_event list \<Rightarrow> (probe_failure + browser_version) option" where
  "probe_ready J sent evs =
     (case sent of Some e \<Rightarrow> Some (Inl (ProbePipe e)) | None \<Rightarrow> probe_loop J evs)"

datatype signal = Sigterm int | Sigkill int

definition term_group :: "int \<Rightarrow> signal list" where
  "term_group p = (if 1 < p then [Sigterm p] else [])"

definition force_kill_group :: "int \<Rightarrow> signal list" where
  "force_kill_group p = (if 1 < p then [Sigkill p] else [])"

text \<open>Registering the two ends of the pipe: the errors, if any, of the writer and of the reader.\<close>

definition wire_pipe :: "string option \<Rightarrow> string option \<Rightarrow> launch_error + unit" where
  "wire_pipe sender receiver =
     (case sender of
        Some e \<Rightarrow> Inl (Wire e)
      | None \<Rightarrow> (case receiver of Some e \<Rightarrow> Inl (Wire e) | None \<Rightarrow> Inr ()))"

text \<open>Giving up on a spawned child; the wait that follows has no effect on the result.\<close>

definition abort_child :: "int \<Rightarrow> signal list" where
  "abort_child p = force_kill_group p"

record 'j launch_env =
  pipe_results :: "string option \<times> string option"
  fds_mapped :: bool
  spawn_result :: "string + nat option"
  stderr_items :: "string option list"
  wire_results :: "string option \<times> string option"
  probe_sent :: "pipe_error option"
  probe_events :: "'j probe_event list"

definition launch :: "'j json_api \<Rightarrow> 'j launch_env \<Rightarrow> launch_spec \<Rightarrow> (launch_error + browser) \<times> signal list" where
  "launch J env spec =
     (case pipe_results env of
        (Some e, _) \<Rightarrow> (Inl (Pipes e), [])
      | (None, Some e) \<Rightarrow> (Inl (Pipes e), [])
      | (None, None) \<Rightarrow>
          if \<not> fds_mapped env then (Inl FdMapping, [])
          else
            (case spawn_result env of
               Inl e \<Rightarrow> (Inl (Spawn e), [])
             | Inr None \<Rightarrow> (Inl PidUnavailable, [])
             | Inr (Some n) \<Rightarrow>
                 if 2 ^ 31 \<le> n then (Inl PidUnavailable, [])
                 else
                   (let p = int n;
                        tail = joined (collect_stderr (stderr_items env) [])
                    in case wire_pipe (fst (wire_results env)) (snd (wire_results env)) of
                         Inl e \<Rightarrow> (Inl e, abort_child p)
                       | Inr _ \<Rightarrow>
                           (case probe_ready J (probe_sent env) (probe_events env) of
                              Some (Inr v) \<Rightarrow> (Inr \<lparr>pid = p, version = v, has_pipe = True\<rparr>, [])
                            | Some (Inl (Exited status)) \<Rightarrow> (Inl (ChromeExited status tail), abort_child p)
                            | Some (Inl (ProbePipe e)) \<Rightarrow> (Inl (StartupPipe e tail), abort_child p)
                            | None \<Rightarrow>
                                (Inl (ReadyTimeout (min (launch_timeout spec) u64_max) tail), abort_child p)))))"

section \<open>Taking down\<close>

record teardown_report =
  exit_status :: "string option"
  graceful :: bool
  escalated_sigkill :: bool
  reaped :: bool

text \<open>
  A wait under a timeout: \<open>None\<close> when the timeout fired, otherwise the exit status if the wait
  itself succeeded.
\<close>

type_synonym wait_result = "string option option"

definition teardown ::
    "wait_result \<Rightarrow> wait_result \<Rightarrow> wait_result \<Rightarrow> browser \<Rightarrow> teardown_report \<times> signal list" where
  "teardown close_wait term_wait kill_wait b =
     (let fresh = \<lparr>exit_status = None, graceful = False, escalated_sigkill = False, reaped = False\<rparr>
      in case (if has_pipe b then close_wait else None) of
           Some status \<Rightarrow>
             (fresh\<lparr>graceful := True, reaped := True, exit_status := status\<rparr>, term_group (pid b))
         | None \<Rightarrow>
             (case term_wait of
                Some status \<Rightarrow> (fresh\<lparr>reaped := True, exit_status := status\<rparr>, term_group (pid b))
              | None \<Rightarrow>
                  (case kill_wait of
                     Some status \<Rightarrow>
                       (fresh\<lparr>escalated_sigkill := True, reaped := True, exit_status := status\<rparr>,
                        term_group (pid b) @ force_kill_group (pid b))
                   | None \<Rightarrow>
                       (fresh\<lparr>escalated_sigkill := True\<rparr>,
                        term_group (pid b) @ force_kill_group (pid b)))))"

section \<open>Properties\<close>

lemma trim_front_drop: "trim_front lines = drop (length lines - stderr_max_lines) lines"
proof (induction lines rule: trim_front.induct)
  case (1 lines)
  show ?case
  proof (cases "stderr_max_lines < length lines")
    case True
    then obtain n where n: "length lines - stderr_max_lines = Suc n"
      by (cases "length lines - stderr_max_lines") auto
    have "drop (length lines - stderr_max_lines) lines = drop n (tl lines)"
      by (simp only: n drop_Suc)
    moreover have "trim_front lines = drop (length (tl lines) - stderr_max_lines) (tl lines)"
      using True 1 by (simp only: trim_front.simps [of lines] if_True)
    moreover have "length (tl lines) - stderr_max_lines = n" using n by simp
    ultimately show ?thesis by (simp only:)
  next
    case False
    then show ?thesis by (simp add: trim_front.simps)
  qed
qed

lemma tail_push_bounded: "length (tail_push lines line) \<le> stderr_max_lines"
  by (simp add: tail_push_def trim_front_drop)

lemma launch_pid_pos:
  "launch J env spec = (Inr b, sigs) \<Longrightarrow> 0 \<le> pid b \<and> has_pipe b \<and> sigs = []"
  by (auto simp: launch_def Let_def split: prod.splits option.splits sum.splits if_splits probe_failure.splits)

text \<open>
  A launch leaves no stray browser. It succeeds only when the browser answered the
  version probe over its pipe; a failure after the process was spawned with a usable pid has
  killed the process group, exactly once; and a failure before that has signalled nothing.
\<close>

theorem launch_is_all_or_nothing:
  "case launch J env spec of
     (Inr b, sigs) \<Rightarrow>
       sigs = [] \<and> has_pipe b \<and> probe_ready J (probe_sent env) (probe_events env) = Some (Inr (version b)) \<and>
       spawn_result env = Inr (Some (nat (pid b)))
   | (Inl e, sigs) \<Rightarrow>
       (if e \<in> {FdMapping, PidUnavailable} \<or> (\<exists>m. e = Pipes m \<or> e = Spawn m) then sigs = []
        else \<exists>n. spawn_result env = Inr (Some n) \<and> sigs = force_kill_group (int n))"
  by (auto simp: launch_def Let_def wire_pipe_def abort_child_def
      split: prod.splits option.splits sum.splits probe_failure.splits)

text \<open>
  Teardown escalates and never signals anything but the browser's group. The group
  always gets SIGTERM; SIGKILL follows exactly when neither the protocol close nor the grace period
  ended with the child reaped, and is reported; the child counts as reaped exactly when one of the
  waits returned; and no signal is sent for a pid of one or less.
\<close>

theorem teardown_escalates:
  "case teardown close_wait term_wait kill_wait b of
     (report, sigs) \<Rightarrow>
       (graceful report \<longleftrightarrow> has_pipe b \<and> close_wait \<noteq> None) \<and>
       (escalated_sigkill report \<longleftrightarrow> \<not> graceful report \<and> term_wait = None) \<and>
       (reaped report \<longleftrightarrow> \<not> (\<not> graceful report \<and> term_wait = None \<and> kill_wait = None)) \<and>
       sigs = (if 1 < pid b
               then Sigterm (pid b) # (if escalated_sigkill report then [Sigkill (pid b)] else [])
               else [])"
  by (auto simp: teardown_def Let_def term_group_def force_kill_group_def split: option.splits)

section \<open>What a failed start is taken for\<close>

text \<open>
  A browser that cannot join its leaf exits, and with it goes the other end of the pipe. Which of the two the probe
  sees first decides: only an exit is recognised as a leaf that cannot be entered, so the end of the pipe makes the
  launch fail where the exit makes it fall back to no leaf.
\<close>

lemma leaf_refusal_depends_on_order:
  assumes "pipe_results env = (None, None)" "fds_mapped env" "spawn_result env = Inr (Some 7)"
    and "wire_results env = (None, None)" "probe_sent env = None"
    and "str_contains (joined (collect_stderr (stderr_items env) [])) enter_leaf_failure_marker"
  shows "\<exists>e1 e2. fst (launch J (env\<lparr>probe_events := [ChildExited status, Received (Inl c)]\<rparr>) spec) = Inl e1 \<and>
     fst (launch J (env\<lparr>probe_events := [Received (Inl c), ChildExited status]\<rparr>) spec) = Inl e2 \<and>
     is_cgroup_enter_failure e1 \<and> \<not> is_cgroup_enter_failure e2"
  using assms by (simp add: launch_def probe_ready_def wire_pipe_def Let_def)

text \<open>One line that is too long ends the collection: what the browser says after it, for example that its sandbox failed, is lost.\<close>

lemma long_line_ends_collection:
  "collect_stderr (map Some lines @ None # items) tail = collect_stderr (map Some lines) tail"
  by (induction lines arbitrary: tail) simp_all

end
