(* ===== verification/Capacity.thy ===== *)
theory Capacity
  imports Rust_Str
begin

text \<open>
  \<^verbatim>\<open>src/capacity.rs\<close>: how many sessions the host can hold, on 64-bit words as the code has them. The
  contents of the cgroup and procfs files are arguments (\<open>None\<close> when a file cannot be read).
\<close>

section \<open>Definitions\<close>

record host_limits =
  mem_ceiling_bytes :: "u64 option"
  pids_max :: "u64 option"
  cpus :: u32

record session_footprint =
  fp_bytes :: u64
  fp_threads :: u64

record capacity =
  cap_max_sessions :: u32
  bound_by :: string

definition usable_num :: u64 where "usable_num = 4"
definition usable_den :: u64 where "usable_den = 5"
definition sessions_per_cpu :: u32 where "sessions_per_cpu = 2"
definition auto_ceiling :: u32 where "auto_ceiling = 256"

definition session_estimate :: session_footprint where
  "session_estimate = \<lparr>fp_bytes = 800 * 1024 * 1024, fp_threads = 160\<rparr>"

definition session_thread_reserve :: u64 where
  "session_thread_reserve = fp_threads session_estimate"

record thread_usage =
  current :: u64
  tu_max :: u64

definition headroom :: "thread_usage \<Rightarrow> u64" where
  "headroom t = sat_sub (tu_max t) (current t)"

definition fits_a_session :: "thread_usage \<Rightarrow> bool" where
  "fits_a_session t \<longleftrightarrow> session_thread_reserve \<le> headroom t"

definition thread_usage_of :: "u64 option \<Rightarrow> u64 option \<Rightarrow> thread_usage option" where
  "thread_usage_of mx cur =
     (case mx of
        None \<Rightarrow> None
      | Some m \<Rightarrow> (case cur of None \<Rightarrow> None | Some c \<Rightarrow> Some \<lparr>current = c, tu_max = m\<rparr>))"

definition consider_limit :: "u64 option \<Rightarrow> string \<Rightarrow> u64 \<times> string \<Rightarrow> u64 \<times> string" where
  "consider_limit value label best =
     (case value of Some v \<Rightarrow> if v < fst best then (v, label) else best | None \<Rightarrow> best)"

definition usable_over :: "u64 option \<Rightarrow> u64 \<Rightarrow> u64 option" where
  "usable_over limit cost =
     (case limit of
        None \<Rightarrow> None
      | Some l \<Rightarrow> if 0 < cost then Some (l div usable_den * usable_num div cost) else None)"

definition compute :: "host_limits \<Rightarrow> session_footprint option \<Rightarrow> capacity" where
  "compute limits footprint =
     (let cpu_bound = ucast (max (cpus limits) 1) * ucast sessions_per_cpu;
          fp = (case footprint of None \<Rightarrow> session_estimate | Some f \<Rightarrow> f);
          best0 = (cpu_bound, ''cpu'');
          best1 = consider_limit (usable_over (mem_ceiling_bytes limits) (fp_bytes fp)) ''memory'' best0;
          best2 = consider_limit (usable_over (pids_max limits) (fp_threads fp)) ''pids'' best1;
          (value, label) = best2;
          clamped = min (max value 1) (ucast auto_ceiling)
      in \<lparr>cap_max_sessions = (if unat clamped < 2 ^ 32 then ucast clamped else 1), bound_by = label\<rparr>)"

subsection \<open>Reading the limits\<close>

definition parse_u64 :: "string \<Rightarrow> u64 option" where
  "parse_u64 s = map_option of_nat (parse_uint u64_max s)"

definition parse_limit_file :: "string option \<Rightarrow> u64 option" where
  "parse_limit_file raw =
     (case raw of
        None \<Rightarrow> None
      | Some r \<Rightarrow> (let trimmed = trim r in if trimmed = ''max'' then None else parse_u64 trimmed))"

definition pids_current :: "string option \<Rightarrow> u64 option" where
  "pids_current raw = (case raw of None \<Rightarrow> None | Some r \<Rightarrow> parse_u64 (trim r))"

definition meminfo_total :: "string option \<Rightarrow> u64 option" where
  "meminfo_total raw =
     (case raw of
        None \<Rightarrow> None
      | Some r \<Rightarrow>
          (case find (\<lambda>l. starts_with l ''MemTotal:'') (str_lines r) of
             None \<Rightarrow> None
           | Some line \<Rightarrow>
               (let ws = split_whitespace line
                in if length ws \<le> 1 then None
                   else map_option (\<lambda>kb. sat_mul kb 1024) (parse_u64 (ws ! 1)))))"

definition mem_ceiling :: "string option \<Rightarrow> string option \<Rightarrow> u64 option" where
  "mem_ceiling memory_max meminfo =
     (case parse_limit_file memory_max of Some v \<Rightarrow> Some v | None \<Rightarrow> meminfo_total meminfo)"

definition probe_host ::
    "nat option \<Rightarrow> string option \<Rightarrow> string option \<Rightarrow> string option \<Rightarrow> host_limits" where
  "probe_host parallelism memory_max meminfo pids_max_file =
     (let n = (case parallelism of None \<Rightarrow> 1 | Some k \<Rightarrow> k)
      in \<lparr>mem_ceiling_bytes = mem_ceiling memory_max meminfo,
          pids_max = parse_limit_file pids_max_file,
          cpus = (if n < 2 ^ 32 then of_nat n else - 1)\<rparr>)"

section \<open>The ceiling\<close>

text \<open>The same limit over the natural numbers, without rounding the 80 percent down first.\<close>

definition fits :: "u64 option \<Rightarrow> u64 \<Rightarrow> nat \<Rightarrow> bool" where
  "fits limit cost n \<longleftrightarrow>
     (case limit of None \<Rightarrow> True | Some l \<Rightarrow> 5 * (n * unat cost) \<le> 4 * unat l)"

lemma unat_usable: "unat (l div usable_den * usable_num) = unat l div 5 * 4"
proof -
  have "unat l div 5 * 4 < 2 ^ 64"
    using unsigned_less [of l, where ?'a = nat] by simp
  then show ?thesis
    by (simp add: usable_den_def usable_num_def unat_word_ariths unat_div)
qed

lemma usable_over_fits:
  assumes "usable_over limit cost = Some v" "n \<le> unat v"
  shows "fits limit cost n"
proof -
  obtain l where l: "limit = Some l" "v = l div usable_den * usable_num div cost"
    using assms(1) by (auto simp: usable_over_def split: option.splits if_splits)
  have "n * unat cost \<le> unat v * unat cost" using assms(2) by simp
  also have "\<dots> \<le> unat l div 5 * 4"
    by (simp add: l(2) unat_div unat_usable)
  finally show ?thesis using l(1) by (simp add: fits_def)
qed

lemma consider_le:
  shows "fst (consider_limit v label best) \<le> fst best"
    and "v = Some w \<Longrightarrow> fst (consider_limit v label best) \<le> w"
  by (auto simp: consider_limit_def split: option.splits)

text \<open>The value that \<open>compute\<close> clamps.\<close>

definition raw_ceiling :: "host_limits \<Rightarrow> session_footprint \<Rightarrow> u64 \<times> string" where
  "raw_ceiling limits fp =
     consider_limit (usable_over (pids_max limits) (fp_threads fp)) ''pids''
       (consider_limit (usable_over (mem_ceiling_bytes limits) (fp_bytes fp)) ''memory''
          (ucast (max (cpus limits) 1) * ucast sessions_per_cpu, ''cpu''))"

lemma raw_ceiling_le:
  shows "unat (fst (raw_ceiling limits fp)) \<le> 2 * unat (max (cpus limits) 1)"
    and "usable_over (mem_ceiling_bytes limits) (fp_bytes fp) = Some m \<Longrightarrow> fst (raw_ceiling limits fp) \<le> m"
    and "usable_over (pids_max limits) (fp_threads fp) = Some k \<Longrightarrow> fst (raw_ceiling limits fp) \<le> k"
proof -
  let ?c = "ucast (max (cpus limits) 1) * ucast sessions_per_cpu :: u64"
  have le: "fst (raw_ceiling limits fp) \<le> ?c"
    unfolding raw_ceiling_def
    by (rule order_trans [OF consider_le(1)], rule order_trans [OF consider_le(1)]) simp
  have lt: "unat (max (cpus limits) 1) < 2 ^ 32"
    using unsigned_less [of "max (cpus limits) 1", where ?'a = nat] by simp
  have "unat ?c = 2 * unat (max (cpus limits) 1)"
    using lt by (simp add: sessions_per_cpu_def unat_word_ariths unsigned_ucast_eq take_bit_nat_eq_self)
  then show "unat (fst (raw_ceiling limits fp)) \<le> 2 * unat (max (cpus limits) 1)"
    using le by (simp add: word_le_nat_alt)
  show "usable_over (mem_ceiling_bytes limits) (fp_bytes fp) = Some m \<Longrightarrow> fst (raw_ceiling limits fp) \<le> m"
    unfolding raw_ceiling_def by (rule order_trans [OF consider_le(1)], rule consider_le(2))
  show "usable_over (pids_max limits) (fp_threads fp) = Some k \<Longrightarrow> fst (raw_ceiling limits fp) \<le> k"
    unfolding raw_ceiling_def by (rule consider_le(2))
qed

lemma unat_compute:
  "unat (cap_max_sessions (compute limits footprint)) =
     min (max (unat (fst (raw_ceiling limits
       (case footprint of None \<Rightarrow> session_estimate | Some f \<Rightarrow> f)))) 1) 256"
proof -
  have "unat (min (max v 1) (ucast auto_ceiling) :: u64) = min (max (unat v) 1) 256" for v :: u64
    by (auto simp: auto_ceiling_def min_def max_def word_le_nat_alt)
  moreover have "min (max x (Suc 0)) 256 < 4294967296" for x
    by (simp add: min_less_iff_disj)
  ultimately show ?thesis
    by (simp add: compute_def raw_ceiling_def Let_def split_beta unsigned_ucast_eq take_bit_nat_eq_self)
qed

lemma fits_raw:
  assumes "n \<le> unat (fst (raw_ceiling limits fp))"
  shows "fits (mem_ceiling_bytes limits) (fp_bytes fp) n" "fits (pids_max limits) (fp_threads fp) n"
proof -
  have none: "fits l c n" if "usable_over l c = None" for l c
    using that by (auto simp: usable_over_def fits_def word_gt_0 split: option.splits if_splits)
  have some: "fits l c n" if "usable_over l c = Some v" "fst (raw_ceiling limits fp) \<le> v" for l c v
    using that assms by (auto simp: word_le_nat_alt intro: usable_over_fits)
  show "fits (mem_ceiling_bytes limits) (fp_bytes fp) n"
    using none some raw_ceiling_le(2) by (cases "usable_over (mem_ceiling_bytes limits) (fp_bytes fp)") auto
  show "fits (pids_max limits) (fp_threads fp) n"
    using none some raw_ceiling_le(3) by (cases "usable_over (pids_max limits) (fp_threads fp)") auto
qed

text \<open>
  The automatic ceiling is safe. It is between 1 and 256, at most two sessions per CPU,
  and, unless it is the minimum of one, that many sessions of the measured (or, before any
  measurement, estimated) size fit in 80 percent of the memory limit and of the thread limit.
\<close>

theorem capacity_is_safe:
  "let fp = (case footprint of None \<Rightarrow> session_estimate | Some f \<Rightarrow> f);
       n = unat (cap_max_sessions (compute limits footprint))
   in 1 \<le> n \<and> n \<le> 256 \<and> n \<le> 2 * unat (max (cpus limits) 1) \<and>
      bound_by (compute limits footprint) \<in> {''cpu'', ''memory'', ''pids''} \<and>
      (n = 1 \<or> fits (mem_ceiling_bytes limits) (fp_bytes fp) n \<and>
               fits (pids_max limits) (fp_threads fp) n)"
proof -
  let ?fp = "case footprint of None \<Rightarrow> session_estimate | Some f \<Rightarrow> f"
  let ?n = "unat (cap_max_sessions (compute limits footprint))"
  have cpu: "1 \<le> unat (max (cpus limits) 1)"
    by (simp add: max_def word_le_nat_alt)
  have label: "bound_by (compute limits footprint) \<in> {''cpu'', ''memory'', ''pids''}"
    by (auto simp: compute_def consider_limit_def Let_def split: option.splits)
  have "?n = 1 \<or> ?n \<le> unat (fst (raw_ceiling limits ?fp))"
    unfolding unat_compute by (auto simp: min_def max_def)
  then have "?n = 1 \<or> fits (mem_ceiling_bytes limits) (fp_bytes ?fp) ?n \<and> fits (pids_max limits) (fp_threads ?fp) ?n"
    using fits_raw by blast
  moreover have "1 \<le> ?n \<and> ?n \<le> 256 \<and> ?n \<le> 2 * unat (max (cpus limits) 1)"
    using raw_ceiling_le(1) [of limits ?fp] cpu unfolding unat_compute by linarith
  ultimately show ?thesis using label unfolding Let_def by blast
qed

end
