(* ===== verification/Factory.thy ===== *)
theory Factory
  imports Launch Capacity
begin

text \<open>
  \<^verbatim>\<open>src/factory.rs\<close> and the leaf handling of \<^verbatim>\<open>src/linux/cgroup.rs\<close>: creating and destroying sessions.
  The factory's flags are its state. A browser launch is an argument (a function of the launch
  specification, so a second attempt with other settings may end differently); what happens to
  directories and cgroup leaves is returned as a list of effects.
\<close>

section \<open>State\<close>

datatype kill_tier = CgroupKill | Killpg
datatype memcap_tier = MemCgroup | RssPoll | MemNone
datatype profile_tier = Overlay | Reflink | TmpfsCopy | PlainCopy

record tiers =
  kill :: kill_tier
  memcap :: memcap_tier
  profile :: profile_tier
  tier_notes :: "string list"

record factory =
  f_executable :: string
  config_no_sandbox :: bool
  require_sandbox :: bool
  sandbox_disabled :: bool
  sandbox_blocked :: bool
  f_disable_dev_shm :: bool
  f_extra_flags :: "string list"
  f_launch_timeout :: nat
  f_max_frame_bytes :: nat
  memory_max_bytes :: nat
  cpu_percent :: nat
  f_pids_max :: nat
  f_tiers :: tiers
  cached_version :: "browser_version option"
  template_dir :: "string list option"
  footprint :: "session_footprint option"
  cgroup_base :: "string option"
  leaf_seq :: nat
  leaf_enter_blocked :: bool

text \<open>
  The values of the configuration that the factory keeps, and what the environment answers while it
  is built: the size of /dev/shm, the browser's version, the cgroup base.
\<close>

record chrome_config =
  cc_no_sandbox :: bool
  cc_require_sandbox :: bool
  cc_stealth :: bool
  cc_extra_flags :: "string list"
  cc_launch_timeout_ms :: nat
  cc_max_frame_bytes :: nat
  cc_memory_max_mb :: nat
  cc_cpu_percent :: nat
  cc_pids_max :: nat

definition factory_new ::
    "chrome_config \<Rightarrow> string \<Rightarrow> tiers \<Rightarrow> (u64 \<times> u64) option \<Rightarrow> nat option \<Rightarrow> string option \<Rightarrow> factory" where
  "factory_new config exe t shm major base =
     \<lparr>f_executable = exe,
      config_no_sandbox = cc_no_sandbox config,
      require_sandbox = cc_require_sandbox config,
      sandbox_disabled = cc_no_sandbox config,
      sandbox_blocked = False,
      f_disable_dev_shm = small_dev_shm shm,
      f_extra_flags = launch_extra_flags (cc_stealth config) major (cc_extra_flags config),
      f_launch_timeout = cc_launch_timeout_ms config,
      f_max_frame_bytes = cc_max_frame_bytes config,
      memory_max_bytes = min (cc_memory_max_mb config * (1024 * 1024)) u64_max,
      cpu_percent = cc_cpu_percent config,
      f_pids_max = cc_pids_max config,
      f_tiers = t,
      cached_version = None,
      template_dir = None,
      footprint = None,
      cgroup_base = (if memcap t = MemCgroup then base else None),
      leaf_seq = 0,
      leaf_enter_blocked = False\<rparr>"

definition note_version :: "browser_version \<Rightarrow> factory \<Rightarrow> factory" where
  "note_version v f = f\<lparr>cached_version := Some v\<rparr>"

section \<open>Launching a browser\<close>

definition launch_spec :: "factory \<Rightarrow> string \<Rightarrow> string option \<Rightarrow> string list \<Rightarrow> launch_spec" where
  "launch_spec f udd leaf flags =
     \<lparr>executable = f_executable f, ls_user_data_dir = udd, ls_no_sandbox = sandbox_disabled f,
      ls_disable_dev_shm = f_disable_dev_shm f, extra_flags = flags,
      launch_timeout = f_launch_timeout f, max_frame_bytes = f_max_frame_bytes f,
      cgroup_leaf = leaf\<rparr>"

text \<open>\<^verbatim>\<open>launch_browser\<close>: the result, the factory, and the specifications that were tried, in order.\<close>

definition launch_browser ::
    "(launch_spec \<Rightarrow> launch_error + browser) \<Rightarrow> string \<Rightarrow> string option \<Rightarrow> string list \<Rightarrow> factory
     \<Rightarrow> (launch_error + browser) \<times> factory \<times> launch_spec list" where
  "launch_browser launch0 udd leaf flags f =
     (let sandboxed = \<not> sandbox_disabled f;
          spec = launch_spec f udd leaf flags
      in case launch0 spec of
           Inr b \<Rightarrow> (Inr b, f, [spec])
         | Inl e \<Rightarrow>
             (if sandboxed \<and> is_sandbox_failure e then
                (let f1 = f\<lparr>sandbox_blocked := True\<rparr>
                 in if require_sandbox f then (Inl e, f1, [spec])
                    else
                      (let f2 = f1\<lparr>sandbox_disabled := True\<rparr>;
                           spec2 = launch_spec f2 udd leaf flags
                       in (launch0 spec2, f2, [spec, spec2])))
              else (Inl e, f, [spec])))"

definition sandbox_required_but_unavailable :: "factory \<Rightarrow> bool" where
  "sandbox_required_but_unavailable f \<longleftrightarrow> require_sandbox f \<and> sandbox_blocked f"

definition sandbox_state :: "factory \<Rightarrow> string" where
  "sandbox_state f =
     (if sandbox_required_but_unavailable f
      then ''on (required, but host blocks it: refusing sessions)''
      else if sandbox_disabled f
      then (if config_no_sandbox f then ''off (config)''
            else ''off (auto-fallback: host blocks the sandbox)'')
      else if require_sandbox f then ''on (required)'' else ''on'')"

section \<open>Leaves\<close>

definition cpu_period_micros :: nat where "cpu_period_micros = 100000"

definition cpu_max_value :: "nat \<Rightarrow> string" where
  "cpu_max_value percent =
     (if percent = 0 then ''max '' @ show_nat cpu_period_micros
      else show_nat (percent * cpu_period_micros div 100) @ '' '' @ show_nat cpu_period_micros)"

definition limit_value :: "nat \<Rightarrow> string" where
  "limit_value n = (if n = 0 then ''max'' else show_nat n)"

datatype effect =
    LeafCreated string
  | LeafWritten string string string
  | LeafDestroyed string
  | DirsRemoved string

definition leaf_name :: "nat \<Rightarrow> nat \<Rightarrow> string" where
  "leaf_name own_pid n = ''session-'' @ show_nat own_pid @ ''-'' @ show_nat n"

text \<open>\<^verbatim>\<open>prepare_leaf\<close>: \<open>created\<close> is whether the directory could be made.\<close>

definition prepare_leaf :: "nat \<Rightarrow> bool \<Rightarrow> factory \<Rightarrow> string option \<times> factory \<times> effect list" where
  "prepare_leaf own_pid created f =
     (if leaf_enter_blocked f then (None, f, [])
      else
        (case cgroup_base f of
           None \<Rightarrow> (None, f, [])
         | Some base \<Rightarrow>
             (let leaf = base @ ''/'' @ leaf_name own_pid (leaf_seq f);
                  f1 = f\<lparr>leaf_seq := leaf_seq f + 1\<rparr>
              in if \<not> created then (None, f1, [])
                 else
                   (Some leaf, f1,
                    [LeafCreated leaf] @
                    (if 0 < memory_max_bytes f
                     then [LeafWritten leaf ''memory.max'' (limit_value (memory_max_bytes f))] else []) @
                    (if 0 < cpu_percent f
                     then [LeafWritten leaf ''cpu.max'' (cpu_max_value (cpu_percent f))] else []) @
                    (if 0 < f_pids_max f
                     then [LeafWritten leaf ''pids.max'' (limit_value (f_pids_max f))] else [])))))"

definition destroy_cgroup :: "string option \<Rightarrow> effect list" where
  "destroy_cgroup cg = (case cg of None \<Rightarrow> [] | Some leaf \<Rightarrow> [LeafDestroyed leaf])"

section \<open>Sessions\<close>

record chrome_session =
  browser :: browser
  dirs :: string
  cgroup :: "string option"
  monitor :: bool
  relay :: "string option"

definition spawn_soft_cap :: "bool \<Rightarrow> factory \<Rightarrow> bool" where
  "spawn_soft_cap has_cgroup f = (\<not> (memory_max_bytes f = 0 \<or> has_cgroup))"

text \<open>The monitor's loop over the readings of the tree's memory: whether it kills the session.\<close>

fun soft_cap_poll :: "nat \<Rightarrow> nat option list \<Rightarrow> bool" where
  "soft_cap_poll cap [] = False"
| "soft_cap_poll cap (None # rs) = False"
| "soft_cap_poll cap (Some rss # rs) = (if cap < rss then True else soft_cap_poll cap rs)"

definition launch_session ::
    "(launch_spec \<Rightarrow> launch_error + browser) \<Rightarrow> (launch_error \<Rightarrow> string) \<Rightarrow> nat \<Rightarrow> bool \<Rightarrow> string
     \<Rightarrow> string option \<Rightarrow> factory
     \<Rightarrow> (string + chrome_session) \<times> factory \<times> launch_spec list \<times> effect list" where
  "launch_session launch0 show_error own_pid created udd relay0 f =
     (let flags = f_extra_flags f @ (case relay0 of None \<Rightarrow> [] | Some r \<Rightarrow> session_proxy_flags r);
          (leaf, f1, fx1) = prepare_leaf own_pid created f;
          (launched, f2, tried) = launch_browser launch0 udd leaf flags f1;
          blocked = (leaf \<noteq> None \<and> (case launched of Inl e \<Rightarrow> is_cgroup_enter_failure e | Inr _ \<Rightarrow> False));
          (launched, f3, tried2, leaf2, fx2) =
            (if blocked
             then (case launch_browser launch0 udd None flags (f2\<lparr>leaf_enter_blocked := True\<rparr>) of
                     (l, f', t) \<Rightarrow> (l, f', t, None, destroy_cgroup leaf))
             else (launched, f2, [], leaf, []))
      in case launched of
           Inl e \<Rightarrow>
             (Inl (show_error e), f3, tried @ tried2, fx1 @ fx2 @ destroy_cgroup leaf2 @ [DirsRemoved udd])
         | Inr b \<Rightarrow>
             (Inr \<lparr>browser = b, dirs = udd, cgroup = leaf2, monitor = spawn_soft_cap (leaf2 \<noteq> None) f3,
                   relay = relay0\<rparr>,
              note_version (version b) f3, tried @ tried2, fx1 @ fx2))"

text \<open>\<^verbatim>\<open>kill_session\<close>: the leaf is killed and removed first, then the browser is taken down.\<close>

definition kill_session ::
    "wait_result \<Rightarrow> wait_result \<Rightarrow> wait_result \<Rightarrow> chrome_session \<Rightarrow> string \<times> signal list \<times> effect list" where
  "kill_session close_wait term_wait kill_wait s =
     (let fx = destroy_cgroup (cgroup s);
          (_, sigs) = teardown close_wait term_wait kill_wait (browser s)
      in (dirs s, sigs, fx))"

definition destroy ::
    "wait_result \<Rightarrow> wait_result \<Rightarrow> wait_result \<Rightarrow> chrome_session \<Rightarrow> signal list \<times> effect list" where
  "destroy close_wait term_wait kill_wait s =
     (case kill_session close_wait term_wait kill_wait s of
        (d, sigs, fx) \<Rightarrow> (sigs, fx @ [DirsRemoved d]))"

definition create_proxied ::
    "(launch_spec \<Rightarrow> launch_error + browser) \<Rightarrow> (launch_error \<Rightarrow> string) \<Rightarrow> nat \<Rightarrow> bool \<Rightarrow> string + string
     \<Rightarrow> string \<Rightarrow> factory
     \<Rightarrow> (string + chrome_session) \<times> factory \<times> launch_spec list \<times> effect list" where
  "create_proxied launch0 show_error own_pid created provisioned r f =
     (case provisioned of
        Inl e \<Rightarrow> (Inl e, f, [], [])
      | Inr udd \<Rightarrow> launch_session launch0 show_error own_pid created udd (Some r) f)"

definition create ::
    "(launch_spec \<Rightarrow> launch_error + browser) \<Rightarrow> (launch_error \<Rightarrow> string) \<Rightarrow> nat \<Rightarrow> bool \<Rightarrow> string + string
     \<Rightarrow> factory \<Rightarrow> (string + chrome_session) \<times> factory \<times> launch_spec list \<times> effect list" where
  "create launch0 show_error own_pid created provisioned f =
     (case provisioned of
        Inl e \<Rightarrow> (Inl e, f, [], [])
      | Inr udd \<Rightarrow> launch_session launch0 show_error own_pid created udd None f)"

text \<open>\<open>seeded\<close> is what extracting the profile's files into the directory returned.\<close>

definition create_seeded ::
    "(launch_spec \<Rightarrow> launch_error + browser) \<Rightarrow> (launch_error \<Rightarrow> string) \<Rightarrow> nat \<Rightarrow> bool \<Rightarrow> string + string
     \<Rightarrow> bool \<Rightarrow> string option \<Rightarrow> string option \<Rightarrow> factory
     \<Rightarrow> (string + chrome_session) \<times> factory \<times> launch_spec list \<times> effect list" where
  "create_seeded launch0 show_error own_pid created provisioned has_files seed_error r f =
     (case provisioned of
        Inl e \<Rightarrow> (Inl e, f, [], [])
      | Inr udd \<Rightarrow>
          (case (if has_files then seed_error else None) of
             Some e \<Rightarrow> (Inl e, f, [], [DirsRemoved udd])
           | None \<Rightarrow> launch_session launch0 show_error own_pid created udd r f))"

definition browser_key :: "browser_version \<Rightarrow> string" where
  "browser_key v =
     (let p = filter (\<lambda>c. is_ascii_alphanumeric c \<or> c = CHR ''.'' \<or> c = CHR ''-'')
                (map (\<lambda>c. if c = CHR ''/'' then CHR ''-'' else c) (product v))
      in if p = [] then ''chrome-unknown'' else to_ascii_lowercase p)"

section \<open>Properties\<close>

lemma launch_browser_keeps:
  assumes "launch_browser launch0 udd leaf flags f = (r, f', tried)"
  shows "require_sandbox f' = require_sandbox f \<and> memory_max_bytes f' = memory_max_bytes f \<and>
         (sandbox_disabled f' \<longrightarrow> sandbox_disabled f \<or> \<not> require_sandbox f) \<and>
         length tried \<le> 2 \<and>
         (require_sandbox f \<and> \<not> sandbox_disabled f \<longrightarrow> list_all (\<lambda>s. \<not> ls_no_sandbox s) tried) \<and>
         list_all (\<lambda>s. extra_flags s = flags \<and> cgroup_leaf s = leaf) tried"
  using assms
  by (auto simp: launch_browser_def launch_spec_def Let_def split: sum.splits if_splits)

lemma prepare_leaf_keeps:
  assumes "prepare_leaf own_pid created f = (leaf, f', fx)"
  shows "require_sandbox f' = require_sandbox f \<and> sandbox_disabled f' = sandbox_disabled f \<and>
         memory_max_bytes f' = memory_max_bytes f \<and> f_extra_flags f' = f_extra_flags f"
  using assms by (auto simp: prepare_leaf_def Let_def split: if_splits option.splits)

lemma launch_session_cases:
  assumes "launch_session launch0 show_error own_pid created udd r f = (res, f', tried, fx)"
  obtains leaf f1 fx1 l1 f2 t1 l2 t2 leaf2 fx2 f3 where
    "prepare_leaf own_pid created f = (leaf, f1, fx1)"
    "launch_browser launch0 udd leaf (f_extra_flags f @ (case r of None \<Rightarrow> [] | Some r \<Rightarrow> session_proxy_flags r)) f1
       = (l1, f2, t1)"
    "leaf2 = leaf \<and> fx2 = [] \<and> l2 = l1 \<and> f3 = f2 \<and> t2 = [] \<or>
     leaf2 = None \<and> fx2 = destroy_cgroup leaf \<and>
       launch_browser launch0 udd None
         (f_extra_flags f @ (case r of None \<Rightarrow> [] | Some r \<Rightarrow> session_proxy_flags r))
         (f2\<lparr>leaf_enter_blocked := True\<rparr>) = (l2, f3, t2)"
    "tried = t1 @ t2"
    "case l2 of
       Inl e \<Rightarrow> res = Inl (show_error e) \<and> f' = f3 \<and> fx = fx1 @ fx2 @ destroy_cgroup leaf2 @ [DirsRemoved udd]
     | Inr b \<Rightarrow> res = Inr \<lparr>browser = b, dirs = udd, cgroup = leaf2,
                          monitor = spawn_soft_cap (leaf2 \<noteq> None) f3, relay = r\<rparr> \<and>
              f' = note_version (version b) f3 \<and> fx = fx1 @ fx2"
proof -
  obtain leaf f1 fx1 where p: "prepare_leaf own_pid created f = (leaf, f1, fx1)"
    by (cases "prepare_leaf own_pid created f")
  let ?flags = "f_extra_flags f @ (case r of None \<Rightarrow> [] | Some r \<Rightarrow> session_proxy_flags r)"
  obtain l1 f2 t1 where l1: "launch_browser launch0 udd leaf ?flags f1 = (l1, f2, t1)"
    by (cases "launch_browser launch0 udd leaf ?flags f1")
  obtain l2' f3' t2' where l2: "launch_browser launch0 udd None ?flags (f2\<lparr>leaf_enter_blocked := True\<rparr>) = (l2', f3', t2')"
    by (cases "launch_browser launch0 udd None ?flags (f2\<lparr>leaf_enter_blocked := True\<rparr>)")
  show thesis
  proof (cases "leaf \<noteq> None \<and> (case l1 of Inl e \<Rightarrow> is_cgroup_enter_failure e | Inr _ \<Rightarrow> False)")
    case True
    then show ?thesis
      using assms p l1 l2 by (intro that [OF p l1, of None "destroy_cgroup leaf" l2' f3' t2'])
        (auto simp: launch_session_def Let_def split: sum.splits)
  next
    case False
    then show ?thesis
      using assms p l1 by (intro that [OF p l1, of leaf "[]" l1 f2 "[]"])
        (auto simp: launch_session_def Let_def split: sum.splits)
  qed
qed

text \<open>Launches one after another, each in its own environment, with the specifications tried.\<close>

record launch_call =
  lc_launch :: "launch_spec \<Rightarrow> launch_error + browser"
  lc_created :: bool
  lc_dir :: string
  lc_relay :: "string option"

fun launch_sessions :: "nat \<Rightarrow> launch_call list \<Rightarrow> factory \<Rightarrow> launch_spec list \<times> factory" where
  "launch_sessions own_pid [] f = ([], f)"
| "launch_sessions own_pid (c # cs) f =
     (case launch_session (lc_launch c) (\<lambda>_. []) own_pid (lc_created c) (lc_dir c) (lc_relay c) f of
        (res, f1, tried, fx) \<Rightarrow>
          (let (more, f2) = launch_sessions own_pid cs f1 in (tried @ more, f2)))"

lemma launch_session_sandbox:
  assumes "launch_session launch0 show_error own_pid created udd r f = (res, f', tried, fx)"
    and "require_sandbox f" "\<not> sandbox_disabled f"
  shows "list_all (\<lambda>s. \<not> ls_no_sandbox s) tried \<and> require_sandbox f' \<and> \<not> sandbox_disabled f'"
  using assms(1)
proof (rule launch_session_cases)
  fix leaf f1 fx1 l1 f2 t1 l2 t2 leaf2 fx2 f3
  let ?flags = "f_extra_flags f @ (case r of None \<Rightarrow> [] | Some r \<Rightarrow> session_proxy_flags r)"
  assume p: "prepare_leaf own_pid created f = (leaf, f1, fx1)"
    and l1: "launch_browser launch0 udd leaf ?flags f1 = (l1, f2, t1)"
    and l2: "leaf2 = leaf \<and> fx2 = [] \<and> l2 = l1 \<and> f3 = f2 \<and> t2 = [] \<or>
     leaf2 = None \<and> fx2 = destroy_cgroup leaf \<and>
       launch_browser launch0 udd None ?flags (f2\<lparr>leaf_enter_blocked := True\<rparr>) = (l2, f3, t2)"
    and t: "tried = t1 @ t2"
    and e: "case l2 of
       Inl e \<Rightarrow> res = Inl (show_error e) \<and> f' = f3 \<and> fx = fx1 @ fx2 @ destroy_cgroup leaf2 @ [DirsRemoved udd]
     | Inr b \<Rightarrow> res = Inr \<lparr>browser = b, dirs = udd, cgroup = leaf2,
                          monitor = spawn_soft_cap (leaf2 \<noteq> None) f3, relay = r\<rparr> \<and>
              f' = note_version (version b) f3 \<and> fx = fx1 @ fx2"
  have one: "list_all (\<lambda>s. \<not> ls_no_sandbox s) t1" "require_sandbox f2" "\<not> sandbox_disabled f2"
    using launch_browser_keeps [OF l1] prepare_leaf_keeps [OF p] assms(2,3) by auto
  have two: "list_all (\<lambda>s. \<not> ls_no_sandbox s) t2 \<and> require_sandbox f3 \<and> \<not> sandbox_disabled f3"
    using l2
  proof
    assume "leaf2 = None \<and> fx2 = destroy_cgroup leaf \<and>
       launch_browser launch0 udd None ?flags (f2\<lparr>leaf_enter_blocked := True\<rparr>) = (l2, f3, t2)"
    then have "launch_browser launch0 udd None ?flags (f2\<lparr>leaf_enter_blocked := True\<rparr>) = (l2, f3, t2)" by simp
    from launch_browser_keeps [OF this] one show ?thesis by auto
  qed (use one in simp)
  show ?thesis
    using one two t e by (auto simp: note_version_def split: sum.splits)
qed


definition demo_config :: chrome_config where
  "demo_config = \<lparr>cc_no_sandbox = False, cc_require_sandbox = True, cc_stealth = False, cc_extra_flags = [],
     cc_launch_timeout_ms = 1000, cc_max_frame_bytes = 1000, cc_memory_max_mb = 512, cc_cpu_percent = 0,
     cc_pids_max = 0\<rparr>"

definition demo_tiers :: tiers where
  "demo_tiers = \<lparr>kill = Killpg, memcap = MemCgroup, profile = PlainCopy, tier_notes = []\<rparr>"


lemma prepare_leaf_created:
  "prepare_leaf own_pid created f = (leaf, f1, fx1) \<Longrightarrow>
   (LeafCreated l \<in> set fx1 \<longleftrightarrow> leaf = Some l) \<and> LeafDestroyed l \<notin> set fx1"
  by (auto simp: prepare_leaf_def Let_def split: if_splits option.splits)

lemma launch_session_outcome:
  assumes "launch_session launch0 show_error own_pid created udd r f = (res, f', tried, fx)"
  obtains f1 f3 fx1 fx2 leaf leaf2 l2 where
    "prepare_leaf own_pid created f = (leaf, f1, fx1)"
    "leaf2 = leaf \<and> fx2 = [] \<or> leaf2 = None \<and> fx2 = destroy_cgroup leaf"
    "memory_max_bytes f3 = memory_max_bytes f"
    "case l2 of
       Inl e \<Rightarrow> res = Inl (show_error e) \<and> fx = fx1 @ fx2 @ destroy_cgroup leaf2 @ [DirsRemoved udd]
     | Inr b \<Rightarrow> res = Inr \<lparr>browser = b, dirs = udd, cgroup = leaf2,
                          monitor = spawn_soft_cap (leaf2 \<noteq> None) f3, relay = r\<rparr> \<and> fx = fx1 @ fx2"
  using assms
proof (rule launch_session_cases)
  fix leaf f1 fx1 l1 f2 t1 l2 t2 leaf2 fx2 f3
  let ?flags = "f_extra_flags f @ (case r of None \<Rightarrow> [] | Some r \<Rightarrow> session_proxy_flags r)"
  assume p: "prepare_leaf own_pid created f = (leaf, f1, fx1)"
    and l1: "launch_browser launch0 udd leaf ?flags f1 = (l1, f2, t1)"
    and l2: "leaf2 = leaf \<and> fx2 = [] \<and> l2 = l1 \<and> f3 = f2 \<and> t2 = [] \<or>
     leaf2 = None \<and> fx2 = destroy_cgroup leaf \<and>
       launch_browser launch0 udd None ?flags (f2\<lparr>leaf_enter_blocked := True\<rparr>) = (l2, f3, t2)"
    and e: "case l2 of
       Inl e \<Rightarrow> res = Inl (show_error e) \<and> f' = f3 \<and> fx = fx1 @ fx2 @ destroy_cgroup leaf2 @ [DirsRemoved udd]
     | Inr b \<Rightarrow> res = Inr \<lparr>browser = b, dirs = udd, cgroup = leaf2,
                          monitor = spawn_soft_cap (leaf2 \<noteq> None) f3, relay = r\<rparr> \<and>
              f' = note_version (version b) f3 \<and> fx = fx1 @ fx2"
  have "memory_max_bytes f2 = memory_max_bytes f"
    using launch_browser_keeps [OF l1] prepare_leaf_keeps [OF p] by simp
  then have "memory_max_bytes f3 = memory_max_bytes f"
    using l2 by (auto dest: launch_browser_keeps)
  moreover have "leaf2 = leaf \<and> fx2 = [] \<or> leaf2 = None \<and> fx2 = destroy_cgroup leaf"
    using l2 by blast
  ultimately show thesis
    using that [OF p, of leaf2 fx2 f3 l2] e by (auto split: sum.splits)
qed

text \<open>
  A session's resources are accounted for. When a launch fails, the leaf it created (if
  any) is destroyed and its directory removed; when it succeeds, the leaf is either the session's or
  was destroyed on the fallback; and a configured memory cap is always enforced by the session's
  leaf or by a monitor, never by both.
\<close>

theorem launch_session_resources:
  assumes "launch_session launch0 show_error own_pid created udd r f = (res, f', tried, fx)"
  shows "case res of
           Inl e \<Rightarrow> DirsRemoved udd \<in> set fx \<and>
                    (\<forall>l. LeafCreated l \<in> set fx \<longleftrightarrow> LeafDestroyed l \<in> set fx)
         | Inr s \<Rightarrow> dirs s = udd \<and> DirsRemoved udd \<notin> set fx \<and>
                    (\<forall>l. LeafCreated l \<in> set fx \<longleftrightarrow> (LeafDestroyed l \<in> set fx \<or> cgroup s = Some l)) \<and>
                    (\<forall>l. LeafDestroyed l \<in> set fx \<longrightarrow> cgroup s = None) \<and>
                    (0 < memory_max_bytes f \<longrightarrow> (monitor s \<longleftrightarrow> cgroup s = None))"
proof (rule launch_session_outcome [OF assms])
  fix f1 f3 fx1 fx2 leaf leaf2 l2
  assume p: "prepare_leaf own_pid created f = (leaf, f1, fx1)"
    and leaves: "leaf2 = leaf \<and> fx2 = [] \<or> leaf2 = None \<and> fx2 = destroy_cgroup leaf"
    and mem: "memory_max_bytes f3 = memory_max_bytes f"
    and e: "case l2 of
       Inl e \<Rightarrow> res = Inl (show_error e) \<and> fx = fx1 @ fx2 @ destroy_cgroup leaf2 @ [DirsRemoved udd]
     | Inr b \<Rightarrow> res = Inr \<lparr>browser = b, dirs = udd, cgroup = leaf2,
                          monitor = spawn_soft_cap (leaf2 \<noteq> None) f3, relay = r\<rparr> \<and> fx = fx1 @ fx2"
  have dirs: "DirsRemoved udd \<notin> set fx1"
    using p by (auto simp: prepare_leaf_def Let_def split: if_splits option.splits)
  note made = prepare_leaf_created [OF p]
  show ?thesis
  proof (cases l2)
    case (Inl e')
    then have "res = Inl (show_error e')" "fx = fx1 @ fx2 @ destroy_cgroup leaf2 @ [DirsRemoved udd]"
      using e by simp_all
    moreover have "set (fx2 @ destroy_cgroup leaf2) = set (destroy_cgroup leaf)"
      using leaves by (auto simp: destroy_cgroup_def)
    ultimately show ?thesis
      using made by (auto simp: destroy_cgroup_def split: option.splits)
  next
    case (Inr b)
    then have res: "res = Inr \<lparr>browser = b, dirs = udd, cgroup = leaf2,
        monitor = spawn_soft_cap (leaf2 \<noteq> None) f3, relay = r\<rparr>" "fx = fx1 @ fx2"
      using e by simp_all
    show ?thesis
      using leaves made dirs mem unfolding res
      by (elim disjE) (auto simp: destroy_cgroup_def spawn_soft_cap_def split: option.splits)
  qed
qed

lemma failed_launch:
  "\<exists>f' tried fx. launch_session (\<lambda>_. Inl (Spawn ''x'')) (\<lambda>_. ''no'') 7 True ''/d'' None f = (Inl ''no'', f', tried, fx)"
  by (auto simp: launch_session_def launch_browser_def is_sandbox_failure_def Let_def split: prod.splits)

theorem launch_session_resources_witness:
  "\<exists>f' tried fx. launch_session (\<lambda>_. Inl (Spawn ''x'')) (\<lambda>_. ''no'') 7 True ''/d'' None
       (factory_new demo_config ''chrome'' demo_tiers None None (Some ''/cg'')) = (Inl ''no'', f', tried, fx) \<and>
     DirsRemoved ''/d'' \<in> set fx \<and> (\<forall>l. LeafCreated l \<in> set fx \<longleftrightarrow> LeafDestroyed l \<in> set fx)"
proof -
  obtain f' tried fx where l: "launch_session (\<lambda>_. Inl (Spawn ''x'')) (\<lambda>_. ''no'') 7 True ''/d'' None
       (factory_new demo_config ''chrome'' demo_tiers None None (Some ''/cg'')) = (Inl ''no'', f', tried, fx)"
    using failed_launch by blast
  show ?thesis using launch_session_resources [OF l] l by auto
qed

end
