(* ===== verification/Lifecycle.thy ===== *)
theory Lifecycle
  imports Factory "HOL-Library.Multiset"
begin

text \<open>
  The trait \<^verbatim>\<open>SessionFactory\<close> of \<^verbatim>\<open>src/pool.rs\<close> as an interface, what everyone who creates sessions relies on, and
  \<^verbatim>\<open>src/factory.rs\<close> as its provider. The resources are the directories and the control group leaves.
\<close>

section \<open>Any sequence of creations and endings\<close>

datatype ('req, 'd) life_op = Begin 'req | End nat 'd

text \<open>Sessions are created as requested and ended in any order; \<open>End k d\<close> ends the k-th that lives, if there is one.\<close>

fun life ::
    "('req \<Rightarrow> 'f \<Rightarrow> ('err + 's) \<times> 'f \<times> 'e list) \<Rightarrow> ('d \<Rightarrow> 's \<Rightarrow> 'e list) \<Rightarrow> ('req, 'd) life_op list \<Rightarrow> 'f \<Rightarrow> 's list
     \<Rightarrow> 's list \<times> 'f \<times> 'e list" where
  "life create0 destroy0 [] f live = (live, f, [])"
| "life create0 destroy0 (Begin req # ops) f live =
     (case create0 req f of
        (r, f1, fx) \<Rightarrow>
          (case life create0 destroy0 ops f1 (case r of Inl e \<Rightarrow> live | Inr s \<Rightarrow> live @ [s]) of
             (live1, f2, fx1) \<Rightarrow> (live1, f2, fx @ fx1)))"
| "life create0 destroy0 (End k d # ops) f live =
     (if k < length live
      then (case life create0 destroy0 ops f (take k live @ drop (Suc k) live) of
              (live1, f1, fx1) \<Rightarrow> (live1, f1, destroy0 d (live ! k) @ fx1))
      else life create0 destroy0 ops f live)"

fun requests :: "('req, 'd) life_op list \<Rightarrow> 'req list" where
  "requests [] = []"
| "requests (Begin req # ops) = req # requests ops"
| "requests (End k d # ops) = requests ops"

text \<open>
  The interface: what a request brings with it (\<open>brings\<close>), what a session holds, and what the effects take and give
  back. A creation that fails gives everything back; one that succeeds keeps exactly what the session holds; ending a
  session gives exactly that back.
\<close>

locale session_factory =
  fixes create0 :: "'req \<Rightarrow> 'f \<Rightarrow> ('err + 's) \<times> 'f \<times> 'e list"
    and destroy0 :: "'d \<Rightarrow> 's \<Rightarrow> 'e list"
    and brings :: "'req \<Rightarrow> 'r multiset"
    and holds :: "'s \<Rightarrow> 'r multiset"
    and taken :: "'e list \<Rightarrow> 'r multiset"
    and given :: "'e list \<Rightarrow> 'r multiset"
  assumes taken_append: "taken (xs @ ys) = taken xs + taken ys"
    and given_append: "given (xs @ ys) = given xs + given ys"
    and none: "taken [] = {#}" "given [] = {#}"
    and create_failed: "create0 req f = (Inl e, f', fx) \<Longrightarrow> brings req + taken fx = given fx"
    and create_ok: "create0 req f = (Inr s, f', fx) \<Longrightarrow> brings req + taken fx = given fx + holds s"
    and destroyed: "taken (destroy0 d s) = {#}" "given (destroy0 d s) = holds s"
begin

lemma life_balance:
  "life create0 destroy0 ops f live = (live', f', fx) \<Longrightarrow>
   sum_list (map holds live) + sum_list (map brings (requests ops)) + taken fx = given fx + sum_list (map holds live')"
proof (induction ops arbitrary: f live fx)
  case Nil
  then show ?case by (simp add: none)
next
  case (Cons op ops)
  show ?case
  proof (cases op)
    case (Begin req)
    obtain r f1 fx0 where c: "create0 req f = (r, f1, fx0)" by (meson prod_cases3)
    let ?live = "case r of Inl e \<Rightarrow> live | Inr s \<Rightarrow> live @ [s]"
    obtain fx1 where l: "life create0 destroy0 ops f1 ?live = (live', f', fx1)" "fx = fx0 @ fx1"
      using Cons.prems Begin c by (auto split: prod.splits)
    have "brings req + taken fx0 + sum_list (map holds live) = given fx0 + sum_list (map holds ?live)"
      using c create_failed [of req f] create_ok [of req f] by (cases r) (auto simp: ac_simps)
    then show ?thesis
      using Cons.IH [OF l(1)] by (simp add: Begin l(2) taken_append given_append) (metis (no_types, lifting) add.assoc add.commute)
  next
    case (End k d)
    show ?thesis
    proof (cases "k < length live")
      case True
      obtain fx1 where l: "life create0 destroy0 ops f (take k live @ drop (Suc k) live) = (live', f', fx1)"
        "fx = destroy0 d (live ! k) @ fx1"
        using Cons.prems End True by (auto split: prod.splits)
      have "sum_list (map holds live) = holds (live ! k) + sum_list (map holds (take k live @ drop (Suc k) live))"
        by (subst id_take_nth_drop [OF True]) (simp add: ac_simps)
      then show ?thesis
        using Cons.IH [OF l(1)] by (simp add: End l(2) taken_append given_append destroyed ac_simps)
    next
      case False
      then show ?thesis using Cons End by simp
    qed
  qed
qed

text \<open>When no session lives any more, everything is given back.\<close>

lemma nothing_left:
  assumes "life create0 destroy0 ops f [] = ([], f', fx)"
  shows "given fx = sum_list (map brings (requests ops)) + taken fx"
  using life_balance [OF assms] by simp

end

section \<open>The factory\<close>

datatype resource = Dir string | Leaf string

text \<open>The three ways a session is asked for; \<open>Seeded\<close> carries whether there are files and the error of extracting them.\<close>

datatype session_kind = Plain | Proxied string | Seeded bool "string option" "string option"

record session_request =
  rq_launch :: "launch_spec \<Rightarrow> launch_error + browser"
  rq_created :: bool
  rq_provisioned :: "string + string"
  rq_kind :: session_kind

definition create_session ::
    "(launch_error \<Rightarrow> string) \<Rightarrow> nat \<Rightarrow> session_request \<Rightarrow> factory \<Rightarrow> (string + chrome_session) \<times> factory \<times> effect list" where
  "create_session show_error own_pid rq f =
     (case (case rq_kind rq of
              Plain \<Rightarrow> create (rq_launch rq) show_error own_pid (rq_created rq) (rq_provisioned rq) f
            | Proxied r \<Rightarrow> create_proxied (rq_launch rq) show_error own_pid (rq_created rq) (rq_provisioned rq) r f
            | Seeded has_files seed_error r \<Rightarrow>
                create_seeded (rq_launch rq) show_error own_pid (rq_created rq) (rq_provisioned rq) has_files seed_error r f) of
        (res, f1, tried, fx) \<Rightarrow> (res, f1, fx))"

text \<open>How the waits of a teardown end.\<close>

type_synonym waits = "wait_result \<times> wait_result \<times> wait_result"

definition destroy_effects :: "waits \<Rightarrow> chrome_session \<Rightarrow> effect list" where
  "destroy_effects ws s = (case ws of (close_wait, term_wait, kill_wait) \<Rightarrow> snd (destroy close_wait term_wait kill_wait s))"

definition session_resources :: "chrome_session \<Rightarrow> resource multiset" where
  "session_resources s = add_mset (Dir (dirs s)) (case cgroup s of None \<Rightarrow> {#} | Some l \<Rightarrow> {#Leaf l#})"

definition request_resources :: "session_request \<Rightarrow> resource multiset" where
  "request_resources rq = (case rq_provisioned rq of Inl e \<Rightarrow> {#} | Inr udd \<Rightarrow> {#Dir udd#})"

fun effect_taken :: "effect \<Rightarrow> resource multiset" where
  "effect_taken (LeafCreated l) = {#Leaf l#}"
| "effect_taken _ = {#}"

fun effect_given :: "effect \<Rightarrow> resource multiset" where
  "effect_given (LeafDestroyed l) = {#Leaf l#}"
| "effect_given (DirsRemoved d) = {#Dir d#}"
| "effect_given _ = {#}"

definition resources_taken :: "effect list \<Rightarrow> resource multiset" where
  "resources_taken fx = sum_list (map effect_taken fx)"

definition resources_given :: "effect list \<Rightarrow> resource multiset" where
  "resources_given fx = sum_list (map effect_given fx)"

lemmas resources_defs = resources_taken_def resources_given_def

lemma prepare_leaf_resources:
  "prepare_leaf own_pid created f = (leaf, f1, fx) \<Longrightarrow>
   resources_taken fx = (case leaf of None \<Rightarrow> {#} | Some l \<Rightarrow> {#Leaf l#}) \<and> resources_given fx = {#}"
  by (auto simp: prepare_leaf_def resources_defs Let_def split: if_splits option.splits)

lemma launch_session_balance:
  assumes "launch_session launch0 show_error own_pid created udd r f = (res, f', tried, fx)"
  shows "{#Dir udd#} + resources_taken fx =
     resources_given fx + (case res of Inl e \<Rightarrow> {#} | Inr s \<Rightarrow> session_resources s)"
proof (rule launch_session_outcome [OF assms])
  fix f1 f3 fx1 fx2 leaf leaf2 l2
  assume p: "prepare_leaf own_pid created f = (leaf, f1, fx1)"
    and leaves: "leaf2 = leaf \<and> fx2 = [] \<or> leaf2 = None \<and> fx2 = destroy_cgroup leaf"
    and e: "case l2 of
       Inl e \<Rightarrow> res = Inl (show_error e) \<and> fx = fx1 @ fx2 @ destroy_cgroup leaf2 @ [DirsRemoved udd]
     | Inr b \<Rightarrow> res = Inr \<lparr>browser = b, dirs = udd, cgroup = leaf2,
                          monitor = spawn_soft_cap (leaf2 \<noteq> None) f3, relay = r\<rparr> \<and> fx = fx1 @ fx2"
  show ?thesis
    using prepare_leaf_resources [OF p] leaves e
    by (auto simp: resources_defs destroy_cgroup_def session_resources_def split: sum.splits option.splits)
qed

interpretation chrome: session_factory "create_session show_error own_pid" destroy_effects request_resources
    session_resources resources_taken resources_given
  for show_error own_pid
proof
  have balance: "request_resources rq + resources_taken fx =
      resources_given fx + (case res of Inl e \<Rightarrow> {#} | Inr s \<Rightarrow> session_resources s)"
    if "create_session show_error own_pid rq f = (res, f', fx)" for rq f res f' fx
    using that launch_session_balance
    by (auto simp: create_session_def create_def create_proxied_def create_seeded_def request_resources_def resources_defs
        split: session_kind.splits sum.splits prod.splits option.splits if_splits) 
  show "request_resources req + resources_taken fx = resources_given fx"
    if "create_session show_error own_pid req f = (Inl e, f', fx)" for req f e f' fx
    using balance [OF that] by simp
  show "request_resources req + resources_taken fx = resources_given fx + session_resources s"
    if "create_session show_error own_pid req f = (Inr s, f', fx)" for req f s f' fx
    using balance [OF that] by simp
qed (auto simp: resources_defs destroy_effects_def destroy_def kill_session_def destroy_cgroup_def session_resources_def Let_def
    split: prod.splits option.splits)

section \<open>Nothing leaks\<close>

lemma in_sum_list: "x \<in># sum_list ms \<longleftrightarrow> (\<exists>m \<in> set ms. x \<in># m)"
  by (induction ms) auto

lemma effect_iff:
  "Leaf l \<in># effect_taken x \<longleftrightarrow> x = LeafCreated l" "Leaf l \<in># effect_given x \<longleftrightarrow> x = LeafDestroyed l"
  "Dir d \<in># effect_given x \<longleftrightarrow> x = DirsRemoved d" "Dir d \<notin># effect_taken x"
  by (cases x; auto)+

lemma resources_iff:
  "Leaf l \<in># resources_taken fx \<longleftrightarrow> LeafCreated l \<in> set fx" "Leaf l \<in># resources_given fx \<longleftrightarrow> LeafDestroyed l \<in> set fx"
  "Dir d \<in># resources_given fx \<longleftrightarrow> DirsRemoved d \<in> set fx" "Dir d \<notin># resources_taken fx"
  by (auto simp: resources_defs in_sum_list effect_iff)

lemma session_resources_iff:
  "Leaf l \<in># session_resources s \<longleftrightarrow> cgroup s = Some l" "Dir d \<in># session_resources s \<longleftrightarrow> dirs s = d"
  "Leaf l \<notin># request_resources rq" "Dir d \<in># request_resources rq \<longleftrightarrow> rq_provisioned rq = Inr d"
  by (auto simp: session_resources_def request_resources_def split: option.splits sum.splits)


definition demo_request :: "string \<Rightarrow> bool \<Rightarrow> session_request" where
  "demo_request d works =
     \<lparr>rq_launch = (\<lambda>spec. if works then Inr \<lparr>pid = 7, version = \<lparr>product = [], protocol_version = [], user_agent = [],
                     js_version = []\<rparr>, has_pipe = True\<rparr> else Inl (Spawn ''x'')),
      rq_created = True, rq_provisioned = Inr d, rq_kind = Plain\<rparr>"


end
