(* ===== verification/Fleet.thy ===== *)
theory Fleet
  imports Pool_Machine Lifecycle
begin

text \<open>
  The pool and the factory together: how many directories and leaves one instance has on its host. The steps of
  the pool are those of \<open>Pool_Machine\<close>; a step that brings a browser into the pool goes with a creation of the factory, one
  that destroys a browser with the factory's destruction. Beside the pool live the sessions with a profile, which
  \<^verbatim>\<open>src/server/ws.rs\<close> asks the factory for directly; they are called guests here.
\<close>

section \<open>State and steps\<close>

text \<open>
  \<open>fl_asked\<close> and \<open>fl_log\<close> are what the factory was asked for and did, \<open>fl_strays\<close> what was lost by futures that were dropped:
  a creation that is dropped half-way (counted by \<open>leaked\<close> in the pool and by \<open>fl_lost\<close> for a guest), or a guest whose
  connection was never upgraded, so that its task never starts and nothing destroys it.
\<close>

record 'q fleet =
  fl_pool :: "(chrome_session, 'q) sys"
  fl_factory :: factory
  fl_asked :: "session_request list"
  fl_log :: "effect list"
  fl_guests :: "chrome_session multiset"
  fl_lost :: nat
  fl_strays :: "resource multiset"

definition fleet_init :: "'q semaphore_api \<Rightarrow> pool_options \<Rightarrow> factory \<Rightarrow> 'q fleet" where
  "fleet_init api opts f =
     \<lparr>fl_pool = sys_init api opts, fl_factory = f, fl_asked = [], fl_log = [], fl_guests = {#}, fl_lost = 0,
      fl_strays = {#}\<rparr>"

definition seeded_request :: "session_request \<Rightarrow> bool" where
  "seeded_request rq = (case rq_kind rq of Seeded _ _ _ \<Rightarrow> True | _ \<Rightarrow> False)"

text \<open>What a step of the pool did: the browsers it brought in, those it destroyed, and the claims that were dropped.\<close>

definition pool_did :: "('s, 'q) sys \<Rightarrow> ('s, 'q) sys \<Rightarrow> 's multiset \<Rightarrow> 's multiset \<Rightarrow> nat \<Rightarrow> bool" where
  "pool_did s t new old dropped \<longleftrightarrow>
     created t = created s + new \<and> destroyed t = destroyed s + old \<and> leaked t = leaked s + dropped"

text \<open>What a creation of which only the effects \<open>fx\<close> happened leaves behind.\<close>

definition left_over :: "session_request \<Rightarrow> effect list \<Rightarrow> resource multiset" where
  "left_over rq fx = request_resources rq + resources_taken fx - resources_given fx"

inductive fleet_step ::
    "'q semaphore_api \<Rightarrow> pool_options \<Rightarrow> (launch_error \<Rightarrow> string) \<Rightarrow> nat \<Rightarrow> 'q fleet \<Rightarrow> 'q fleet \<Rightarrow> bool"
  for api :: "'q semaphore_api" and opts :: pool_options and show_error :: "launch_error \<Rightarrow> string" and own_pid :: nat where
  pool_only:
    "pool_step api opts (fl_pool x) t \<Longrightarrow> pool_did (fl_pool x) t {#} {#} 0 \<Longrightarrow>
     fleet_step api opts show_error own_pid x (x\<lparr>fl_pool := t\<rparr>)"
| pool_launched:
    "pool_step api opts (fl_pool x) t \<Longrightarrow> pool_did (fl_pool x) t {#b#} {#} 0 \<Longrightarrow> \<not> seeded_request rq \<Longrightarrow>
     create_session show_error own_pid rq (fl_factory x) = (Inr b, f, fx) \<Longrightarrow>
     fleet_step api opts show_error own_pid x
       (x\<lparr>fl_pool := t, fl_factory := f, fl_asked := fl_asked x @ [rq], fl_log := fl_log x @ fx\<rparr>)"
| pool_launch_failed:
    "pool_step api opts (fl_pool x) t \<Longrightarrow> pool_did (fl_pool x) t {#} {#} 0 \<Longrightarrow> \<not> seeded_request rq \<Longrightarrow>
     create_session show_error own_pid rq (fl_factory x) = (Inl e, f, fx) \<Longrightarrow>
     fleet_step api opts show_error own_pid x
       (x\<lparr>fl_pool := t, fl_factory := f, fl_asked := fl_asked x @ [rq], fl_log := fl_log x @ fx\<rparr>)"
| pool_launch_dropped:
    "pool_step api opts (fl_pool x) t \<Longrightarrow> pool_did (fl_pool x) t {#} {#} 1 \<Longrightarrow> \<not> seeded_request rq \<Longrightarrow>
     create_session show_error own_pid rq (fl_factory x) = (r, f, fx @ rest) \<Longrightarrow>
     fleet_step api opts show_error own_pid x
       (x\<lparr>fl_pool := t, fl_factory := f', fl_asked := fl_asked x @ [rq], fl_log := fl_log x @ fx,
          fl_strays := fl_strays x + left_over rq fx\<rparr>)"
| pool_destroyed:
    "pool_step api opts (fl_pool x) t \<Longrightarrow> pool_did (fl_pool x) t {#} {#b#} 0 \<Longrightarrow>
     fleet_step api opts show_error own_pid x (x\<lparr>fl_pool := t, fl_log := fl_log x @ destroy_effects ws b\<rparr>)"
| guest_launched:
    "seeded_request rq \<Longrightarrow> create_session show_error own_pid rq (fl_factory x) = (Inr b, f, fx) \<Longrightarrow>
     fleet_step api opts show_error own_pid x
       (x\<lparr>fl_factory := f, fl_asked := fl_asked x @ [rq], fl_log := fl_log x @ fx,
          fl_guests := add_mset b (fl_guests x)\<rparr>)"
| guest_failed:
    "seeded_request rq \<Longrightarrow> create_session show_error own_pid rq (fl_factory x) = (Inl e, f, fx) \<Longrightarrow>
     fleet_step api opts show_error own_pid x
       (x\<lparr>fl_factory := f, fl_asked := fl_asked x @ [rq], fl_log := fl_log x @ fx\<rparr>)"
| guest_dropped:
    "seeded_request rq \<Longrightarrow> create_session show_error own_pid rq (fl_factory x) = (r, f, fx @ rest) \<Longrightarrow>
     fleet_step api opts show_error own_pid x
       (x\<lparr>fl_factory := f', fl_asked := fl_asked x @ [rq], fl_log := fl_log x @ fx, fl_lost := fl_lost x + 1,
          fl_strays := fl_strays x + left_over rq fx\<rparr>)"
| guest_not_upgraded:
    "b \<in># fl_guests x \<Longrightarrow>
     fleet_step api opts show_error own_pid x
       (x\<lparr>fl_guests := fl_guests x - {#b#}, fl_lost := fl_lost x + 1,
          fl_strays := fl_strays x + session_resources b\<rparr>)"
| guest_destroyed:
    "b \<in># fl_guests x \<Longrightarrow>
     fleet_step api opts show_error own_pid x
       (x\<lparr>fl_guests := fl_guests x - {#b#}, fl_log := fl_log x @ destroy_effects ws b\<rparr>)"

definition fleet_reachable ::
    "'q semaphore_api \<Rightarrow> pool_options \<Rightarrow> (launch_error \<Rightarrow> string) \<Rightarrow> nat \<Rightarrow> factory \<Rightarrow> 'q fleet \<Rightarrow> bool" where
  "fleet_reachable api opts show_error own_pid f x \<longleftrightarrow>
     (fleet_step api opts show_error own_pid)\<^sup>*\<^sup>* (fleet_init api opts f) x"

text \<open>Every browser of the pool, and what the instance has made on the host and not removed.\<close>

definition pool_browsers :: "('s, 'q) sys \<Rightarrow> 's multiset" where
  "pool_browsers s = mset (map session (warm (pl s))) + rep_held (rep s) + claimed s + dying s + discards s"

definition brought :: "'q fleet \<Rightarrow> resource multiset" where
  "brought x = sum_list (map request_resources (fl_asked x)) + resources_taken (fl_log x)"

definition on_host :: "'q fleet \<Rightarrow> resource multiset" where
  "on_host x = brought x - resources_given (fl_log x)"

definition held_by :: "chrome_session multiset \<Rightarrow> resource multiset" where
  "held_by m = sum_mset (image_mset session_resources m)"

fun is_dir :: "resource \<Rightarrow> bool" where
  "is_dir (Dir _) = True"
| "is_dir (Leaf _) = False"

definition dirs_in :: "resource multiset \<Rightarrow> nat" where
  "dirs_in m = size (filter_mset is_dir m)"

definition leaves_in :: "resource multiset \<Rightarrow> nat" where
  "leaves_in m = size (filter_mset (\<lambda>r. \<not> is_dir r) m)"

section \<open>The accounts\<close>

lemma held_by_simps [simp]: "held_by {#} = {#}" "held_by (add_mset b m) = session_resources b + held_by m"
  by (simp_all add: held_by_def)

lemma held_by_add: "held_by (m + n) = held_by m + held_by n"
  by (simp add: held_by_def)

lemma held_by_more: "m = n + {#b#} \<Longrightarrow> held_by m = held_by n + session_resources b"
  by (simp add: ac_simps)

lemma resources_append:
  "resources_taken (xs @ ys) = resources_taken xs + resources_taken ys"
  "resources_given (xs @ ys) = resources_given xs + resources_given ys"
  by (simp_all add: resources_defs)

text \<open>
  The ledger: what was brought is given back, held or astray; when nothing went astray, exactly.
\<close>

definition ledger :: "bool \<Rightarrow> resource multiset \<Rightarrow> resource multiset \<Rightarrow> resource multiset \<Rightarrow> resource multiset \<Rightarrow> bool" where
  "ledger exact taken given held astray \<longleftrightarrow>
     taken \<subseteq># given + held + astray \<and> (exact \<longrightarrow> taken = given + held \<and> astray = {#})"

lemma ledger_more:
  assumes "ledger e t g h a" "x = y + z"
  shows "ledger e (t + x) (g + y) (h + z) a"
proof -
  have "t + (y + z) \<subseteq># (g + h + a) + (y + z)"
    using assms(1) by (intro subset_mset.add_mono) (simp_all add: ledger_def)
  then show ?thesis using assms by (auto simp: ledger_def ac_simps)
qed

lemma ledger_back: "ledger e t g (h + c) a \<Longrightarrow> ledger e t (g + c) h a"
  by (auto simp: ledger_def ac_simps)

lemma ledger_astray:
  assumes "ledger e t g h a"
  shows "ledger False (t + x) (g + y) h (a + (x - y))"
proof -
  have "x \<subseteq># y + (x - y)"
    by (metis subset_mset.diff_add_assoc2 subset_eq_diff_conv subset_mset.order_refl add.commute)
  then have "t + x \<subseteq># (g + h + a) + (y + (x - y))"
    using assms by (intro subset_mset.add_mono) (simp_all add: ledger_def)
  then show ?thesis by (simp add: ledger_def ac_simps)
qed

lemma ledger_lost: "ledger e t g (h + c) a \<Longrightarrow> ledger False t g h (a + c)"
  by (auto simp: ledger_def ac_simps)

section \<open>Amounts\<close>

lemma amounts_add [simp]:
  "dirs_in (m + n) = dirs_in m + dirs_in n" "leaves_in (m + n) = leaves_in m + leaves_in n"
  "dirs_in {#} = 0" "leaves_in {#} = 0"
  by (simp_all add: dirs_in_def leaves_in_def)

lemma amounts_mono: "m \<subseteq># n \<Longrightarrow> dirs_in m \<le> dirs_in n" "m \<subseteq># n \<Longrightarrow> leaves_in m \<le> leaves_in n"
  by (simp_all add: dirs_in_def leaves_in_def multiset_filter_mono size_mset_mono)

lemma session_amounts: "dirs_in (session_resources b) = 1" "leaves_in (session_resources b) \<le> 1"
  by (simp_all add: dirs_in_def leaves_in_def session_resources_def split: option.splits)

lemma held_amounts: "dirs_in (held_by m) = size m" "leaves_in (held_by m) \<le> size m"
proof (induction m)
  case (add b m)
  {
    case 1
    then show ?case using add session_amounts(1) [of b] by simp
  next
    case 2
    then show ?case using add session_amounts(2) [of b] by simp
  }
qed simp_all

text \<open>A creation takes one directory and one leaf at most.\<close>

lemma launch_session_takes:
  assumes "launch_session launch0 show_error own_pid made udd r f = (res, f', tried, fx)"
  shows "dirs_in (resources_taken fx) = 0 \<and> leaves_in (resources_taken fx) \<le> 1"
proof (rule launch_session_outcome [OF assms])
  fix f1 f3 fx1 fx2 leaf leaf2 l2
  assume p: "prepare_leaf own_pid made f = (leaf, f1, fx1)"
    and leaves: "leaf2 = leaf \<and> fx2 = [] \<or> leaf2 = None \<and> fx2 = destroy_cgroup leaf"
    and e: "case l2 of
       Inl e \<Rightarrow> res = Inl (show_error e) \<and> fx = fx1 @ fx2 @ destroy_cgroup leaf2 @ [DirsRemoved udd]
     | Inr b \<Rightarrow> res = Inr \<lparr>browser = b, dirs = udd, cgroup = leaf2,
                          monitor = spawn_soft_cap (leaf2 \<noteq> None) f3, relay = r\<rparr> \<and> fx = fx1 @ fx2"
  have "resources_taken (destroy_cgroup l) = {#}" for l
    by (simp add: destroy_cgroup_def resources_defs split: option.splits)
  then have "resources_taken fx = resources_taken fx1"
    using leaves e by (cases l2) (auto simp: resources_append resources_taken_def [of "[DirsRemoved udd]"] resources_taken_def [of "[]"])
  then show ?thesis
    using prepare_leaf_resources [OF p] by (simp add: dirs_in_def leaves_in_def split: option.splits)
qed

lemma create_session_takes:
  assumes "create_session show_error own_pid rq f = (r, f', fx)"
  shows "dirs_in (resources_taken fx) = 0 \<and> leaves_in (resources_taken fx) \<le> 1"
  using assms launch_session_takes
  by (auto simp: create_session_def create_def create_proxied_def create_seeded_def resources_defs
      split: session_kind.splits sum.splits prod.splits option.splits if_splits)

lemma left_over_amounts:
  assumes "create_session show_error own_pid rq f = (r, f', fx @ rest)"
  shows "dirs_in (left_over rq fx) \<le> 1 \<and> leaves_in (left_over rq fx) \<le> 1"
proof -
  have "left_over rq fx \<subseteq># request_resources rq + resources_taken fx"
    by (simp add: left_over_def)
  moreover have "dirs_in (request_resources rq) \<le> 1" "leaves_in (request_resources rq) = 0"
    by (simp_all add: request_resources_def dirs_in_def leaves_in_def split: sum.splits)
  moreover have "dirs_in (resources_taken fx) = 0 \<and> leaves_in (resources_taken fx) \<le> 1"
    using create_session_takes [OF assms] by (simp add: resources_append)
  ultimately show ?thesis
    using amounts_mono [of "left_over rq fx"] by (metis add.right_neutral add_0 amounts_add(1,2) le_trans)
qed

section \<open>The invariant\<close>

abbreviation browsers :: "'q fleet \<Rightarrow> chrome_session multiset" where
  "browsers x \<equiv> pool_browsers (fl_pool x) + fl_guests x"

definition dropped_in :: "'q fleet \<Rightarrow> nat" where
  "dropped_in x = leaked (fl_pool x) + fl_lost x"

definition fleet_inv :: "'q fleet \<Rightarrow> bool" where
  "fleet_inv x \<longleftrightarrow>
     session_inv (fl_pool x) \<and>
     ledger (dropped_in x = 0) (brought x) (resources_given (fl_log x)) (held_by (browsers x)) (fl_strays x) \<and>
     dirs_in (fl_strays x) \<le> dropped_in x \<and> leaves_in (fl_strays x) \<le> dropped_in x"

lemma fleet_inv_ledger:
  "fleet_inv x \<Longrightarrow>
   ledger (dropped_in x = 0) (brought x) (resources_given (fl_log x)) (held_by (browsers x)) (fl_strays x)"
  by (simp add: fleet_inv_def)

lemma pool_did_browsers:
  assumes "session_inv s" "pool_step api opts s t" "pool_did s t new old n"
  shows "session_inv t" "pool_browsers t + old = pool_browsers s + new"
proof -
  show t: "session_inv t" by (rule step_session_inv [OF assms(2,1)])
  have "pool_browsers t + destroyed t = created t" "pool_browsers s + destroyed s = created s"
    using t assms(1) by (simp_all add: session_inv_def pool_browsers_def)
  then have "(pool_browsers t + old) + destroyed s = (pool_browsers s + new) + destroyed s"
    using assms(3) unfolding pool_did_def by (metis add.assoc add.commute)
  then show "pool_browsers t + old = pool_browsers s + new" by simp
qed

text \<open>The changes a step can make, whether the browser belongs to the pool or to a guest.\<close>

lemma brought_more:
  assumes "fl_asked y = fl_asked x @ [rq]" "fl_log y = fl_log x @ fx"
  shows "brought y = brought x + (request_resources rq + resources_taken fx)"
  using assms by (simp add: brought_def resources_append ac_simps)

lemma fleet_inv_created:
  assumes "fleet_inv x" "create_session show_error own_pid rq f = (r, f', fx)"
    and "session_inv (fl_pool y)" "fl_asked y = fl_asked x @ [rq]" "fl_log y = fl_log x @ fx"
    and "browsers y = browsers x + (case r of Inl e \<Rightarrow> {#} | Inr b \<Rightarrow> {#b#})"
    and "fl_strays y = fl_strays x" "dropped_in y = dropped_in x"
  shows "fleet_inv y"
proof -
  have "request_resources rq + resources_taken fx =
      resources_given fx + held_by (case r of Inl e \<Rightarrow> {#} | Inr b \<Rightarrow> {#b#})"
    using assms(2) chrome.create_failed [of show_error own_pid rq f] chrome.create_ok [of show_error own_pid rq f]
    by (cases r) auto
  from ledger_more [OF _ this] show ?thesis
    using assms(1,3,6,7,8) brought_more [OF assms(4,5)]
    by (simp add: fleet_inv_def resources_append assms(5) held_by_add)
qed

lemma fleet_inv_dropped:
  assumes "fleet_inv x" "create_session show_error own_pid rq f = (r, f', fx @ rest)"
    and "session_inv (fl_pool y)" "fl_asked y = fl_asked x @ [rq]" "fl_log y = fl_log x @ fx"
    and "browsers y = browsers x" "fl_strays y = fl_strays x + left_over rq fx" "dropped_in y = Suc (dropped_in x)"
  shows "fleet_inv y"
proof -
  have "ledger False (brought y) (resources_given (fl_log y)) (held_by (browsers y)) (fl_strays y)"
    using ledger_astray [OF fleet_inv_ledger [OF assms(1)], of "request_resources rq + resources_taken fx" "resources_given fx"]
    by (simp add: brought_more [OF assms(4,5)] resources_append assms(5-7) left_over_def)
  then show ?thesis
    using assms(1,3,7,8) left_over_amounts [OF assms(2)] by (simp add: fleet_inv_def)
qed

lemma fleet_inv_destroyed:
  assumes "fleet_inv x" "session_inv (fl_pool y)" "fl_asked y = fl_asked x"
    and "fl_log y = fl_log x @ destroy_effects ws b" "browsers x = browsers y + {#b#}"
    and "fl_strays y = fl_strays x" "dropped_in y = dropped_in x"
  shows "fleet_inv y"
proof -
  have "brought y = brought x" "resources_given (fl_log y) = resources_given (fl_log x) + session_resources b"
    using assms(3,4) chrome.destroyed [of ws b] by (simp_all add: brought_def resources_append)
  moreover have "held_by (browsers x) = held_by (browsers y) + session_resources b"
    by (rule held_by_more [OF assms(5)])
  ultimately show ?thesis
    using assms(1,2,6,7) ledger_back by (simp add: fleet_inv_def)
qed

lemma fleet_inv_lost:
  assumes "fleet_inv x" "session_inv (fl_pool y)" "fl_asked y = fl_asked x" "fl_log y = fl_log x"
    and "browsers x = browsers y + {#b#}"
    and "fl_strays y = fl_strays x + session_resources b" "dropped_in y = Suc (dropped_in x)"
  shows "fleet_inv y"
proof -
  have h: "held_by (browsers x) = held_by (browsers y) + session_resources b"
    by (rule held_by_more [OF assms(5)])
  show ?thesis
    using assms(1-4,6,7) ledger_lost [OF fleet_inv_ledger [OF assms(1), unfolded h]] session_amounts [of b]
    by (simp add: fleet_inv_def brought_def)
qed

lemma fleet_inv_step:
  assumes "fleet_step api opts show_error own_pid x y" "fleet_inv x"
  shows "fleet_inv y"
proof -
  have pool: "session_inv t \<and> pool_browsers t + old = pool_browsers (fl_pool x) + new"
    if "pool_step api opts (fl_pool x) t" "pool_did (fl_pool x) t new old n" for t new old n
    using pool_did_browsers [OF _ that] assms(2) by (simp add: fleet_inv_def)
  have inv: "session_inv (fl_pool x)" using assms(2) by (simp add: fleet_inv_def)
  note did = pool_did_def dropped_in_def
  from assms(1) show ?thesis
  proof cases
    case (pool_only t)
    then show ?thesis
      using pool [OF pool_only(2,3)] assms(2) by (simp add: fleet_inv_def brought_def did)
  next
    case (pool_launched t b rq f fx)
    show ?thesis
      by (rule fleet_inv_created [OF assms(2) pool_launched(5)])
        (use pool [OF pool_launched(2,3)] pool_launched(1,3) in \<open>simp_all add: did\<close>)
  next
    case (pool_launch_failed t rq e f fx)
    show ?thesis
      by (rule fleet_inv_created [OF assms(2) pool_launch_failed(5)])
        (use pool [OF pool_launch_failed(2,3)] pool_launch_failed(1,3) in \<open>simp_all add: did\<close>)
  next
    case (pool_launch_dropped t rq r f fx rest f')
    show ?thesis
      by (rule fleet_inv_dropped [OF assms(2) pool_launch_dropped(5)])
        (use pool [OF pool_launch_dropped(2,3)] pool_launch_dropped(1,3) in \<open>simp_all add: did\<close>)
  next
    case (pool_destroyed t b ws)
    show ?thesis
      by (rule fleet_inv_destroyed [OF assms(2), of _ ws b])
        (use pool [OF pool_destroyed(2,3)] pool_destroyed(1,3) in \<open>simp_all add: did\<close>)
  next
    case (guest_launched rq b f fx)
    show ?thesis
      by (rule fleet_inv_created [OF assms(2) guest_launched(3)]) (use inv guest_launched(1) in \<open>simp_all add: did\<close>)
  next
    case (guest_failed rq e f fx)
    show ?thesis
      by (rule fleet_inv_created [OF assms(2) guest_failed(3)]) (use inv guest_failed(1) in \<open>simp_all add: did\<close>)
  next
    case (guest_dropped rq r f fx rest f')
    show ?thesis
      by (rule fleet_inv_dropped [OF assms(2) guest_dropped(3)]) (use inv guest_dropped(1) in \<open>simp_all add: did\<close>)
  next
    case (guest_not_upgraded b)
    show ?thesis
      by (rule fleet_inv_lost [OF assms(2), of _ b]) (use inv guest_not_upgraded in \<open>simp_all add: did\<close>)
  next
    case (guest_destroyed b ws)
    show ?thesis
      by (rule fleet_inv_destroyed [OF assms(2), of _ ws b]) (use inv guest_destroyed in \<open>simp_all add: did\<close>)
  qed
qed

lemma fleet_inv_init: "fleet_inv (fleet_init api opts f)"
  by (simp add: fleet_inv_def fleet_init_def session_inv_def sys_init_def pool_new_def ledger_def brought_def
      resources_defs pool_browsers_def dropped_in_def)

text \<open>The pool's part of a run of the fleet is a run of the pool, so its invariants carry over.\<close>

definition fleet_ok :: "'q semaphore_api \<Rightarrow> pool_options \<Rightarrow> 'q fleet \<Rightarrow> bool" where
  "fleet_ok api opts x \<longleftrightarrow> fleet_inv x \<and> reachable api opts (fl_pool x)"

interpretation fleet_machine:
  state_machine "fleet_step api opts show_error own_pid" "fleet_init api opts f" "fleet_ok api opts"
  for api opts show_error own_pid f
proof
  show "fleet_ok api opts (fleet_init api opts f)"
    using fleet_inv_init by (simp add: fleet_ok_def fleet_init_def reachable_def)
next
  fix x y :: "'a fleet"
  assume s: "fleet_step api opts show_error own_pid x y" and "fleet_ok api opts x"
  moreover from s have "(pool_step api opts)\<^sup>*\<^sup>* (fl_pool x) (fl_pool y)"
    by cases auto
  ultimately show "fleet_ok api opts y"
    using fleet_inv_step [OF s] reachable_run by (auto simp: fleet_ok_def)
qed

section \<open>What one instance has on its host\<close>

text \<open>The pool's browsers outnumber the ceiling by the warm ones at most.\<close>

lemma pool_browsers_bound:
  assumes "semaphore_ok api" "reachable api opts s"
  shows "size (pool_browsers s) + leaked s \<le> max_sessions (pl s) + min_ready opts + size (discards s)"
  using reachable_invs(1,3) [OF assms] by (simp add: slot_inv_def warm_inv_def pool_browsers_def)


section \<open>Profile sessions beside the ceiling\<close>

definition demo_factory :: factory where
  "demo_factory = factory_new demo_config ''chrome'' demo_tiers None None (Some ''/cg'')"

definition profile_request :: "string \<Rightarrow> session_request" where
  "profile_request d = (demo_request d True)\<lparr>rq_kind := Seeded False None None\<rparr>"

lemma profile_request_works:
  "\<exists>b f' fx. create_session show_error own_pid (profile_request d) f = (Inr b, f', fx)"
  by (auto simp: create_session_def profile_request_def demo_request_def create_seeded_def launch_session_def
      launch_browser_def Let_def split: prod.splits)

text \<open>
  The ceiling is documented as the hard ceiling of concurrent browsers. It bounds the pool only: with a ceiling of one,
  any number of profile sessions can run at a time.
\<close>

lemma guests_beyond_ceiling:
  "\<exists>x. fleet_reachable counting_semaphore demo_options show_error own_pid f x \<and> size (fl_guests x) = n \<and>
     max_sessions (pl (fl_pool x)) = 1 \<and> fl_lost x = 0 \<and> claimed (fl_pool x) = {#}"
proof (induction n)
  case 0
  show ?case
    by (rule exI [of _ "fleet_init counting_semaphore demo_options f"])
      (simp add: fleet_reachable_def fleet_init_def demo_defs)
next
  case (Suc n)
  then obtain x where x: "fleet_reachable counting_semaphore demo_options show_error own_pid f x"
    "size (fl_guests x) = n" "max_sessions (pl (fl_pool x)) = 1" "fl_lost x = 0" "claimed (fl_pool x) = {#}" by blast
  obtain b g fx where c: "create_session show_error own_pid (profile_request ''d'') (fl_factory x) = (Inr b, g, fx)"
    using profile_request_works by blast
  have "seeded_request (profile_request ''d'')" by (simp add: seeded_request_def profile_request_def)
  from guest_launched [OF this c] show ?case
    using x unfolding fleet_reachable_def
    by (intro exI [of _ "x\<lparr>fl_factory := g, fl_asked := fl_asked x @ [profile_request ''d''], fl_log := fl_log x @ fx,
          fl_guests := add_mset b (fl_guests x)\<rparr>"]) (simp add: rtranclp.rtrancl_into_rtrancl)
qed


end
