(* ===== verification/Single_Use.thy ===== *)
theory Single_Use
  imports Prelude
begin

text \<open>
  \<^verbatim>\<open>src/server/single_use.rs\<close>: the switch of a process that serves one session and then shuts down.
  The atomic flag and the cancellation token are the two fields; the guard has no data of its own, so
  a guard is the fact that \<open>try_spend\<close> returned one, and dropping it is \<open>drop_guard\<close>.
\<close>

record single_use =
  spent :: bool
  finished :: bool

definition single_use_new :: single_use where
  "single_use_new = \<lparr>spent = False, finished = False\<rparr>"

definition try_spend :: "single_use \<Rightarrow> bool \<times> single_use" where
  "try_spend s = (if spent s then (False, s) else (True, s\<lparr>spent := True\<rparr>))"

definition is_spent :: "single_use \<Rightarrow> bool" where
  "is_spent s = spent s"

definition drop_guard :: "single_use \<Rightarrow> single_use" where
  "drop_guard s = s\<lparr>finished := True\<rparr>"

lemmas single_use_defs = single_use_new_def try_spend_def is_spent_def drop_guard_def

text \<open>The uses of the switch as one step function; the single key is the unit value.\<close>

datatype use_op = TrySpend | DropGuard

definition use_event :: "use_op \<Rightarrow> single_use \<Rightarrow> (unit \<times> unit) option \<times> single_use" where
  "use_event op s =
     (case op of
        TrySpend \<Rightarrow> (let (got, s1) = try_spend s in (if got then Some ((), ()) else None, s1))
      | DropGuard \<Rightarrow> (None, drop_guard s))"

interpretation use: one_shot use_event "\<lambda>_. True" "\<lambda>s _. \<not> spent s" "\<lambda>_ _. False"
proof unfold_locales
  fix s op k v s'
  assume "use_event op s = (Some (k, v), s')"
  then show "\<not> spent s \<and> \<not> \<not> spent s'"
    by (auto simp: use_event_def single_use_defs Let_def split: use_op.splits if_splits)
next
  fix s op r s' j
  assume "use_event op s = (r, s')" "\<not> spent s'"
  then show "\<not> spent s \<or> False"
    by (auto simp: use_event_def single_use_defs Let_def split: use_op.splits if_splits)
qed simp

lemma use_taken_once: "length (fst (trace use_event ops s)) \<le> (if spent s then 0 else 1)"
  using use.at_most_once [where s = s and k = "()" and ops = ops]
  by (auto simp: list_all_iff split: if_splits)

end
