(* ===== verification/Profile_Store.thy ===== *)
theory Profile_Store
  imports Prelude "HOL-Library.AList"
begin

text \<open>
  \<^verbatim>\<open>src/server/profiles.rs\<close>: the profile hand-off store. The hash map is an association list with
  distinct keys (the invariant \<open>store_wf\<close>), times are milliseconds of the monotonic clock, one
  reading per operation. The random source and the base64 encoder are outside the repository, so
  the bytes drawn and the encoder are arguments. The abstract specification is the life of a single
  token (\<open>token_step\<close>); the refinement theorem says that the store runs one such life per token.
\<close>

section \<open>State\<close>

definition token_bytes :: nat where
  "token_bytes = 32"

definition profile_ttl :: nat where
  "profile_ttl = 2 * 60 * 1000"

definition in_flight_max_age :: nat where
  "in_flight_max_age = 24 * 60 * 60 * 1000"

definition max_pending_entries :: nat where
  "max_pending_entries = 256"

datatype 'p slot = Pending 'p | InFlight | Ready 'p

record 'p entry =
  eslot :: "'p slot"
  at :: nat

record 'p profile_store =
  entries :: "(string \<times> 'p entry) list"
  ttl :: nat
  max_pending :: nat

section \<open>Operations\<close>

definition store_new :: "nat \<Rightarrow> nat \<Rightarrow> 'p profile_store" where
  "store_new ttl0 cap = \<lparr>entries = [], ttl = ttl0, max_pending = cap\<rparr>"

definition live :: "nat \<Rightarrow> nat \<Rightarrow> 'p entry \<Rightarrow> bool" where
  "live ttl0 now e =
     (let limit = (if eslot e = InFlight then in_flight_max_age else ttl0) in now - at e < limit)"

definition sweep :: "nat \<Rightarrow> 'p profile_store \<Rightarrow> 'p profile_store" where
  "sweep now st = st\<lparr>entries := filter (\<lambda>(_, e). live (ttl st) now e) (entries st)\<rparr>"

definition mint_token :: "(bytes \<Rightarrow> string) \<Rightarrow> bytes option \<Rightarrow> string option" where
  "mint_token encode filled = map_option encode filled"

definition drop_off ::
    "(bytes \<Rightarrow> string) \<Rightarrow> nat \<Rightarrow> bytes option \<Rightarrow> 'p \<Rightarrow> 'p profile_store
     \<Rightarrow> string option \<times> 'p profile_store" where
  "drop_off encode now filled payload st =
     (let st1 = sweep now st
      in if max_pending st1 \<le> length (entries st1) then (None, st1)
         else (case mint_token encode filled of
                 None \<Rightarrow> (None, st1)
               | Some token \<Rightarrow>
                   (Some token,
                    st1\<lparr>entries := AList.update token \<lparr>eslot = Pending payload, at = now\<rparr> (entries st1)\<rparr>)))"

definition claim :: "nat \<Rightarrow> string \<Rightarrow> 'p profile_store \<Rightarrow> 'p option \<times> 'p profile_store" where
  "claim now token st =
     (let st1 = sweep now st
      in case map_of (entries st1) token of
           Some e \<Rightarrow>
             (case eslot e of
                Pending payload \<Rightarrow>
                  (Some payload,
                   st1\<lparr>entries := AList.update token \<lparr>eslot = InFlight, at = now\<rparr> (entries st1)\<rparr>)
              | _ \<Rightarrow> (None, st1))
         | None \<Rightarrow> (None, st1))"

definition deposit_result :: "nat \<Rightarrow> string \<Rightarrow> 'p \<Rightarrow> 'p profile_store \<Rightarrow> 'p profile_store" where
  "deposit_result now token payload st =
     (case map_of (entries st) token of
        Some e \<Rightarrow>
          (if eslot e = InFlight
           then st\<lparr>entries := AList.update token \<lparr>eslot = Ready payload, at = now\<rparr> (entries st)\<rparr>
           else st)
      | None \<Rightarrow> st)"

definition pick_up :: "nat \<Rightarrow> string \<Rightarrow> 'p profile_store \<Rightarrow> 'p option \<times> 'p profile_store" where
  "pick_up now token st =
     (let st1 = sweep now st
      in case map_of (entries st1) token of
           Some e \<Rightarrow>
             (case eslot e of
                Ready payload \<Rightarrow>
                  (Some payload, st1\<lparr>entries := AList.delete token (entries st1)\<rparr>)
              | _ \<Rightarrow> (None, st1))
         | None \<Rightarrow> (None, st1))"

definition finish_without_result :: "string \<Rightarrow> 'p profile_store \<Rightarrow> 'p profile_store" where
  "finish_without_result token st =
     (case map_of (entries st) token of
        Some e \<Rightarrow>
          (if eslot e = InFlight then st\<lparr>entries := AList.delete token (entries st)\<rparr> else st)
      | None \<Rightarrow> st)"

lemmas store_defs [store_simps] =
  sweep_def drop_off_def claim_def deposit_result_def pick_up_def finish_without_result_def

section \<open>The operations as one step function\<close>

datatype 'p store_op =
    DropOff nat "bytes option" 'p
  | Claim nat string
  | Deposit nat string 'p
  | PickUp nat string
  | Finish string

definition store_step ::
    "(bytes \<Rightarrow> string) \<Rightarrow> 'p store_op \<Rightarrow> 'p profile_store \<Rightarrow> 'p profile_store" where
  "store_step encode op st =
     (case op of
        DropOff now filled p \<Rightarrow> snd (drop_off encode now filled p st)
      | Claim now t \<Rightarrow> snd (claim now t st)
      | Deposit now t p \<Rightarrow> deposit_result now t p st
      | PickUp now t \<Rightarrow> snd (pick_up now t st)
      | Finish t \<Rightarrow> finish_without_result t st)"

section \<open>Well-formedness\<close>

definition store_wf :: "'p profile_store \<Rightarrow> bool" where
  "store_wf st \<longleftrightarrow> distinct (map fst (entries st)) \<and> length (entries st) \<le> max_pending st"

lemma sweep_fields [simp]:
  "ttl (sweep now st) = ttl st" "max_pending (sweep now st) = max_pending st"
  by (simp_all add: sweep_def)

lemma length_update_le: "length (AList.update k v xs) \<le> Suc (length xs)"
  by (induction xs) auto

lemma length_update_member: "k \<in> fst ` set xs \<Longrightarrow> length (AList.update k v xs) = length xs"
  by (induction xs) auto

lemma length_delete_le: "length (AList.delete k xs) \<le> length xs"
  by (induction xs) auto

lemma map_of_filter_distinct:
  assumes "distinct (map fst xs)"
  shows "map_of (filter (\<lambda>(_, e). P e) xs) k =
         (case map_of xs k of None \<Rightarrow> None | Some e \<Rightarrow> if P e then Some e else None)"
  using assms
proof (induction xs)
  case (Cons x xs)
  moreover have "fst x \<notin> fst ` set xs \<Longrightarrow> map_of (filter (\<lambda>(_, e). P e) xs) (fst x) = None"
    by (auto simp: map_of_eq_None_iff image_iff)
  ultimately show ?case by (cases x) auto
qed simp

lemma sweep_wf: "store_wf st \<Longrightarrow> store_wf (sweep now st)"
  by (auto simp: store_wf_def sweep_def distinct_map_filter
      intro: le_trans [OF length_filter_le])

lemma update_wf:
  "store_wf st \<Longrightarrow> map_of (entries st) t = Some e \<Longrightarrow>
   store_wf (st\<lparr>entries := AList.update t e' (entries st)\<rparr>)"
  by (auto simp: store_wf_def distinct_update length_update_member rev_image_eqI
      dest!: map_of_SomeD)

lemma insert_wf:
  "store_wf st \<Longrightarrow> length (entries st) < max_pending st \<Longrightarrow>
   store_wf (st\<lparr>entries := AList.update t e' (entries st)\<rparr>)"
  by (auto simp: store_wf_def distinct_update intro: le_trans [OF length_update_le])

lemma delete_wf: "store_wf st \<Longrightarrow> store_wf (st\<lparr>entries := AList.delete t (entries st)\<rparr>)"
  by (auto simp: store_wf_def distinct_delete intro: le_trans [OF length_delete_le])

lemma store_step_fields [simp]:
  "ttl (store_step encode op st) = ttl st"
  "max_pending (store_step encode op st) = max_pending st"
  by (cases op; simp add: store_step_def drop_off_def claim_def deposit_result_def pick_up_def
      finish_without_result_def Let_def split: option.splits slot.splits)+

lemma store_step_wf: "store_wf st \<Longrightarrow> store_wf (store_step encode op st)"
  by (cases op)
     (auto simp: store_step_def drop_off_def claim_def deposit_result_def pick_up_def
       finish_without_result_def Let_def
       intro: sweep_wf update_wf insert_wf delete_wf split: option.splits slot.splits)

section \<open>The life of one token\<close>

definition token_sweep :: "nat \<Rightarrow> nat \<Rightarrow> 'p entry option \<Rightarrow> 'p entry option" where
  "token_sweep ttl0 now e =
     (case e of None \<Rightarrow> None | Some x \<Rightarrow> if live ttl0 now x then Some x else None)"

definition in_flight :: "'p entry option \<Rightarrow> bool" where
  "in_flight e \<longleftrightarrow> (\<exists>x. e = Some x \<and> eslot x = InFlight)"

definition pending_payload :: "'p entry option \<Rightarrow> 'p option" where
  "pending_payload e =
     (case e of Some x \<Rightarrow> (case eslot x of Pending p \<Rightarrow> Some p | _ \<Rightarrow> None) | None \<Rightarrow> None)"

definition ready_payload :: "'p entry option \<Rightarrow> 'p option" where
  "ready_payload e =
     (case e of Some x \<Rightarrow> (case eslot x of Ready p \<Rightarrow> Some p | _ \<Rightarrow> None) | None \<Rightarrow> None)"

text \<open>
  What an operation does to the one token \<open>k\<close>; \<open>room\<close> tells whether the store has space for a
  drop-off.
\<close>

definition token_step ::
    "(bytes \<Rightarrow> string) \<Rightarrow> nat \<Rightarrow> bool \<Rightarrow> string \<Rightarrow> 'p store_op \<Rightarrow> 'p entry option \<Rightarrow> 'p entry option" where
  "token_step encode ttl0 room k op e =
     (case op of
        DropOff now filled p \<Rightarrow>
          (if room \<and> mint_token encode filled = Some k then Some \<lparr>eslot = Pending p, at = now\<rparr>
           else token_sweep ttl0 now e)
      | Claim now t \<Rightarrow>
          (if t = k \<and> pending_payload (token_sweep ttl0 now e) \<noteq> None
           then Some \<lparr>eslot = InFlight, at = now\<rparr> else token_sweep ttl0 now e)
      | Deposit now t p \<Rightarrow>
          (if t = k \<and> in_flight e then Some \<lparr>eslot = Ready p, at = now\<rparr> else e)
      | PickUp now t \<Rightarrow>
          (if t = k \<and> ready_payload (token_sweep ttl0 now e) \<noteq> None then None
           else token_sweep ttl0 now e)
      | Finish t \<Rightarrow> (if t = k \<and> in_flight e then None else e))"

fun has_room :: "'p store_op \<Rightarrow> 'p profile_store \<Rightarrow> bool" where
  "has_room (DropOff now _ _) st = (length (entries (sweep now st)) < max_pending st)"
| "has_room _ st = True"

lemmas token_defs = token_step_def token_sweep_def in_flight_def pending_payload_def ready_payload_def

lemma map_of_sweep:
  "store_wf st \<Longrightarrow> map_of (entries (sweep now st)) k = token_sweep (ttl st) now (map_of (entries st) k)"
  by (simp add: sweep_def token_sweep_def map_of_filter_distinct store_wf_def)

lemma claim_result:
  "store_wf st \<Longrightarrow>
   fst (claim now k st) = pending_payload (token_sweep (ttl st) now (map_of (entries st) k))"
  by (auto simp: claim_def Let_def map_of_sweep pending_payload_def split: option.splits slot.splits)

lemma pick_up_result:
  "store_wf st \<Longrightarrow>
   fst (pick_up now k st) = ready_payload (token_sweep (ttl st) now (map_of (entries st) k))"
  by (auto simp: pick_up_def Let_def map_of_sweep ready_payload_def split: option.splits slot.splits)

lemma store_step_token:
  assumes "store_wf st"
  shows "map_of (entries (store_step encode op st)) k =
         token_step encode (ttl st) (has_room op st) k op (map_of (entries st) k)"
proof (cases op)
  case (DropOff now filled p)
  then show ?thesis
    using map_of_sweep [OF assms, of now k]
    by (auto simp: store_step_def drop_off_def token_step_def Let_def update_conv' split: option.splits)
next
  case (Claim now t)
  then show ?thesis
    using map_of_sweep [OF assms, of now]
    by (auto simp: store_step_def claim_def token_step_def pending_payload_def Let_def update_conv'
        split: option.splits slot.splits)
next
  case (Deposit now t p)
  then show ?thesis
    by (auto simp: store_step_def deposit_result_def token_step_def in_flight_def update_conv'
        split: option.splits)
next
  case (PickUp now t)
  then show ?thesis
    using map_of_sweep [OF assms, of now]
    by (auto simp: store_step_def pick_up_def token_step_def ready_payload_def Let_def delete_conv'
        split: option.splits slot.splits)
next
  case (Finish t)
  then show ?thesis
    by (auto simp: store_step_def finish_without_result_def token_step_def in_flight_def delete_conv'
        split: option.splits)
qed

text \<open>
  Property C3: the store is a family of independent token lives. Every operation, whatever else the
  store holds, acts on each token exactly as the abstract life cycle (absent, pending, in flight,
  ready, gone, with the expiry rule of the phase) says, returns what the life cycle says, and keeps
  the map's keys distinct and the number of entries within the cap.
\<close>

theorem store_refines_token_life:
  assumes "store_wf st"
  shows "map_of (entries (store_step encode op st)) k =
           token_step encode (ttl st) (has_room op st) k op (map_of (entries st) k) \<and>
         fst (claim now k st) = pending_payload (token_sweep (ttl st) now (map_of (entries st) k)) \<and>
         fst (pick_up now k st) = ready_payload (token_sweep (ttl st) now (map_of (entries st) k)) \<and>
         store_wf (store_step encode op st)"
  using assms by (simp add: store_step_token claim_result pick_up_result store_step_wf)

definition demo_store :: "nat profile_store" where
  "demo_store =
     \<lparr>entries = [(''t'', \<lparr>eslot = Pending 7, at = 1000\<rparr>), (''u'', \<lparr>eslot = InFlight, at = 2000\<rparr>)],
      ttl = profile_ttl, max_pending = max_pending_entries\<rparr>"

lemma demo_store_wf: "store_wf demo_store"
  by (simp add: store_wf_def demo_store_def max_pending_entries_def)

theorem store_refines_token_life_witness:
  "fst (claim 121000 ''t'' demo_store) = None \<and> fst (claim 120999 ''t'' demo_store) = Some 7"
  using store_refines_token_life [OF demo_store_wf, of of_bytes "Finish ''x''" "''t''" 121000]
    store_refines_token_life [OF demo_store_wf, of of_bytes "Finish ''x''" "''t''" 120999]
  by (simp add: demo_store_def token_sweep_def pending_payload_def live_def profile_ttl_def Let_def)

section \<open>One-shot hand-outs\<close>

definition mints :: "(bytes \<Rightarrow> string) \<Rightarrow> 'p store_op \<Rightarrow> string \<Rightarrow> bool" where
  "mints encode op k \<longleftrightarrow>
     (case op of DropOff _ filled _ \<Rightarrow> mint_token encode filled = Some k | _ \<Rightarrow> False)"

text \<open>The operations, observed through the profiles that claims, or pick-ups, hand out.\<close>

definition claim_event ::
    "(bytes \<Rightarrow> string) \<Rightarrow> 'p store_op \<Rightarrow> 'p profile_store \<Rightarrow> (string \<times> 'p) option \<times> 'p profile_store" where
  "claim_event encode op st =
     (case op of Claim now t \<Rightarrow> map_option (Pair t) (fst (claim now t st)) | _ \<Rightarrow> None,
      store_step encode op st)"

definition pick_up_event ::
    "(bytes \<Rightarrow> string) \<Rightarrow> 'p store_op \<Rightarrow> 'p profile_store \<Rightarrow> (string \<times> 'p) option \<times> 'p profile_store" where
  "pick_up_event encode op st =
     (case op of PickUp now t \<Rightarrow> map_option (Pair t) (fst (pick_up now t st)) | _ \<Rightarrow> None,
      store_step encode op st)"

definition is_pending :: "'p profile_store \<Rightarrow> string \<Rightarrow> bool" where
  "is_pending st k \<longleftrightarrow> pending_payload (map_of (entries st) k) \<noteq> None"

definition is_present :: "'p profile_store \<Rightarrow> string \<Rightarrow> bool" where
  "is_present st k \<longleftrightarrow> map_of (entries st) k \<noteq> None"

interpretation claim_once: one_shot "claim_event encode" store_wf is_pending "mints encode" for encode
proof
  fix st :: "'p profile_store" and op k v st'
  assume wf: "store_wf st" and ev: "claim_event encode op st = (Some (k, v), st')"
  then obtain now where op: "op = Claim now k" "fst (claim now k st) = Some v"
      "st' = store_step encode op st"
    by (auto simp: claim_event_def split: store_op.splits)
  then show "is_pending st k \<and> \<not> is_pending st' k"
    using wf by (auto simp: is_pending_def store_step_token claim_result token_defs
        split: option.splits if_splits)
next
  fix st :: "'p profile_store" and op r st' j
  assume "store_wf st" "claim_event encode op st = (r, st')" "is_pending st' j"
  then show "is_pending st j \<or> mints encode op j"
    by (auto simp: claim_event_def is_pending_def store_step_token token_defs mints_def
        split: store_op.splits option.splits if_splits)
qed (simp add: claim_event_def store_step_wf)

interpretation pick_up_once: one_shot "pick_up_event encode" store_wf is_present "mints encode" for encode
proof
  fix st :: "'p profile_store" and op k v st'
  assume wf: "store_wf st" and ev: "pick_up_event encode op st = (Some (k, v), st')"
  then obtain now where op: "op = PickUp now k" "fst (pick_up now k st) = Some v"
      "st' = store_step encode op st"
    by (auto simp: pick_up_event_def split: store_op.splits)
  then show "is_present st k \<and> \<not> is_present st' k"
    using wf by (auto simp: is_present_def store_step_token pick_up_result token_defs
        split: option.splits if_splits)
next
  fix st :: "'p profile_store" and op r st' j
  assume "store_wf st" "pick_up_event encode op st = (r, st')" "is_present st' j"
  then show "is_present st j \<or> mints encode op j"
    by (auto simp: pick_up_event_def is_present_def store_step_token token_defs mints_def
        split: store_op.splits option.splits if_splits)
qed (simp add: pick_up_event_def store_step_wf)

text \<open>
  A token works once. Over any sequence of operations that does not draw the same
  token again, at most one claim of a token returns a profile and at most one pick-up of it does,
  whatever the store's state, the order of the operations and the times they run at.
\<close>

theorem token_works_once:
  assumes "store_wf st" "list_all (\<lambda>op. \<not> mints encode op k) ops"
  shows "length (filter (\<lambda>r. fst r = k) (fst (trace (claim_event encode) ops st))) \<le> 1 \<and>
         length (filter (\<lambda>r. fst r = k) (fst (trace (pick_up_event encode) ops st))) \<le> 1"
  using claim_once.at_most_once [OF assms] pick_up_once.at_most_once [OF assms]
  by (auto split: if_splits)

theorem token_works_once_witness:
  "length (filter (\<lambda>r. fst r = ''t'')
     (fst (trace (claim_event of_bytes) [Claim 1500 ''t'', Claim 1600 ''t''] demo_store))) \<le> 1"
  using token_works_once [OF demo_store_wf, of of_bytes "''t''" "[Claim 1500 ''t'', Claim 1600 ''t'']"]
  by (simp add: mints_def)

section \<open>The round trip of a profile\<close>

definition store_run ::
    "(bytes \<Rightarrow> string) \<Rightarrow> 'p store_op list \<Rightarrow> 'p profile_store \<Rightarrow> 'p profile_store" where
  "store_run encode ops st = fold (store_step encode) ops st"

text \<open>An operation on other tokens, whose sweep runs while the entry \<open>e\<close> is live.\<close>

fun spares :: "(bytes \<Rightarrow> string) \<Rightarrow> nat \<Rightarrow> string \<Rightarrow> 'p entry \<Rightarrow> 'p store_op \<Rightarrow> bool" where
  "spares encode ttl0 k e (DropOff now filled _) =
     (mint_token encode filled \<noteq> Some k \<and> live ttl0 now e)"
| "spares encode ttl0 k e (Claim now t) = (t \<noteq> k \<and> live ttl0 now e)"
| "spares encode ttl0 k e (Deposit _ t _) = (t \<noteq> k)"
| "spares encode ttl0 k e (PickUp now t) = (t \<noteq> k \<and> live ttl0 now e)"
| "spares encode ttl0 k e (Finish t) = (t \<noteq> k)"

lemma store_run_fields [simp]: "ttl (store_run encode ops st) = ttl st"
  by (induction ops arbitrary: st) (simp_all add: store_run_def)

lemma store_run_wf: "store_wf st \<Longrightarrow> store_wf (store_run encode ops st)"
  by (induction ops arbitrary: st) (simp_all add: store_run_def store_step_wf)

lemma spared_entry_stays:
  assumes "store_wf st" "map_of (entries st) k = Some e" "list_all (spares encode (ttl st) k e) ops"
  shows "map_of (entries (store_run encode ops st)) k = Some e"
  using assms
proof (induction ops arbitrary: st)
  case (Cons op ops)
  have "map_of (entries (store_step encode op st)) k = Some e"
    using Cons.prems by (cases op) (auto simp: store_step_token token_step_def token_sweep_def)
  then show ?case
    using Cons.IH [of "store_step encode op st"] Cons.prems store_step_wf [OF Cons.prems(1)]
    by (simp add: store_run_def)
qed (simp add: store_run_def)

lemma drop_off_entry:
  assumes "drop_off encode now filled p st = (Some k, st1)"
  shows "map_of (entries st1) k = Some \<lparr>eslot = Pending p, at = now\<rparr> \<and> ttl st1 = ttl st"
  using assms by (auto simp: drop_off_def Let_def update_conv' split: if_splits option.splits)

lemma drop_off_wf:
  assumes "store_wf st" "drop_off encode now filled p st = (r, st1)"
  shows "store_wf st1"
  using store_step_wf [OF assms(1), of encode "DropOff now filled p"] assms(2)
  by (simp add: store_step_def)

lemma claim_after:
  assumes "store_wf st" "map_of (entries st) k = Some \<lparr>eslot = Pending p, at = t0\<rparr>" "t1 - t0 < ttl st"
  shows "fst (claim t1 k st) = Some p \<and>
         map_of (entries (snd (claim t1 k st))) k = Some \<lparr>eslot = InFlight, at = t1\<rparr> \<and>
         store_wf (snd (claim t1 k st)) \<and> ttl (snd (claim t1 k st)) = ttl st"
proof -
  have "token_sweep (ttl st) t1 (map_of (entries st) k) = Some \<lparr>eslot = Pending p, at = t0\<rparr>"
    using assms(2,3) by (simp add: token_sweep_def live_def)
  then show ?thesis
    using store_step_token [OF assms(1), of of_bytes "Claim t1 k" k] claim_result [OF assms(1), of t1 k]
      store_step_wf [OF assms(1), of of_bytes "Claim t1 k"]
      store_step_fields [of of_bytes "Claim t1 k" st]
    by (simp add: store_step_def token_step_def pending_payload_def)
qed

text \<open>
  The coat check works. A profile that was accepted is returned by the claim of its
  token within the time to live; the session may then run for up to 24 hours; what it deposits
  under the same token is returned by the pick-up within the time to live; and in between, any
  traffic on other tokens may run.
\<close>

theorem profile_round_trip:
  assumes "store_wf st" "drop_off encode t0 filled p st = (Some k, st1)"
    and "list_all (spares encode (ttl st) k \<lparr>eslot = Pending p, at = t0\<rparr>) ops1" "t1 - t0 < ttl st"
    and "list_all (spares encode (ttl st) k \<lparr>eslot = InFlight, at = t1\<rparr>) ops2"
    and "list_all (spares encode (ttl st) k \<lparr>eslot = Ready q, at = t2\<rparr>) ops3" "t3 - t2 < ttl st"
  shows "let st2 = store_run encode ops1 st1; (claimed, st3) = claim t1 k st2;
             st4 = deposit_result t2 k q (store_run encode ops2 st3);
             st5 = store_run encode ops3 st4
         in claimed = Some p \<and> fst (pick_up t3 k st5) = Some q \<and>
            map_of (entries (snd (pick_up t3 k st5))) k = None"
proof -
  define st2 where "st2 = store_run encode ops1 st1"
  define st3 where "st3 = snd (claim t1 k st2)"
  define st4 where "st4 = store_step encode (Deposit t2 k q) (store_run encode ops2 st3)"
  define st5 where "st5 = store_run encode ops3 st4"
  have st1: "map_of (entries st1) k = Some \<lparr>eslot = Pending p, at = t0\<rparr>" "ttl st1 = ttl st" "store_wf st1"
    using drop_off_entry [OF assms(2)] drop_off_wf [OF assms(1,2)] by auto
  have st2: "map_of (entries st2) k = Some \<lparr>eslot = Pending p, at = t0\<rparr>" "store_wf st2" "ttl st2 = ttl st"
    using spared_entry_stays [OF st1(3,1), of encode ops1] st1 assms(3)
    by (auto simp: st2_def store_run_wf)
  have st3: "fst (claim t1 k st2) = Some p" "map_of (entries st3) k = Some \<lparr>eslot = InFlight, at = t1\<rparr>"
      "store_wf st3" "ttl st3 = ttl st"
    using claim_after [OF st2(2,1)] st2(3) assms(4) by (auto simp: st3_def)
  have "map_of (entries (store_run encode ops2 st3)) k = Some \<lparr>eslot = InFlight, at = t1\<rparr>"
    using spared_entry_stays [OF st3(3,2), of encode ops2] st3 assms(5) by simp
  then have st4: "map_of (entries st4) k = Some \<lparr>eslot = Ready q, at = t2\<rparr>" "store_wf st4" "ttl st4 = ttl st"
    using st3 by (auto simp: st4_def store_step_token store_step_wf store_run_wf token_step_def in_flight_def)
  have st5: "map_of (entries st5) k = Some \<lparr>eslot = Ready q, at = t2\<rparr>" "store_wf st5" "ttl st5 = ttl st"
    using spared_entry_stays [OF st4(2,1), of encode ops3] st4 assms(6)
    by (auto simp: st5_def store_run_wf)
  then have sw: "token_sweep (ttl st5) t3 (map_of (entries st5) k) = Some \<lparr>eslot = Ready q, at = t2\<rparr>"
    using assms(7) by (simp add: token_sweep_def live_def)
  have "fst (pick_up t3 k st5) = Some q" "map_of (entries (snd (pick_up t3 k st5))) k = None"
    using pick_up_result [OF st5(2), of t3 k] store_step_token [OF st5(2), of encode "PickUp t3 k" k] sw
    by (simp_all add: ready_payload_def store_step_def token_step_def)
  then show ?thesis
    using st3(1) by (simp add: st5_def st4_def st3_def st2_def store_step_def Let_def split_beta)
qed

theorem profile_round_trip_witness:
  "fst (pick_up 90 ''k'' (deposit_result 80 ''k'' ''b''
          (snd (claim 70 ''k'' (snd (drop_off of_bytes 60 (Some (as_bytes ''k'')) ''a'' (store_new 100 4)))))))
     = Some ''b''"
proof -
  have d: "drop_off of_bytes 60 (Some (as_bytes ''k'')) ''a'' (store_new 100 4) =
        (Some ''k'', \<lparr>entries = [(''k'', \<lparr>eslot = Pending ''a'', at = 60\<rparr>)], ttl = 100, max_pending = 4\<rparr>)"
    by (simp add: drop_off_def sweep_def store_new_def mint_token_def)
  show ?thesis
    using profile_round_trip [OF _ d, of "[]" 70 "[]" "''b''" 80 "[]" 90]
    by (simp add: store_wf_def d store_run_def Let_def split_beta) (simp add: store_new_def)
qed

end
