(* ===== verification/Bridge.thy ===== *)
theory Bridge
  imports Cdp_Pipe Rust_Str
begin

text \<open>
  \<^verbatim>\<open>src/bridge.rs\<close>: one client socket bridged to one browser pipe. The two pumps run under one
  \<^verbatim>\<open>select!\<close>, so a run of the bridge is a sequence of events, each handled by one of the pumps:
  something arrives from the client (or its idle timer fires), or the browser's pipe becomes
  readable. The first pump that ends decides how the bridge ends. The web socket is axum's: what it
  yields and whether a send succeeds are part of the events.
\<close>

section \<open>Types\<close>

definition close_normal :: nat where
  "close_normal = 1000"

definition close_browser_gone :: nat where
  "close_browser_gone = 1011"

definition close_idle_timeout :: nat where
  "close_idle_timeout = 1013"

record close_frame =
  code :: nat
  reason :: string

datatype message =
    Text bytes
  | Binary bytes
  | Close "close_frame option"
  | Ping bytes
  | Pong bytes

datatype pump_exit = ClientClosed | PumpClientFinished | PumpIdleTimeout nat

datatype browser_pump_exit = PumpBrowserGone | PumpClientGone

datatype ended = EndedClientGone | EndedClientFinished | EndedIdleTimeout | EndedBrowserGone

datatype 'w bridge_end =
    ClientGone "'w cdp_pipe"
  | ClientFinished "'w cdp_pipe"
  | IdleTimeout "'w cdp_pipe"
  | BrowserGone

text \<open>What the client's stream yields, and the idle timer.\<close>

datatype client_event = Incoming message | IncomingError | IncomingEnd | IdleElapsed

datatype bridge_event =
    FromClient client_event
  | FromBrowser "read_result list" bool

record 'w bridge_state =
  bwriter :: 'w
  breader :: cdp_reader
  unread :: "read_result list"
  sink :: "message list"

section \<open>The pumps\<close>

definition close_exit :: "close_frame option \<Rightarrow> pump_exit" where
  "close_exit frame =
     (case frame of
        None \<Rightarrow> PumpClientFinished
      | Some f \<Rightarrow> if code f = close_normal then PumpClientFinished else ClientClosed)"

text \<open>One turn of \<^verbatim>\<open>pump_client_to_browser\<close>; the timer exists only when an idle timeout is set.\<close>

definition pump_client_to_browser ::
    "('w \<Rightarrow> bytes \<Rightarrow> io_error option \<times> 'w) \<Rightarrow> nat option \<Rightarrow> client_event \<Rightarrow> 'w
     \<Rightarrow> pump_exit option \<times> 'w" where
  "pump_client_to_browser write_all idle_timeout ev w =
     (let forward = (\<lambda>payload.
            case send_raw write_all payload w of
              (Some _, w1) \<Rightarrow> (Some ClientClosed, w1)
            | (None, w1) \<Rightarrow> (None, w1))
      in case ev of
           IdleElapsed \<Rightarrow>
             (case idle_timeout of Some dur \<Rightarrow> (Some (PumpIdleTimeout dur), w) | None \<Rightarrow> (None, w))
         | IncomingEnd \<Rightarrow> (Some ClientClosed, w)
         | IncomingError \<Rightarrow> (Some ClientClosed, w)
         | Incoming m \<Rightarrow>
             (case m of
                Text text \<Rightarrow> forward text
              | Binary bytes \<Rightarrow> forward bytes
              | Close frame \<Rightarrow> (Some (close_exit frame), w)
              | Ping _ \<Rightarrow> (None, w)
              | Pong _ \<Rightarrow> (None, w)))"

definition to_message :: "bytes \<Rightarrow> message" where
  "to_message frame = (if utf8_valid (of_bytes frame) then Text frame else Binary frame)"

definition browser_closed :: message where
  "browser_closed = Close (Some \<lparr>code = close_browser_gone, reason = ''browser closed''\<rparr>)"

text \<open>
  One turn of \<^verbatim>\<open>pump_browser_to_client\<close> on the reads that are available: \<open>sent\<close> is whether the
  socket accepts the message.
\<close>

definition pump_browser_to_client ::
    "memchr_fun \<Rightarrow> bool \<Rightarrow> read_result list \<Rightarrow> cdp_reader
     \<Rightarrow> browser_pump_exit option \<times> message option \<times> read_result list \<times> cdp_reader" where
  "pump_browser_to_client memchr sent reads r =
     (case recv_raw memchr reads r of
        (None, rest, r1) \<Rightarrow> (None, None, rest, r1)
      | (Some (Inl _), rest, r1) \<Rightarrow>
          (Some PumpBrowserGone, if sent then Some browser_closed else None, rest, r1)
      | (Some (Inr frame), rest, r1) \<Rightarrow>
          (if sent then (None, Some (to_message frame), rest, r1)
           else (Some PumpClientGone, None, rest, r1)))"

section \<open>The bridge\<close>

definition idle_close :: "nat \<Rightarrow> message" where
  "idle_close dur =
     Close (Some \<lparr>code = close_idle_timeout, reason = ''idle-timeout after '' @ show_nat dur @ ''ms''\<rparr>)"

definition bridge_step ::
    "memchr_fun \<Rightarrow> ('w \<Rightarrow> bytes \<Rightarrow> io_error option \<times> 'w) \<Rightarrow> nat option \<Rightarrow> bridge_event
     \<Rightarrow> 'w bridge_state \<Rightarrow> ended option \<times> 'w bridge_state" where
  "bridge_step memchr write_all idle_timeout ev s =
     (case ev of
        FromClient ce \<Rightarrow>
          (case pump_client_to_browser write_all idle_timeout ce (bwriter s) of
             (None, w) \<Rightarrow> (None, s\<lparr>bwriter := w\<rparr>)
           | (Some (PumpIdleTimeout dur), w) \<Rightarrow>
               (Some EndedIdleTimeout, s\<lparr>bwriter := w, sink := sink s @ [idle_close dur]\<rparr>)
           | (Some PumpClientFinished, w) \<Rightarrow> (Some EndedClientFinished, s\<lparr>bwriter := w\<rparr>)
           | (Some ClientClosed, w) \<Rightarrow> (Some EndedClientGone, s\<lparr>bwriter := w\<rparr>))
      | FromBrowser new sent \<Rightarrow>
          (case pump_browser_to_client memchr sent (unread s @ new) (breader s) of
             (exit, msg, rest, r) \<Rightarrow>
               (case exit of
                  None \<Rightarrow> None
                | Some PumpBrowserGone \<Rightarrow> Some EndedBrowserGone
                | Some PumpClientGone \<Rightarrow> Some EndedClientGone,
                s\<lparr>breader := r, unread := rest,
                  sink := sink s @ (case msg of None \<Rightarrow> [] | Some m \<Rightarrow> [m])\<rparr>)))"

fun bridge_run ::
    "memchr_fun \<Rightarrow> ('w \<Rightarrow> bytes \<Rightarrow> io_error option \<times> 'w) \<Rightarrow> nat option \<Rightarrow> bridge_event list
     \<Rightarrow> 'w bridge_state \<Rightarrow> ended option \<times> 'w bridge_state" where
  "bridge_run memchr write_all idle [] s = (None, s)"
| "bridge_run memchr write_all idle (ev # evs) s =
     (case bridge_step memchr write_all idle ev s of
        (None, s1) \<Rightarrow> bridge_run memchr write_all idle evs s1
      | (Some e, s1) \<Rightarrow> (Some e, s1))"

definition bridge_start :: "'w cdp_pipe \<Rightarrow> 'w bridge_state" where
  "bridge_start pipe =
     (let (r, w) = pipe_split pipe in \<lparr>bwriter = w, breader = r, unread = [], sink = []\<rparr>)"

definition bridge_session ::
    "memchr_fun \<Rightarrow> ('w \<Rightarrow> bytes \<Rightarrow> io_error option \<times> 'w) \<Rightarrow> nat option \<Rightarrow> bridge_event list
     \<Rightarrow> 'w cdp_pipe \<Rightarrow> 'w bridge_end option \<times> message list" where
  "bridge_session memchr write_all idle_timeout evs pipe =
     (case bridge_run memchr write_all idle_timeout evs (bridge_start pipe) of
        (e, s) \<Rightarrow>
          (map_option
             (\<lambda>ended. case ended of
                EndedClientGone \<Rightarrow> ClientGone (from_halves (breader s) (bwriter s))
              | EndedClientFinished \<Rightarrow> ClientFinished (from_halves (breader s) (bwriter s))
              | EndedIdleTimeout \<Rightarrow> IdleTimeout (from_halves (breader s) (bwriter s))
              | EndedBrowserGone \<Rightarrow> BrowserGone) e,
           sink s))"

definition reclaim :: "'w bridge_end \<Rightarrow> 'w cdp_pipe option" where
  "reclaim e =
     (case e of
        ClientGone pipe \<Rightarrow> Some pipe
      | ClientFinished pipe \<Rightarrow> Some pipe
      | IdleTimeout pipe \<Rightarrow> Some pipe
      | BrowserGone \<Rightarrow> None)"

definition bridge_reclaimable ::
    "memchr_fun \<Rightarrow> ('w \<Rightarrow> bytes \<Rightarrow> io_error option \<times> 'w) \<Rightarrow> nat option \<Rightarrow> bridge_event list
     \<Rightarrow> 'w cdp_pipe \<Rightarrow> 'w cdp_pipe option option" where
  "bridge_reclaimable memchr write_all idle_timeout evs pipe =
     map_option reclaim (fst (bridge_session memchr write_all idle_timeout evs pipe))"

section \<open>What a running bridge has relayed\<close>

fun payload :: "bridge_event \<Rightarrow> bytes list" where
  "payload (FromClient (Incoming (Text t))) = [t]"
| "payload (FromClient (Incoming (Binary b))) = [b]"
| "payload _ = []"

fun arrived :: "bridge_event \<Rightarrow> read_result list" where
  "arrived (FromBrowser new _) = new"
| "arrived (FromClient _) = []"

definition is_data :: "read_result \<Rightarrow> bool" where
  "is_data x \<longleftrightarrow> (\<exists>ds. x = Data ds \<and> ds \<noteq> [])"

lemma incoming_append: "list_all is_data xs \<Longrightarrow> incoming (xs @ ys) = incoming xs @ incoming ys"
  by (induction xs) (auto simp: is_data_def)

lemma recv_raw_conserves:
  assumes "memchr_ok memchr" "list_all is_data reads" "recv_raw memchr reads r = (res, rest, r')"
  shows "list_all is_data rest \<and> max_frame r' = max_frame r \<and>
         buf r @ incoming reads =
           (case res of Some (Inr f) \<Rightarrow> f @ [0] | _ \<Rightarrow> []) @ buf r' @ incoming rest"
  using assms(2,3)
proof (induction reads arbitrary: r)
  case Nil
  show ?case
    using assms(1) by (rule take_frame_cases [where b = "buf r" and n = "max_frame r"]) (use Nil in auto)
next
  case (Cons x xs)
  then obtain ds where x: "x = Data ds" "ds \<noteq> []" by (auto simp: is_data_def)
  show ?case
    using assms(1)
  proof (rule take_frame_cases [where b = "buf r" and n = "max_frame r"])
    assume part: "take_frame memchr (buf r) (max_frame r) = (Inr None, buf r)"
    then have "recv_raw memchr xs (r\<lparr>buf := buf r @ ds\<rparr>) = (res, rest, r')"
      using Cons.prems x by simp
    from Cons.IH [OF _ this] Cons.prems x show ?thesis by simp
  qed (use Cons.prems x in auto)
qed

text \<open>
  The state of the relay: what is written to the browser is the wire form of what the client sent,
  what is in the client's sink are whole frames, and no byte of the browser is lost or duplicated.
\<close>

definition relayed :: "bytes \<Rightarrow> bytes list \<Rightarrow> bytes list \<Rightarrow> bytes bridge_state \<Rightarrow> bool" where
  "relayed got sent delivered s \<longleftrightarrow>
     bwriter s = wire sent \<and> sink s = map to_message delivered \<and> list_all is_data (unread s) \<and>
     got = wire delivered @ buf (breader s) @ incoming (unread s)"

lemma client_step_relayed:
  assumes "relayed got sent delivered s"
    and "bridge_step memchr open_pipe idle (FromClient ce) s = (None, s')"
  shows "relayed got (sent @ payload (FromClient ce)) delivered s'"
  using assms
  by (cases ce)
     (auto simp: relayed_def bridge_step_def pump_client_to_browser_def Let_def
       split: message.splits option.splits pump_exit.splits)

lemma browser_step_relayed:
  assumes "memchr_ok memchr" "relayed got sent delivered s" "list_all is_data new"
    and "bridge_step memchr open_pipe idle (FromBrowser new ok) s = (None, s')"
  shows "\<exists>more. relayed (got @ incoming new) sent (delivered @ more) s'"
proof -
  obtain res rest r' where e: "recv_raw memchr (unread s @ new) (breader s) = (res, rest, r')"
    by (cases "recv_raw memchr (unread s @ new) (breader s)")
  have d: "list_all is_data (unread s @ new)" using assms(2,3) by (simp add: relayed_def)
  note c = recv_raw_conserves [OF assms(1) d e]
  show ?thesis
  proof (cases res)
    case None
    then show ?thesis
      using assms(2,4) e c by (intro exI [of _ "[]"])
        (auto simp: relayed_def bridge_step_def pump_browser_to_client_def incoming_append)
  next
    case (Some x)
    then obtain f where "x = Inr f"
      using assms(4) e by (cases x) (auto simp: bridge_step_def pump_browser_to_client_def)
    then show ?thesis
      using assms(2,4) e c Some by (intro exI [of _ "[f]"])
        (auto simp: relayed_def bridge_step_def pump_browser_to_client_def incoming_append
          split: if_splits)
  qed
qed

lemma bridge_run_relayed:
  assumes "memchr_ok memchr" "relayed got sent delivered s"
    and "list_all (\<lambda>ev. list_all is_data (arrived ev)) evs"
    and "bridge_run memchr open_pipe idle evs s = (None, s')"
  shows "\<exists>more. relayed (got @ incoming (concat (map arrived evs)))
                  (sent @ concat (map payload evs)) (delivered @ more) s'"
  using assms(2-)
proof (induction evs arbitrary: s got sent delivered)
  case (Cons ev evs)
  then obtain s1 where s1: "bridge_step memchr open_pipe idle ev s = (None, s1)"
      "bridge_run memchr open_pipe idle evs s1 = (None, s')"
    by (auto split: prod.splits option.splits)
  have data: "list_all is_data (arrived ev)" using Cons.prems by simp
  have "\<exists>m. relayed (got @ incoming (arrived ev)) (sent @ payload ev) (delivered @ m) s1"
  proof (cases ev)
    case (FromClient ce)
    then show ?thesis
      using client_step_relayed [OF Cons.prems(1)] s1(1) by (intro exI [of _ "[]"]) simp
  next
    case (FromBrowser new ok)
    then show ?thesis
      using browser_step_relayed [OF assms(1) Cons.prems(1)] s1(1) data by simp
  qed
  then obtain m where "relayed (got @ incoming (arrived ev)) (sent @ payload ev) (delivered @ m) s1" ..
  from Cons.IH [OF this _ s1(2)] Cons.prems(2) show ?case
    by (auto simp: incoming_append [OF data])
qed (auto intro: exI [of _ "[]"])

text \<open>
  Property C10: the bridge is transparent. While it runs, under every interleaving of the two
  directions, the browser has been written exactly the client's text and binary messages, in order,
  one frame each; the client has been sent exactly the browser's frames, in order, one message each
  (text when the frame is UTF-8, binary otherwise); and every other byte the browser produced is
  still in the read buffer or unread.
\<close>

theorem bridge_transparent:
  assumes "memchr_ok memchr" "list_all (\<lambda>ev. list_all is_data (arrived ev)) evs"
    and "bridge_run memchr open_pipe idle evs (bridge_start (pipe_new [] cap)) = (None, s)"
  shows "bwriter s = wire (concat (map payload evs)) \<and>
         (\<exists>frames. sink s = map to_message frames \<and>
            incoming (concat (map arrived evs)) = wire frames @ buf (breader s) @ incoming (unread s))"
proof -
  have "relayed [] [] [] (bridge_start (pipe_new [] cap))"
    by (simp add: relayed_def bridge_start_def pipe_new_def pipe_split_def)
  from bridge_run_relayed [OF assms(1) this assms(2,3)] show ?thesis
    by (auto simp: relayed_def)
qed

definition demo_events :: "bridge_event list" where
  "demo_events = [FromBrowser [Data [123]] True, FromClient (Incoming (Text [1, 2])),
                  FromBrowser [Data [125, 0, 9]] True, FromClient (Incoming (Ping []))]"

theorem bridge_transparent_witness:
  "bwriter (snd (bridge_run find_byte open_pipe None demo_events (bridge_start (pipe_new [] 10))))
     = [1, 2, 0]"
proof -
  have "fst (bridge_run find_byte open_pipe None demo_events (bridge_start (pipe_new [] 10))) = None"
    by code_simp
  then show ?thesis
    using bridge_transparent [OF find_byte_ok, of demo_events None 10]
    by (cases "bridge_run find_byte open_pipe None demo_events (bridge_start (pipe_new [] 10))")
       (simp add: demo_events_def is_data_def)
qed

end
