(* ===== verification/Resume.thy ===== *)
theory Resume
  imports Bridge Cdp_Client "HOL-Library.AList"
begin

text \<open>
  \<^verbatim>\<open>src/server/resume.rs\<close>: the registry of parked sessions and the life of a resumable session.
  The registry's map is an association list; a parked session is reached through a hand-off (the
  sending end of a channel). \<open>serve\<close> follows the source's loop over a list of rounds, one per
  client: how the bridge to that client ran, and what happened while the browser was parked.
\<close>

section \<open>The registry\<close>

record 'h resume_registry =
  window :: nat
  parked :: "(string \<times> 'h) list"

definition registry_new :: "nat \<Rightarrow> 'h resume_registry" where
  "registry_new w = \<lparr>window = w, parked = []\<rparr>"

definition hex_digit :: "nat \<Rightarrow> char" where
  "hex_digit n = (if n < 10 then char_of (48 + n) else char_of (87 + n))"

text \<open>The format \<^verbatim>\<open>02x\<close> of one byte, and a token made of the random source's bytes.\<close>

definition hex_byte :: "u8 \<Rightarrow> string" where
  "hex_byte b = [hex_digit (unat b div 16), hex_digit (unat b mod 16)]"

definition new_token :: "string + bytes \<Rightarrow> string + string" where
  "new_token filled = (case filled of Inl e \<Rightarrow> Inl e | Inr bs \<Rightarrow> Inr (concat (map hex_byte bs)))"

definition registry_claim :: "string \<Rightarrow> 'h resume_registry \<Rightarrow> 'h option \<times> 'h resume_registry" where
  "registry_claim token reg =
     (map_of (parked reg) token, reg\<lparr>parked := AList.delete token (parked reg)\<rparr>)"

definition parked_count :: "'h resume_registry \<Rightarrow> nat" where
  "parked_count reg = length (parked reg)"

definition park :: "string \<Rightarrow> 'h \<Rightarrow> 'h resume_registry \<Rightarrow> 'h resume_registry" where
  "park token handoff reg = reg\<lparr>parked := AList.update token handoff (parked reg)\<rparr>"

definition unpark :: "string \<Rightarrow> 'h resume_registry \<Rightarrow> 'h resume_registry" where
  "unpark token reg = reg\<lparr>parked := AList.delete token (parked reg)\<rparr>"

section \<open>A clean slate for the next client\<close>

definition cleanup_first_id :: u64 where
  "cleanup_first_id = 2000000000"

text \<open>The targets that Chrome reports as attached.\<close>

definition attached_targets :: "'j json_api \<Rightarrow> 'j \<Rightarrow> string list" where
  "attached_targets J targets =
     (case Option.bind (jget J ''targetInfos'' targets) (as_array J) of
        None \<Rightarrow> []
      | Some infos \<Rightarrow>
          List.map_filter (\<lambda>t. Option.bind (jget J ''targetId'' t) (as_str J))
            (filter (\<lambda>t. Option.bind (jget J ''attached'' t) (as_bool J) = Some True) infos))"

text \<open>
  \<^verbatim>\<open>clean_slate\<close> over its timed calls: \<open>do_call\<close> is one call under the timeout, \<open>None\<close> when the
  timeout fired.
\<close>

fun detach_all ::
    "'j json_api \<Rightarrow> (string \<Rightarrow> 'j \<Rightarrow> 's \<Rightarrow> (cdp_error + 'j) option \<times> 's) \<Rightarrow> string list \<Rightarrow> 's \<Rightarrow> 's" where
  "detach_all J do_call [] s = s"
| "detach_all J do_call (t # ts) s =
     detach_all J do_call ts
       (snd (do_call ''Target.detachFromTarget'' (jobject J [(''targetId'', jstring J t)]) s))"

definition clean_slate ::
    "'j json_api \<Rightarrow> (string \<Rightarrow> 'j \<Rightarrow> 's \<Rightarrow> (cdp_error + 'j) option \<times> 's) \<Rightarrow> 's \<Rightarrow> 's" where
  "clean_slate J do_call s =
     (let (r, s1) = do_call ''Target.getTargets'' (jobject J []) s;
          s2 = (case r of
                  Some (Inr targets) \<Rightarrow> detach_all J do_call (attached_targets J targets) s1
                | _ \<Rightarrow> s1);
          s3 = snd (do_call ''Target.setAutoAttach''
                      (jobject J [(''autoAttach'', jbool J False),
                                  (''waitForDebuggerOnStart'', jbool J False)]) s2)
      in snd (do_call ''Target.setDiscoverTargets'' (jobject J [(''discover'', jbool J False)]) s3))"

section \<open>Serving a resumable session\<close>

datatype parked_end = Resumed | Expired | Gone

datatype park_event =
    Handoff
  | HandoffDropped
  | Deadline
  | ParkCancelled
  | ParkRead "read_result list"

text \<open>
  The waiting loop: frames of the browser are received and thrown away; \<open>unread\<close> is what the pipe
  holds beyond the last frame.
\<close>

fun park_wait ::
    "memchr_fun \<Rightarrow> park_event list \<Rightarrow> read_result list \<Rightarrow> cdp_reader
     \<Rightarrow> parked_end option \<times> cdp_reader" where
  "park_wait memchr [] unread0 r = (None, r)"
| "park_wait memchr (ev # evs) unread0 r =
     (case ev of
        Handoff \<Rightarrow> (Some Resumed, r)
      | HandoffDropped \<Rightarrow> (Some Expired, r)
      | Deadline \<Rightarrow> (Some Expired, r)
      | ParkCancelled \<Rightarrow> (Some Gone, r)
      | ParkRead new \<Rightarrow>
          (case recv_raw memchr (unread0 @ new) r of
             (Some (Inl _), rest, r1) \<Rightarrow> (Some Gone, r1)
           | (_, rest, r1) \<Rightarrow> park_wait memchr evs rest r1))"

datatype round = Cancelled | Served "bridge_event list" "park_event list"

record ('j, 'w) serve_env =
  env_memchr :: memchr_fun
  env_write :: "'w \<Rightarrow> bytes \<Rightarrow> io_error option \<times> 'w"
  env_json :: "'j json_api"
  env_call :: "string \<Rightarrow> 'j \<Rightarrow> cdp_client \<times> 'w cdp_pipe \<Rightarrow>
               (cdp_error + 'j) option \<times> cdp_client \<times> 'w cdp_pipe"

text \<open>
  The result is \<open>None\<close> while the session goes on, \<open>Some None\<close> when it ended without a browser to
  read from, \<open>Some (Some pipe)\<close> when the browser is still running.
\<close>

fun serve ::
    "('j, 'w) serve_env \<Rightarrow> string \<Rightarrow> 'h \<Rightarrow> nat option \<Rightarrow> round list \<Rightarrow> 'h resume_registry
     \<Rightarrow> 'w cdp_pipe \<Rightarrow> 'w cdp_pipe option option \<times> 'h resume_registry" where
  "serve env token handoff idle [] reg pipe = (None, reg)"
| "serve env token handoff idle (Cancelled # rs) reg pipe = (Some None, reg)"
| "serve env token handoff idle (Served evs pevs # rs) reg pipe =
     (case fst (bridge_session (env_memchr env) (env_write env) idle evs pipe) of
        None \<Rightarrow> (None, reg)
      | Some BrowserGone \<Rightarrow> (Some None, reg)
      | Some (ClientFinished live) \<Rightarrow> (Some (Some live), reg)
      | Some (IdleTimeout live) \<Rightarrow> (Some (Some live), reg)
      | Some (ClientGone returned) \<Rightarrow>
          (let reg1 = park token handoff reg;
               (r, w) = pipe_split returned;
               (waited, r1) = park_wait (env_memchr env) pevs [] r
           in case waited of
                None \<Rightarrow> (None, reg1)
              | Some Expired \<Rightarrow> (Some (Some (from_halves r1 w)), unpark token reg1)
              | Some Gone \<Rightarrow> (Some None, unpark token reg1)
              | Some Resumed \<Rightarrow>
                  serve env token handoff idle rs (unpark token reg1)
                    (snd (clean_slate (env_json env) (env_call env)
                            (with_first_id cleanup_first_id, from_halves r1 w)))))"

section \<open>Tokens\<close>

lemma hex_digit_code: "n < 16 \<Longrightarrow> of_char (hex_digit n) = (if n < 10 then 48 + n else 87 + n)"
  by (simp add: hex_digit_def of_char_of)

lemma hex_digit_inj:
  assumes "a < 16" "b < 16" "hex_digit a = hex_digit b"
  shows "a = b"
proof -
  have "(if a < 10 then 48 + a else 87 + a) = (if b < 10 then 48 + b else 87 + b)"
    by (simp only: assms(3) flip: hex_digit_code [OF assms(1)] hex_digit_code [OF assms(2)])
  then show ?thesis using assms(1,2) by (cases "a < 10"; cases "b < 10") simp_all
qed

lemma hex_byte_inj: "hex_byte a = hex_byte b \<longleftrightarrow> a = b"
proof
  assume h: "hex_byte a = hex_byte b"
  have lt: "unat a < 256" "unat b < 256"
    using unsigned_less [of a, where ?'a = nat] unsigned_less [of b, where ?'a = nat] by simp_all
  have "unat a div 16 = unat b div 16" "unat a mod 16 = unat b mod 16"
    by (rule hex_digit_inj; use h lt in \<open>simp add: hex_byte_def\<close>)+
  then have "unat a = unat b" by (metis div_mult_mod_eq)
  then show "a = b" by (rule unsigned_word_eqI)
qed simp

lemma hex_bytes_inj: "concat (map hex_byte as) = concat (map hex_byte bs) \<longleftrightarrow> as = bs"
proof (induction as arbitrary: bs)
  case Nil
  then show ?case by (cases bs) (auto simp: hex_byte_def)
next
  case (Cons a as)
  have two: "length (hex_byte x) = 2" for x by (simp add: hex_byte_def)
  show ?case
  proof (cases bs)
    case (Cons b bs')
    then show ?thesis
      using Cons.IH [of bs'] two [of a] two [of b] hex_byte_inj [of a b] by auto
  qed (simp add: hex_byte_def)
qed

lemma hex_bytes_length: "length (concat (map hex_byte bs)) = 2 * length bs"
  by (induction bs) (simp_all add: hex_byte_def)

definition hex_digits :: string where
  "hex_digits = ''0123456789abcdef''"

lemma hex_digit_lower: "n < 16 \<Longrightarrow> hex_digit n \<in> set hex_digits"
proof -
  assume "n < 16"
  then have "n \<in> set [0..<16]" by simp
  moreover have "\<forall>k \<in> set [0..<16]. hex_digit k \<in> set hex_digits" by code_simp
  ultimately show ?thesis by blast
qed

text \<open>
  A resume token carries all the randomness it was made from. Thirty-two random bytes
  give a token of sixty-four lower-case hexadecimal digits, and different bytes always give
  different tokens.
\<close>

theorem resume_token_injective:
  assumes "length bs = 32" "new_token (Inr bs) = Inr t"
  shows "length t = 64 \<and> set t \<subseteq> set hex_digits \<and>
         (new_token (Inr bs') = Inr t \<longrightarrow> bs' = bs)"
proof -
  have "unat b div 16 < 16" for b :: u8
    using unsigned_less [of b, where ?'a = nat] by simp
  then have "set (hex_byte b) \<subseteq> set hex_digits" for b
    using hex_digit_lower [of "unat b div 16"] hex_digit_lower [of "unat b mod 16"]
    by (simp add: hex_byte_def)
  then have "set (concat (map hex_byte bs)) \<subseteq> set hex_digits" by auto
  then show ?thesis
    using assms hex_bytes_length [of bs] hex_bytes_inj by (auto simp: new_token_def)
qed

theorem resume_token_injective_witness:
  "length (concat (map hex_byte (replicate 32 171))) = 64 \<and> hex_byte 171 = ''ab''"
proof
  show "length (concat (map hex_byte (replicate 32 171))) = 64"
    using resume_token_injective [of "replicate 32 171" "concat (map hex_byte (replicate 32 171))"]
    by (simp only: length_replicate new_token_def sum.case)
  show "hex_byte 171 = ''ab''" by code_simp
qed

section \<open>One client per parking\<close>

datatype 'h registry_op = Park string 'h | ClaimToken string | Unpark string

definition registry_event ::
    "'h registry_op \<Rightarrow> 'h resume_registry \<Rightarrow> (string \<times> 'h) option \<times> 'h resume_registry" where
  "registry_event op reg =
     (case op of
        Park t h \<Rightarrow> (None, park t h reg)
      | ClaimToken t \<Rightarrow> (let (r, reg1) = registry_claim t reg in (map_option (Pair t) r, reg1))
      | Unpark t \<Rightarrow> (None, unpark t reg))"

definition is_parked :: "'h resume_registry \<Rightarrow> string \<Rightarrow> bool" where
  "is_parked reg t \<longleftrightarrow> map_of (parked reg) t \<noteq> None"

fun parks :: "'h registry_op \<Rightarrow> string \<Rightarrow> bool" where
  "parks (Park t _) k = (t = k)"
| "parks _ k = False"

lemmas registry_defs = registry_event_def registry_claim_def park_def unpark_def is_parked_def

interpretation resume_once: one_shot registry_event "\<lambda>_. True" is_parked parks
proof
  fix reg :: "'h resume_registry" and op k v reg'
  assume "registry_event op reg = (Some (k, v), reg')"
  then show "is_parked reg k \<and> \<not> is_parked reg' k"
    by (auto simp: registry_defs delete_conv' split: registry_op.splits)
next
  fix reg :: "'h resume_registry" and op r reg' j
  assume "registry_event op reg = (r, reg')" "is_parked reg' j"
  then show "is_parked reg j \<or> parks op j"
    by (auto simp: registry_defs delete_conv' update_conv' Let_def
        split: registry_op.splits if_splits)
qed simp

text \<open>
  A parked browser goes to one client. Between two parkings of a token, however many
  clients present it and in whatever order, at most one of them is given the hand-off; a token that
  is not parked is given to nobody.
\<close>

theorem resume_claimed_once:
  assumes "list_all (\<lambda>op. \<not> parks op k) ops"
  shows "length (filter (\<lambda>r. fst r = k) (fst (trace registry_event ops reg)))
           \<le> (if is_parked reg k then 1 else 0)"
  using resume_once.at_most_once [OF TrueI assms] .

theorem resume_claimed_once_witness:
  "length (filter (\<lambda>r. fst r = ''t'')
     (fst (trace registry_event [ClaimToken ''t'', ClaimToken ''t''] (park ''t'' (5::nat) (registry_new 9))))) \<le> 1"
  using resume_claimed_once [of "''t''" "[ClaimToken ''t'', ClaimToken ''t'']" "park ''t'' (5::nat) (registry_new 9)"]
  by (simp add: park_def registry_new_def is_parked_def)

section \<open>The end of a session\<close>

lemma unpark_park_absent: "\<not> is_parked (unpark t reg) t"
  by (simp add: is_parked_def unpark_def delete_conv')

lemma unpark_park_other:
  "t' \<noteq> t \<Longrightarrow> map_of (parked (unpark t (park t h reg))) t' = map_of (parked reg) t'"
  by (simp add: unpark_def park_def delete_conv' update_conv')

lemma serve_registry:
  assumes "serve env token handoff idle rs reg pipe = (res, reg')" "\<not> is_parked reg token"
  shows "(res \<noteq> None \<longrightarrow> \<not> is_parked reg' token) \<and>
         (\<forall>t. t \<noteq> token \<longrightarrow> map_of (parked reg') t = map_of (parked reg) t)"
  using assms
proof (induction rs arbitrary: reg pipe)
  case (Cons x rs)
  show ?case
  proof (cases "\<exists>evs pevs p. x = Served evs pevs \<and>
      fst (bridge_session (env_memchr env) (env_write env) idle evs pipe) = Some (ClientGone p)")
    case True
    then obtain evs pevs p where p: "x = Served evs pevs"
        "fst (bridge_session (env_memchr env) (env_write env) idle evs pipe) = Some (ClientGone p)"
      by blast
    obtain waited r1 where w: "park_wait (env_memchr env) pevs [] (reader p) = (waited, r1)"
      by (cases "park_wait (env_memchr env) pevs [] (reader p)")
    note absent = unpark_park_absent [of token "park token handoff reg"]
    show ?thesis
    proof (cases "waited = Some Resumed")
      case True
      then have "serve env token handoff idle rs (unpark token (park token handoff reg))
          (snd (clean_slate (env_json env) (env_call env)
             (with_first_id cleanup_first_id, from_halves r1 (writer p)))) = (res, reg')"
        using Cons.prems(1) p w by (simp add: pipe_split_def Let_def)
      from Cons.IH [OF this absent] show ?thesis
        by (simp add: unpark_park_other)
    next
      case False
      then show ?thesis
        using Cons.prems p w absent
        by (cases waited) (auto simp: pipe_split_def Let_def unpark_park_other
            split: parked_end.splits, simp add: park_def update_conv')
    qed
  next
    case False
    then show ?thesis
      using Cons.prems by (cases x) (auto split: option.splits bridge_end.splits)
  qed
qed simp

text \<open>
  A finished session leaves nothing behind. When a resumable session is over, for
  whatever reason and after however many clients, its token is not in the registry, and no other
  session's entry was touched.
\<close>

theorem ended_session_not_resumable:
  assumes "serve env token handoff idle rs reg pipe = (Some res, reg')" "\<not> is_parked reg token"
  shows "fst (registry_claim token reg') = None \<and>
         (\<forall>t. t \<noteq> token \<longrightarrow> map_of (parked reg') t = map_of (parked reg) t)"
  using serve_registry [OF assms] by (simp add: registry_claim_def is_parked_def)

definition demo_env :: "(json, bytes) serve_env" where
  "demo_env = \<lparr>env_memchr = find_byte, env_write = open_pipe, env_json = json_values,
               env_call = (\<lambda>method params s. (None, s))\<rparr>"

lemma demo_serve:
  "serve demo_env ''t'' () None [Served [FromClient IncomingEnd] [Handoff], Served [FromClient IncomingError] [Deadline]]
     (registry_new 5) (pipe_new [] 9) = (Some (Some (pipe_new [] 9)), registry_new 5)"
  by (simp add: demo_env_def bridge_session_def bridge_start_def pipe_split_def pipe_new_def
      bridge_step_def pump_client_to_browser_def from_halves_def clean_slate_def park_def unpark_def
      registry_new_def Let_def)

theorem ended_session_not_resumable_witness:
  "fst (registry_claim ''t'' (registry_new 5 :: unit resume_registry)) = None"
  using ended_session_not_resumable [OF demo_serve] by (simp add: is_parked_def registry_new_def)

lemma detach_all_log:
  "detach_all J (\<lambda>m p log. (answer m p log, log @ [(m, p)])) ts log =
   log @ map (\<lambda>t. (''Target.detachFromTarget'', jobject J [(''targetId'', jstring J t)])) ts"
  by (induction ts arbitrary: log) simp_all

text \<open>
  The next client starts clean. Whatever Chrome answers, or if it does not answer, the
  clean-up asks for the targets, detaches exactly the ones reported as attached, in their order,
  and then switches off auto-attach and target discovery; no failure of one call skips a later one.
\<close>

theorem clean_slate_commands:
  "clean_slate J (\<lambda>m p log. (answer m p log, log @ [(m, p)])) [] =
     [(''Target.getTargets'', jobject J [])] @
     map (\<lambda>t. (''Target.detachFromTarget'', jobject J [(''targetId'', jstring J t)]))
       (case answer ''Target.getTargets'' (jobject J []) [] of
          Some (Inr targets) \<Rightarrow> attached_targets J targets | _ \<Rightarrow> []) @
     [(''Target.setAutoAttach'',
         jobject J [(''autoAttach'', jbool J False), (''waitForDebuggerOnStart'', jbool J False)]),
      (''Target.setDiscoverTargets'', jobject J [(''discover'', jbool J False)])]"
  by (simp add: clean_slate_def detach_all_log Let_def split: option.splits sum.splits)

text \<open>
  The clean-up is never fooled by the previous client. The number of each of its
  commands stays below two to the thirty-first, and every late reply to a command numbered below two
  thousand million is skipped.
\<close>

theorem cleanup_skips_late_replies:
  assumes "k < 147483648" "list_all (\<lambda>m. \<exists>n. msg_id J m = Some n \<and> n < 2000000000) late"
  shows "unat (next_id (with_first_id cleanup_first_id) + of_nat k) = 2000000000 + k \<and>
         2000000000 + k < 2 ^ 31 \<and>
         await_reply J (next_id (with_first_id cleanup_first_id) + of_nat k) method (map Inr late @ rest) =
         await_reply J (next_id (with_first_id cleanup_first_id) + of_nat k) method rest"
proof -
  let ?id = "next_id (with_first_id cleanup_first_id) + of_nat k :: u64"
  have id: "unat ?id = 2000000000 + k"
    using assms(1) by (simp add: with_first_id_def cleanup_first_id_def unat_word_ariths unat_of_nat
        take_bit_eq_mod)
  have "list_all (\<lambda>m. msg_id J m \<noteq> Some ?id) late"
    using assms(2)
  proof (rule list.pred_mono_strong)
    fix m assume "\<exists>n. msg_id J m = Some n \<and> n < 2000000000"
    then obtain n where n: "msg_id J m = Some n" "unat n < 2000000000"
      by (auto simp: word_less_nat_alt)
    then show "msg_id J m \<noteq> Some ?id" using id by auto
  qed
  then show ?thesis
    using id assms(1) by (simp add: await_reply_skip)
qed

theorem cleanup_skips_late_replies_witness:
  "await_reply json_values (next_id (with_first_id cleanup_first_id) + of_nat 3) ''m''
     (map Inr [JObject [(''id'', JNum 7)]] @ []) =
   await_reply json_values (next_id (with_first_id cleanup_first_id) + of_nat 3) ''m'' []"
proof -
  have "list_all (\<lambda>m. \<exists>n. msg_id json_values m = Some n \<and> n < 2000000000) [JObject [(''id'', JNum 7)]]"
    by (simp add: msg_id_def json_values_def)
  from cleanup_skips_late_replies [OF _ this, of 3] show ?thesis by simp
qed

end
