(* ===== verification/Rust_Net.thy ===== *)
theory Rust_Net
  imports Rust_Str
begin

text \<open>
  IP addresses as Rust's \<^verbatim>\<open>std::net\<close> has them: IPv4 as four octets, IPv6 as eight 16-bit segments,
  the address classes the server asks for, and the text parser (\<^verbatim>\<open>IpAddr::from_str\<close>), with its
  refusal of leading zeros in IPv4 and its handling of \<^verbatim>\<open>::\<close> and of an embedded IPv4 tail.
\<close>

unbundle bit_operations_syntax

section \<open>Addresses\<close>

datatype ipv4 = V4 (oct1: u8) (oct2: u8) (oct3: u8) (oct4: u8)

datatype ipv6 = V6 (seg0: u16) (seg1: u16) (seg2: u16) (seg3: u16)
                   (seg4: u16) (seg5: u16) (seg6: u16) (seg7: u16)

datatype ip_addr = IpV4 ipv4 | IpV6 ipv6

type_synonym socket_addr = "ip_addr \<times> u16"

section \<open>Classes of addresses\<close>

fun v4_unspecified :: "ipv4 \<Rightarrow> bool" where
  "v4_unspecified (V4 a b c d) \<longleftrightarrow> a = 0 \<and> b = 0 \<and> c = 0 \<and> d = 0"

fun v4_loopback :: "ipv4 \<Rightarrow> bool" where
  "v4_loopback (V4 a b c d) \<longleftrightarrow> a = 127"

fun v4_private :: "ipv4 \<Rightarrow> bool" where
  "v4_private (V4 a b c d) \<longleftrightarrow> a = 10 \<or> (a = 172 \<and> 16 \<le> b \<and> b \<le> 31) \<or> (a = 192 \<and> b = 168)"

fun v4_link_local :: "ipv4 \<Rightarrow> bool" where
  "v4_link_local (V4 a b c d) \<longleftrightarrow> a = 169 \<and> b = 254"

fun v4_multicast :: "ipv4 \<Rightarrow> bool" where
  "v4_multicast (V4 a b c d) \<longleftrightarrow> 224 \<le> a \<and> a \<le> 239"

fun v4_broadcast :: "ipv4 \<Rightarrow> bool" where
  "v4_broadcast (V4 a b c d) \<longleftrightarrow> a = 255 \<and> b = 255 \<and> c = 255 \<and> d = 255"

definition v6_unspecified :: "ipv6 \<Rightarrow> bool" where
  "v6_unspecified ip \<longleftrightarrow> ip = V6 0 0 0 0 0 0 0 0"

definition v6_loopback :: "ipv6 \<Rightarrow> bool" where
  "v6_loopback ip \<longleftrightarrow> ip = V6 0 0 0 0 0 0 0 1"

definition v6_multicast :: "ipv6 \<Rightarrow> bool" where
  "v6_multicast ip \<longleftrightarrow> (seg0 ip AND 0xff00) = 0xff00"

text \<open>The two octets of a segment, most significant first, and back.\<close>

definition hi_octet :: "u16 \<Rightarrow> u8" where
  "hi_octet w = ucast (drop_bit 8 w)"

definition lo_octet :: "u16 \<Rightarrow> u8" where
  "lo_octet w = ucast w"

definition be_u16 :: "u8 \<Rightarrow> u8 \<Rightarrow> u16" where
  "be_u16 h l = of_nat (unat h * 256 + unat l)"

fun to_ipv4_mapped :: "ipv6 \<Rightarrow> ipv4 option" where
  "to_ipv4_mapped (V6 a b c d e f g h) =
     (if a = 0 \<and> b = 0 \<and> c = 0 \<and> d = 0 \<and> e = 0 \<and> f = 0xffff
      then Some (V4 (hi_octet g) (lo_octet g) (hi_octet h) (lo_octet h)) else None)"

definition v6_octets :: "ipv6 \<Rightarrow> u8 list" where
  "v6_octets ip = concat (map (\<lambda>s. [hi_octet s, lo_octet s])
     [seg0 ip, seg1 ip, seg2 ip, seg3 ip, seg4 ip, seg5 ip, seg6 ip, seg7 ip])"

definition v4_octets :: "ipv4 \<Rightarrow> u8 list" where
  "v4_octets ip = [oct1 ip, oct2 ip, oct3 ip, oct4 ip]"

fun ip_is_loopback :: "ip_addr \<Rightarrow> bool" where
  "ip_is_loopback (IpV4 ip) = v4_loopback ip"
| "ip_is_loopback (IpV6 ip) = v6_loopback ip"

lemma unat_u8_lt [simp]: "unat (w :: u8) < 256"
  using unsigned_less [of w, where ?'a = nat] by simp

lemma unat_be_u16: "unat (be_u16 h l) = unat h * 256 + unat l"
proof -
  have "unat h < 256" "unat l < 256" by simp_all
  then have "unat h * 256 + unat l < 65536" by linarith
  then show ?thesis
    by (simp add: be_u16_def unat_of_nat take_bit_eq_mod del: of_nat_add of_nat_mult)
qed

lemma hi_octet_be [simp]: "hi_octet (be_u16 h l) = h"
proof -
  have "unat (drop_bit 8 (be_u16 h l)) = unat h"
    unfolding unat_drop_bit_eq unat_be_u16 by (simp add: drop_bit_eq_div)
  then show ?thesis
    by (simp add: hi_octet_def word_unat_eq_iff unsigned_ucast_eq take_bit_eq_mod)
qed

lemma lo_octet_be [simp]: "lo_octet (be_u16 h l) = l"
proof -
  have "unat (ucast (be_u16 h l) :: u8) = unat l"
    unfolding unsigned_ucast_eq unat_be_u16 by (simp add: take_bit_eq_mod)
  then show ?thesis
    by (simp add: lo_octet_def word_unat_eq_iff)
qed

section \<open>Parsing\<close>

definition digit_of :: "nat \<Rightarrow> char \<Rightarrow> nat option" where
  "digit_of radix c =
     (let n = of_char c :: nat;
          v = (if 48 \<le> n \<and> n \<le> 57 then n - 48
               else if 97 \<le> n \<and> n \<le> 122 then n - 87
               else if 65 \<le> n \<and> n \<le> 90 then n - 55 else 99)
      in if v < radix then Some v else None)"

fun take_digits :: "nat \<Rightarrow> string \<Rightarrow> nat list \<times> string" where
  "take_digits radix [] = ([], [])"
| "take_digits radix (c # cs) =
     (case digit_of radix c of
        None \<Rightarrow> ([], c # cs)
      | Some v \<Rightarrow> (let (ds, rest) = take_digits radix cs in (v # ds, rest)))"

fun value_of :: "nat \<Rightarrow> nat \<Rightarrow> nat list \<Rightarrow> nat" where
  "value_of radix acc [] = acc"
| "value_of radix acc (d # ds) = value_of radix (acc * radix + d) ds"

definition read_number :: "nat \<Rightarrow> nat \<Rightarrow> bool \<Rightarrow> nat \<Rightarrow> string \<Rightarrow> (nat \<times> string) option" where
  "read_number radix max_digits allow_zero_prefix mx s =
     (let (ds, rest) = take_digits radix s; v = value_of radix 0 ds
      in if max_digits < length ds then None
         else if ds = [] then None
         else if \<not> allow_zero_prefix \<and> hd ds = 0 \<and> 1 < length ds then None
         else if v \<le> mx then Some (v, rest) else None)"

definition read_separator ::
    "char \<Rightarrow> nat \<Rightarrow> (string \<Rightarrow> ('a \<times> string) option) \<Rightarrow> string \<Rightarrow> ('a \<times> string) option" where
  "read_separator sep index inner s =
     (if 0 < index
      then (case s of [] \<Rightarrow> None | c # cs \<Rightarrow> if c = sep then inner cs else None)
      else inner s)"

definition read_octet :: "nat \<Rightarrow> string \<Rightarrow> (nat \<times> string) option" where
  "read_octet i = read_separator (CHR ''.'') i (read_number 10 3 False 255)"

definition read_ipv4_addr :: "string \<Rightarrow> (ipv4 \<times> string) option" where
  "read_ipv4_addr s0 =
     Option.bind (read_octet 0 s0) (\<lambda>(a, s1).
     Option.bind (read_octet 1 s1) (\<lambda>(b, s2).
     Option.bind (read_octet 2 s2) (\<lambda>(c, s3).
     Option.bind (read_octet 3 s3) (\<lambda>(d, s4).
       Some (V4 (of_nat a) (of_nat b) (of_nat c) (of_nat d), s4)))))"

fun read_groups :: "nat \<Rightarrow> nat \<Rightarrow> string \<Rightarrow> u16 list \<times> bool \<times> string" where
  "read_groups i 0 s = ([], False, s)"
| "read_groups i (Suc k) s =
     (case (if 0 < k then read_separator (CHR '':'') i read_ipv4_addr s else None) of
        Some (V4 a b c d, s') \<Rightarrow> ([be_u16 a b, be_u16 c d], True, s')
      | None \<Rightarrow>
          (case read_separator (CHR '':'') i (read_number 16 4 True 65535) s of
             None \<Rightarrow> ([], False, s)
           | Some (g, s') \<Rightarrow>
               (let (gs, v4, s'') = read_groups (Suc i) k s' in (of_nat g # gs, v4, s''))))"

fun v6_of_list :: "u16 list \<Rightarrow> ipv6 option" where
  "v6_of_list [a, b, c, d, e, f, g, h] = Some (V6 a b c d e f g h)"
| "v6_of_list _ = None"

definition read_given_char :: "char \<Rightarrow> string \<Rightarrow> string option" where
  "read_given_char c s = (case s of [] \<Rightarrow> None | x # xs \<Rightarrow> if x = c then Some xs else None)"

definition read_ipv6_addr :: "string \<Rightarrow> (ipv6 \<times> string) option" where
  "read_ipv6_addr s =
     (let (head, head_ipv4, s1) = read_groups 0 8 s in
      if length head = 8 then map_option (\<lambda>ip. (ip, s1)) (v6_of_list head)
      else if head_ipv4 then None
      else Option.bind (read_given_char (CHR '':'') s1) (\<lambda>s2.
           Option.bind (read_given_char (CHR '':'') s2) (\<lambda>s3.
             let (tail, _, s4) = read_groups 0 (8 - (length head + 1)) s3
             in map_option (\<lambda>ip. (ip, s4))
                  (v6_of_list (head @ replicate (8 - length head - length tail) 0 @ tail)))))"

definition parse_ipv4 :: "string \<Rightarrow> ipv4 option" where
  "parse_ipv4 s =
     (if 15 < length s then None
      else case read_ipv4_addr s of Some (ip, []) \<Rightarrow> Some ip | _ \<Rightarrow> None)"

definition parse_ip :: "string \<Rightarrow> ip_addr option" where
  "parse_ip s =
     (case read_ipv4_addr s of
        Some (ip, rest) \<Rightarrow> (if rest = [] then Some (IpV4 ip) else None)
      | None \<Rightarrow>
          (case read_ipv6_addr s of
             Some (ip, rest) \<Rightarrow> (if rest = [] then Some (IpV6 ip) else None)
           | None \<Rightarrow> None))"

section \<open>Printing and the round trip\<close>

definition show_ipv4 :: "ipv4 \<Rightarrow> string" where
  "show_ipv4 ip =
     show_nat (unat (oct1 ip)) @ ''.'' @ show_nat (unat (oct2 ip)) @ ''.'' @
     show_nat (unat (oct3 ip)) @ ''.'' @ show_nat (unat (oct4 ip))"

lemma digit_of_digit: "d < 10 \<Longrightarrow> digit_of 10 (char_of (48 + d)) = Some d"
  by (simp add: digit_of_def Let_def)

lemma digit_of_dot [simp]: "digit_of 10 (CHR ''.'') = None"
  by (simp add: digit_of_def)

lemma value_of_append [simp]: "value_of r acc (ds @ [d]) = value_of r acc ds * r + d"
  by (induction ds arbitrary: acc) auto

definition no_digit_head :: "string \<Rightarrow> bool" where
  "no_digit_head s = (case s of [] \<Rightarrow> True | c # _ \<Rightarrow> digit_of 10 c = None)"

fun dec_digits :: "nat \<Rightarrow> nat list" where
  "dec_digits n = (if n < 10 then [n] else dec_digits (n div 10) @ [n mod 10])"

declare dec_digits.simps [simp del]

lemma show_nat_dec: "show_nat n = map (\<lambda>d. char_of (48 + d)) (dec_digits n)"
proof (induction n rule: show_nat.induct)
  case (1 n)
  then show ?case
    by (cases "n < 10") (simp_all add: show_nat.simps [of n] dec_digits.simps [of n])
qed

lemma dec_digits_lt: "\<forall>d\<in>set (dec_digits n). d < 10"
proof (induction n rule: dec_digits.induct)
  case (1 n)
  then show ?case by (cases "n < 10") (auto simp: dec_digits.simps [of n])
qed

lemma value_dec_digits: "value_of 10 0 (dec_digits n) = n"
proof (induction n rule: dec_digits.induct)
  case (1 n)
  then show ?case by (cases "n < 10") (auto simp: dec_digits.simps [of n])
qed

lemma dec_digits_ne [simp]: "dec_digits n \<noteq> []"
  by (subst dec_digits.simps) simp

lemma dec_digits_hd: "hd (dec_digits n) = 0 \<Longrightarrow> n = 0"
proof (induction n rule: dec_digits.induct)
  case (1 n)
  then show ?case by (cases "n < 10") (auto simp: dec_digits.simps [of n])
qed

lemma dec_digits_small: "n < 1000 \<Longrightarrow> length (dec_digits n) \<le> 3"
  by (simp add: dec_digits.simps [of n] dec_digits.simps [of "n div 10"]
      dec_digits.simps [of "n div 10 div 10"] div_mult2_eq)

lemma take_digits_map:
  assumes "\<forall>d\<in>set ds. d < 10" "no_digit_head rest"
  shows "take_digits 10 (map (\<lambda>d. char_of (48 + d)) ds @ rest) = (ds, rest)"
  using assms
proof (induction ds)
  case Nil
  then show ?case by (cases rest) (auto simp: no_digit_head_def)
next
  case (Cons d ds)
  then show ?case by (simp add: digit_of_digit)
qed

lemma read_number_show:
  assumes "n \<le> 255" "no_digit_head rest"
  shows "read_number 10 3 False 255 (show_nat n @ rest) = Some (n, rest)"
proof -
  have "take_digits 10 (show_nat n @ rest) = (dec_digits n, rest)"
    using take_digits_map [OF dec_digits_lt assms(2)] by (simp add: show_nat_dec)
  moreover have "length (dec_digits n) \<le> 3"
    using assms(1) by (intro dec_digits_small) simp
  moreover have "hd (dec_digits n) = 0 \<Longrightarrow> length (dec_digits n) = 1"
    by (drule dec_digits_hd) (simp add: dec_digits.simps)
  ultimately show ?thesis
    using assms(1) by (auto simp: read_number_def value_dec_digits)
qed

lemma read_octet_show:
  assumes "n \<le> 255" "no_digit_head rest"
  shows "read_octet 0 (show_nat n @ rest) = Some (n, rest)"
    and "0 < i \<Longrightarrow> read_octet i (CHR ''.'' # show_nat n @ rest) = Some (n, rest)"
  using read_number_show [OF assms] by (simp_all add: read_octet_def read_separator_def)

lemma unat_le_255 [simp]: "unat (w :: u8) \<le> 255"
  using unat_u8_lt [of w] by linarith

lemma no_digit_head_simps [simp]:
  "no_digit_head []" "no_digit_head (CHR ''.'' # s)"
  by (simp_all add: no_digit_head_def)

lemma read_ipv4_show [simp]: "read_ipv4_addr (show_ipv4 ip) = Some (ip, [])"
proof -
  have r: "read_octet 3 (CHR ''.'' # show_nat (unat (oct4 ip))) = Some (unat (oct4 ip), [])"
    using read_octet_show(2) [of "unat (oct4 ip)" "[]" 3] by simp
  show ?thesis
    by (simp add: read_ipv4_addr_def show_ipv4_def read_octet_show r)
qed

lemma parse_ip_show_ipv4 [simp]: "parse_ip (show_ipv4 ip) = Some (IpV4 ip)"
  by (simp add: parse_ip_def)

lemma length_show_octet: "length (show_nat (unat (w :: u8))) \<le> 3"
  using dec_digits_small [of "unat w"] unat_u8_lt [of w] by (simp add: show_nat_dec)

lemma parse_ipv4_show [simp]: "parse_ipv4 (show_ipv4 ip) = Some ip"
proof -
  have "length (show_ipv4 ip) \<le> 15"
    using length_show_octet [of "oct1 ip"] length_show_octet [of "oct2 ip"]
      length_show_octet [of "oct3 ip"] length_show_octet [of "oct4 ip"]
    by (simp add: show_ipv4_def)
  then show ?thesis by (simp add: parse_ipv4_def)
qed

text \<open>Evaluation of the parser on closed strings by the simplifier.\<close>

lemma read_groups_numeral:
  "read_groups i (numeral k) s =
     (case (if 0 < pred_numeral k then read_separator (CHR '':'') i read_ipv4_addr s else None) of
        Some (V4 a b c d, s') \<Rightarrow> ([be_u16 a b, be_u16 c d], True, s')
      | None \<Rightarrow>
          (case read_separator (CHR '':'') i (read_number 16 4 True 65535) s of
             None \<Rightarrow> ([], False, s)
           | Some (g, s') \<Rightarrow>
               (let (gs, v4, s'') = read_groups (Suc i) (pred_numeral k) s' in (of_nat g # gs, v4, s''))))"
  by (simp add: numeral_eq_Suc)

lemma replicate_numeral_step:
  "replicate (numeral k) x = x # replicate (pred_numeral k) x"
  by (simp add: numeral_eq_Suc)

lemmas parse_ip_eval = replicate_numeral_step
  parse_ip_def parse_ipv4_def read_ipv4_addr_def read_ipv6_addr_def read_octet_def
  read_separator_def read_number_def digit_of_def read_given_char_def read_groups_numeral

end
