(* ===== verification/Auth.thy ===== *)
theory Auth
  imports Rust_Net
begin

text \<open>
  \<^verbatim>\<open>src/server/auth.rs\<close> and the credential checks of \<^verbatim>\<open>src/server/http.rs\<close>: who may use an instance.
  The constant-time comparison of the subtle crate is an argument; its documented result is
  equality of the byte strings (\<open>ct_eq_ok\<close>). A request's headers are a function from the lower-case
  name to the value, and a value that is not visible ASCII has no text.
\<close>

section \<open>Definitions\<close>

type_synonym ct_eq_fun = "bytes \<Rightarrow> bytes \<Rightarrow> bool"

definition ct_eq_ok :: "ct_eq_fun \<Rightarrow> bool" where
  "ct_eq_ok ct_eq \<longleftrightarrow> (\<forall>a b. ct_eq a b = (a = b))"

definition authorized ::
    "ct_eq_fun \<Rightarrow> string option \<Rightarrow> string option \<Rightarrow> string option \<Rightarrow> bool" where
  "authorized ct_eq configured query_token authorization_header =
     (case configured of
        None \<Rightarrow> True
      | Some expected \<Rightarrow>
          (let candidate =
             (case query_token of
                Some t \<Rightarrow> Some t
              | None \<Rightarrow>
                  map_option trim
                    (Option.bind authorization_header (\<lambda>v. strip_prefix v ''Bearer '')))
           in case candidate of
                None \<Rightarrow> False
              | Some c \<Rightarrow> ct_eq (as_bytes expected) (as_bytes c)))"

text \<open>The host part of an origin's authority: bracketed, or up to the last colon.\<close>

definition origin_host :: "string \<Rightarrow> string" where
  "origin_host authority =
     (case strip_prefix authority ''['' of
        Some stripped \<Rightarrow> hd (split_on stripped (CHR '']''))
      | None \<Rightarrow>
          (case rsplit_once authority (CHR '':'') of None \<Rightarrow> authority | Some (h, _) \<Rightarrow> h))"

definition tokenless_origin_allowed :: "string option \<Rightarrow> bool" where
  "tokenless_origin_allowed origin =
     (case origin of
        None \<Rightarrow> True
      | Some o' \<Rightarrow>
          (case split_once_str o' ''://'' of
             None \<Rightarrow> False
           | Some (_, rest) \<Rightarrow>
               (let authority = hd (split_on rest (CHR ''/''));
                    host = to_ascii_lowercase (origin_host authority)
                in host = ''localhost'' \<or> host = ''::1'' \<or>
                   (case parse_ipv4 host of None \<Rightarrow> False | Some ip \<Rightarrow> v4_loopback ip))))"

record header_value =
  to_str :: "string option"

type_synonym headers = "string \<Rightarrow> header_value option"

definition request_authorized ::
    "ct_eq_fun \<Rightarrow> string option \<Rightarrow> string option \<Rightarrow> headers \<Rightarrow> bool" where
  "request_authorized ct_eq token query_token headers =
     (if token = None \<and>
         \<not> tokenless_origin_allowed
             (map_option (\<lambda>v. case to_str v of None \<Rightarrow> ''invalid'' | Some t \<Rightarrow> t) (headers ''origin''))
      then False
      else authorized ct_eq token query_token (Option.bind (headers ''authorization'') to_str))"

section \<open>Origins\<close>

lemma split_once_str_scheme:
  "CHR '':'' \<notin> set scheme \<Longrightarrow>
   split_once_str (scheme @ ''://'' @ rest) ''://'' = Some (scheme, rest)"
proof (induction scheme)
  case Nil
  then show ?case by (simp add: starts_with_def)
next
  case (Cons c scheme)
  then have "c \<noteq> CHR '':''" by auto
  then show ?case using Cons by (simp add: starts_with_def)
qed

lemma authority_first:
  assumes "CHR ''/'' \<notin> set a" "path = [] \<or> hd path = CHR ''/''"
  shows "hd (split_on (a @ path) (CHR ''/'')) = a"
proof (cases path)
  case Nil
  then show ?thesis using assms(1) by (simp add: split_on_id)
next
  case (Cons c cs)
  then show ?thesis using assms split_on_append [of "CHR ''/''" a cs] by simp
qed

text \<open>A host that names this machine.\<close>

definition loopback_host :: "string \<Rightarrow> bool" where
  "loopback_host h \<longleftrightarrow>
     to_ascii_lowercase h = ''localhost'' \<or> to_ascii_lowercase h = ''::1'' \<or>
     (\<exists>b c d. parse_ipv4 (to_ascii_lowercase h) = Some (V4 127 b c d))"

lemma v4_loopback_iff: "v4_loopback ip \<longleftrightarrow> (\<exists>b c d. ip = V4 127 b c d)"
  by (cases ip) auto

lemma tokenless_by_host:
  assumes "CHR '':'' \<notin> set scheme" "CHR ''/'' \<notin> set authority" "path = [] \<or> hd path = CHR ''/''"
  shows "tokenless_origin_allowed (Some (scheme @ ''://'' @ authority @ path)) =
         loopback_host (origin_host authority)"
  using split_once_str_scheme [OF assms(1), of "authority @ path"] authority_first [OF assms(2,3)]
  by (simp add: tokenless_origin_allowed_def loopback_host_def v4_loopback_iff Let_def
      split: option.splits)

lemma origin_host_plain:
  assumes "set host \<inter> set '':['' = {}" "port = [] \<or> (\<exists>p. port = CHR '':'' # p \<and> CHR '':'' \<notin> set p)"
  shows "origin_host (host @ port) = host"
proof -
  have nb: "strip_prefix (host @ port) ''['' = None"
    using assms by (cases host) (auto simp: starts_with_def)
  show ?thesis
  proof (cases "port = []")
    case True
    have "rsplit_once host (CHR '':'') = None"
      using assms(1) by (subst rsplit_once_None) auto
    then show ?thesis using True nb by (simp add: origin_host_def del: rsplit_once_None strip_prefix_None)
  next
    case False
    then obtain p where p: "port = CHR '':'' # p" "CHR '':'' \<notin> set p" using assms(2) by auto
    then have "rsplit_once (host @ port) (CHR '':'') = Some (host, p)"
      by (simp add: rsplit_once_Some)
    then show ?thesis using nb by (simp add: origin_host_def del: strip_prefix_None)
  qed
qed

lemma origin_host_bracketed:
  assumes "CHR '']'' \<notin> set v6"
  shows "origin_host (''['' @ v6 @ '']'' @ port) = v6"
  using split_on_append [OF assms, of port] by (simp add: origin_host_def strip_prefix_def starts_with_def)

text \<open>
  Property C38: an instance without a token serves this machine only. For an origin of the form a
  browser sends (scheme, host, optional port, optional path) the request is let in exactly when the
  host is localhost, an address of 127.0.0.0/8 or, in brackets, ::1; no other site's page gets a
  browser. A request without an origin, from a client that is not a browser, passes.
\<close>

theorem tokenless_origin_is_loopback:
  assumes "CHR '':'' \<notin> set scheme"
    and "set host \<inter> set ''/:['' = {}" "port = [] \<or> (\<exists>p. port = CHR '':'' # p \<and> set p \<inter> set ''/:'' = {})"
    and "path = [] \<or> hd path = CHR ''/''" "CHR '']'' \<notin> set v6" "CHR ''/'' \<notin> set v6"
  shows "tokenless_origin_allowed (Some (scheme @ ''://'' @ host @ port @ path)) = loopback_host host \<and>
         tokenless_origin_allowed (Some (scheme @ ''://'' @ ''['' @ v6 @ '']'' @ port @ path)) =
           loopback_host v6 \<and>
         tokenless_origin_allowed None"
proof -
  have port: "CHR ''/'' \<notin> set port" "port = [] \<or> (\<exists>p. port = CHR '':'' # p \<and> CHR '':'' \<notin> set p)"
    using assms(3) by auto
  have host: "CHR ''/'' \<notin> set (host @ port)" "origin_host (host @ port) = host"
    using assms(2) port by (auto intro: origin_host_plain)
  have v6: "CHR ''/'' \<notin> set (''['' @ v6 @ '']'' @ port)" using assms(6) port by simp
  show ?thesis
    using tokenless_by_host [OF assms(1) host(1) assms(4)] host(2)
      tokenless_by_host [OF assms(1) v6 assms(4)] origin_host_bracketed [OF assms(5), of port]
    by (simp add: tokenless_origin_allowed_def)
qed

theorem tokenless_origin_is_loopback_witness:
  "tokenless_origin_allowed (Some ''http://LocalHost:3000/x'') \<and>
   \<not> tokenless_origin_allowed (Some ''http://evil.example'')"
proof -
  have "to_ascii_lowercase ''evil.example'' = ''evil.example''"
    "to_ascii_lowercase ''LocalHost'' = ''localhost''"
    by code_simp+
  then have "\<not> loopback_host ''evil.example'' \<and> loopback_host ''LocalHost''"
    by (simp add: loopback_host_def parse_ip_eval del: to_ascii_lowercase_simps)
  then show ?thesis
    using tokenless_origin_is_loopback [of "''http''" "''LocalHost''" "'':3000''" "''/x''" "[]"]
      tokenless_origin_is_loopback [of "''http''" "''evil.example''" "[]" "[]" "[]"]
    by simp
qed

text \<open>
  A configured token is the only way in. With a token configured a request passes
  exactly when its credential equals that token, where the query parameter, if there is one, is the
  credential and otherwise the trimmed bearer header; the origin does not matter then. A wrong
  query parameter is not rescued by a right header.
\<close>

theorem token_required:
  assumes "ct_eq_ok ct_eq"
  shows "request_authorized ct_eq (Some expected) query_token headers \<longleftrightarrow>
         (case query_token of
            Some t \<Rightarrow> t = expected
          | None \<Rightarrow> (\<exists>v t. headers ''authorization'' = Some v \<and>
                       to_str v = Some (''Bearer '' @ t) \<and> trim t = expected))"
proof -
  have eq: "ct_eq (as_bytes a) (as_bytes b) = (a = b)" for a b
    using assms by (simp add: ct_eq_ok_def)
  show ?thesis
    by (auto simp: request_authorized_def authorized_def eq Let_def bind_eq_Some_conv starts_with_def
        split: option.splits)
qed

theorem token_required_witness:
  "request_authorized (=) (Some ''s3'') None
     (\<lambda>n. if n = ''authorization'' then Some \<lparr>to_str = Some ''Bearer s3''\<rparr> else None)"
proof -
  have "trim ''s3'' = ''s3''" by code_simp
  then show ?thesis
    using token_required [of "(=)" "''s3''" None
        "\<lambda>n. if n = ''authorization'' then Some \<lparr>to_str = Some ''Bearer s3''\<rparr> else None"]
    by (auto simp: ct_eq_ok_def)
qed

end
