(* ===== verification/Head.thy ===== *)
theory Head
  imports Rust_Str Cdp_Pipe
begin

text \<open>
  \<^verbatim>\<open>src/proxy/head.rs\<close>: reading, parsing and rewriting the heads of HTTP messages. The search for the
  blank line (\<^verbatim>\<open>memchr::memmem\<close>) and the header parser (\<^verbatim>\<open>httparse\<close>) are outside the repository, so
  they are arguments. A slice of a string at a byte that is inside a character panics, which is a
  value of the result here.
\<close>

section \<open>Parameters\<close>

type_synonym memmem_fun = "bytes \<Rightarrow> bytes \<Rightarrow> nat option"

text \<open>The documented behaviour of the search: the start of the first occurrence.\<close>

definition memmem_ok :: "memmem_fun \<Rightarrow> bool" where
  "memmem_ok memmem \<longleftrightarrow>
     (\<forall>hay pat. case memmem hay pat of
        Some i \<Rightarrow> (\<exists>b. hay = take i hay @ pat @ b) \<and> i \<le> length hay \<and>
                  (\<forall>a b. hay = a @ pat @ b \<longrightarrow> i \<le> length a)
      | None \<Rightarrow> (\<forall>a b. hay \<noteq> a @ pat @ b))"

record parsed_head =
  ph_method :: "string option"
  ph_path :: "string option"
  ph_headers :: "(string \<times> bytes) list"

text \<open>The results of a complete parse; \<open>None\<close> for an error or an incomplete head.\<close>

record http_parser =
  hp_request :: "bytes \<Rightarrow> parsed_head option"
  hp_response :: "bytes \<Rightarrow> nat option option"

section \<open>Reading a head\<close>

definition max_head_bytes :: nat where
  "max_head_bytes = 32 * 1024"

record head =
  head_bytes :: bytes
  head_rest :: bytes

datatype head_error = HeadTooLarge | UnexpectedEof | HeadIo io_error

definition blank_line :: bytes where
  "blank_line = [13, 10, 13, 10]"

definition find_head_end :: "memmem_fun \<Rightarrow> bytes \<Rightarrow> nat option" where
  "find_head_end memmem b = map_option (\<lambda>i. i + 4) (memmem b blank_line)"

text \<open>\<open>None\<close> while the reads run out and the call still waits; otherwise with the reads not used.\<close>

fun read_head ::
    "memmem_fun \<Rightarrow> read_result list \<Rightarrow> bytes \<Rightarrow> ((head_error + head option) \<times> read_result list) option" where
  "read_head memmem [] b =
     (case find_head_end memmem b of
        Some e \<Rightarrow> Some (Inr (Some \<lparr>head_bytes = take e b, head_rest = drop e b\<rparr>), [])
      | None \<Rightarrow> (if max_head_bytes \<le> length b then Some (Inl HeadTooLarge, []) else None))"
| "read_head memmem (x # xs) b =
     (case find_head_end memmem b of
        Some e \<Rightarrow> Some (Inr (Some \<lparr>head_bytes = take e b, head_rest = drop e b\<rparr>), x # xs)
      | None \<Rightarrow>
          (if max_head_bytes \<le> length b then Some (Inl HeadTooLarge, x # xs)
           else (case x of
                   ReadError e \<Rightarrow> Some (Inl (HeadIo e), xs)
                 | Eof \<Rightarrow> Some (if b = [] then Inr None else Inl UnexpectedEof, xs)
                 | Data ds \<Rightarrow>
                     (if ds = [] then Some (if b = [] then Inr None else Inl UnexpectedEof, xs)
                      else read_head memmem xs (b @ ds)))))"

section \<open>Requests\<close>

datatype request =
    Connect string nat
  | Forward string nat string string string "(string \<times> bytes) list"

definition split_authority :: "string \<Rightarrow> nat option \<Rightarrow> (string \<times> nat) option" where
  "split_authority s default_port =
     (if CHR ''@'' \<in> set s \<or> s = [] then None
      else Option.bind
        (case strip_prefix s ''['' of
           Some inner \<Rightarrow> map_option (\<lambda>(host, after). (host, strip_prefix after '':'')) (split_once inner (CHR '']''))
         | None \<Rightarrow>
             (case rsplit_once s (CHR '':'') of
                Some (h, p) \<Rightarrow> Some (h, Some p)
              | None \<Rightarrow> Some (s, None)))
        (\<lambda>(host, port).
           Option.bind
             (case port of
                Some p \<Rightarrow> Option.bind (parse_uint u16_max p) (\<lambda>n. if n \<noteq> 0 then Some n else None)
              | None \<Rightarrow> default_port)
             (\<lambda>n. if host \<noteq> [] then Some (host, n) else None)))"

text \<open>The first \<open>n\<close> bytes of a string, unless byte \<open>n\<close> continues a character.\<close>

definition str_slice_to :: "string \<Rightarrow> nat \<Rightarrow> string option" where
  "str_slice_to s n =
     (if length s < n \<or> n < length s \<and> utf8_cont (of_char (s ! n)) then None else Some (take n s))"

definition find_path :: "string \<Rightarrow> string \<times> string" where
  "find_path rest =
     (let authority = takeWhile (\<lambda>c. c \<noteq> CHR ''/'' \<and> c \<noteq> CHR ''?'') rest
      in if authority = rest then (rest, ''/'') else (authority, drop (length authority) rest))"

datatype 'a outcome = Panics | Returns 'a

definition parse_forward :: "string \<Rightarrow> string \<Rightarrow> (string \<times> bytes) list \<Rightarrow> string + request" where
  "parse_forward meth target headers =
     (let (authority, path) = find_path (drop 7 target)
      in res_bind (ok_or (split_authority authority (Some 80)) ''bad request target'')
           (\<lambda>(host, port).
              Inr (Forward host port meth target
                     (if starts_with path ''?'' then ''/'' @ path else path) headers)))"

definition parse_request :: "http_parser \<Rightarrow> bytes \<Rightarrow> (string + request) outcome" where
  "parse_request hp h =
     (case hp_request hp h of
        None \<Rightarrow> Returns (Inl ''malformed request'')
      | Some req \<Rightarrow>
         (case (ph_method req, ph_path req) of
            (Some meth, Some target) \<Rightarrow>
              (if eq_ignore_ascii_case meth ''CONNECT''
               then Returns (res_bind (ok_or (split_authority target None) ''bad CONNECT target'')
                              (\<lambda>(host, port). Inr (Connect host port)))
               else if 7 < length target
               then (case str_slice_to target 7 of
                       None \<Rightarrow> Panics
                     | Some scheme \<Rightarrow>
                         Returns (if eq_ignore_ascii_case scheme ''http://''
                                  then parse_forward meth target (ph_headers req)
                                  else Inl ''only proxy requests are accepted''))
               else Returns (Inl ''only proxy requests are accepted''))
          | _ \<Rightarrow> Returns (Inl ''malformed request'')))"

section \<open>Rewriting\<close>

text \<open>\<^verbatim>\<open>String::from_utf8_lossy\<close>: each maximal broken part becomes the replacement character.\<close>

definition replacement :: "nat list" where
  "replacement = [0xEF, 0xBF, 0xBD]"

definition second_ok :: "nat \<Rightarrow> nat \<Rightarrow> bool" where
  "second_ok a b =
     (if a = 0xE0 then 0xA0 \<le> b \<and> b \<le> 0xBF
      else if a = 0xED then 0x80 \<le> b \<and> b \<le> 0x9F
      else if a = 0xF0 then 0x90 \<le> b \<and> b \<le> 0xBF
      else if a = 0xF4 then 0x80 \<le> b \<and> b \<le> 0x8F
      else 0x80 \<le> b \<and> b \<le> 0xBF)"

fun lossy_codes :: "nat list \<Rightarrow> nat list" where
  "lossy_codes [] = []"
| "lossy_codes (a # s) =
     (if a < 0x80 then a # lossy_codes s
      else if 0xC2 \<le> a \<and> a \<le> 0xDF then
        (case s of
           b # s2 \<Rightarrow> if utf8_cont b then a # b # lossy_codes s2 else replacement @ lossy_codes s
         | [] \<Rightarrow> replacement)
      else if 0xE0 \<le> a \<and> a \<le> 0xEF then
        (case s of
           b # s2 \<Rightarrow>
             (if second_ok a b then
                (case s2 of
                   c # s3 \<Rightarrow> if utf8_cont c then a # b # c # lossy_codes s3 else replacement @ lossy_codes s2
                 | [] \<Rightarrow> replacement)
              else replacement @ lossy_codes s)
         | [] \<Rightarrow> replacement)
      else if 0xF0 \<le> a \<and> a \<le> 0xF4 then
        (case s of
           b # s2 \<Rightarrow>
             (if second_ok a b then
                (case s2 of
                   c # s3 \<Rightarrow>
                     (if utf8_cont c then
                        (case s3 of
                           d # s4 \<Rightarrow>
                             if utf8_cont d then a # b # c # d # lossy_codes s4
                             else replacement @ lossy_codes s3
                         | [] \<Rightarrow> replacement)
                      else replacement @ lossy_codes s2)
                 | [] \<Rightarrow> replacement)
              else replacement @ lossy_codes s)
         | [] \<Rightarrow> replacement)
      else replacement @ lossy_codes s)"

definition from_utf8_lossy :: "bytes \<Rightarrow> string" where
  "from_utf8_lossy bs = map char_of (lossy_codes (map unat bs))"

definition fixed_hop_names :: "string list" where
  "fixed_hop_names =
     [''connection'', ''keep-alive'', ''proxy-authorization'', ''proxy-authenticate'',
      ''proxy-connection'', ''te'', ''trailer'', ''upgrade'']"

definition connection_tokens :: "bytes \<Rightarrow> string list" where
  "connection_tokens v =
     filter (\<lambda>t. t \<noteq> []) (map (\<lambda>t. to_ascii_lowercase (trim t)) (split_on (from_utf8_lossy v) (CHR '','')))"

definition hop_by_hop :: "(string \<times> bytes) list \<Rightarrow> string list" where
  "hop_by_hop headers =
     fixed_hop_names @
     concat (map (\<lambda>(name, v). if eq_ignore_ascii_case name ''connection'' then connection_tokens v else [])
               headers)"

definition header_line :: "string \<times> bytes \<Rightarrow> bytes" where
  "header_line h = as_bytes (fst h) @ as_bytes '': '' @ snd h @ [13, 10]"

definition dropped :: "(string \<times> bytes) list \<Rightarrow> string \<times> bytes \<Rightarrow> bool" where
  "dropped headers h = list_ex (\<lambda>d. eq_ignore_ascii_case (fst h) d) (hop_by_hop headers)"

definition rewrite_request ::
    "string \<Rightarrow> string \<Rightarrow> (string \<times> bytes) list \<Rightarrow> string option \<Rightarrow> bytes" where
  "rewrite_request meth target headers proxy_auth =
     as_bytes meth @ as_bytes '' '' @ as_bytes target @ as_bytes '' HTTP/1.1'' @ [13, 10] @
     concat (map header_line (filter (\<lambda>h. \<not> dropped headers h) headers)) @
     (case proxy_auth of
        None \<Rightarrow> []
      | Some auth \<Rightarrow> as_bytes ''Proxy-Authorization: '' @ as_bytes auth @ [13, 10]) @
     as_bytes ''Connection: close'' @ [13, 10, 13, 10]"

definition response_status :: "http_parser \<Rightarrow> bytes \<Rightarrow> nat option" where
  "response_status hp h = (case hp_response hp h of Some code \<Rightarrow> code | None \<Rightarrow> None)"

section \<open>Reading: the head is found whatever the cut into reads\<close>

text \<open>A head ends with its first blank line.\<close>

definition head_ok :: "bytes \<Rightarrow> bool" where
  "head_ok h \<longleftrightarrow>
     (\<exists>a. h = a @ blank_line) \<and> (\<forall>a b. h = a @ blank_line @ b \<longrightarrow> b = [])"

lemma find_head_whole:
  assumes "memmem_ok memmem" "head_ok h"
  shows "find_head_end memmem (h @ r) = Some (length h)"
proof -
  obtain a where h: "h = a @ blank_line" using assms(2) by (auto simp: head_ok_def)
  have law: "case memmem (h @ r) blank_line of
        Some i \<Rightarrow> (\<exists>b. h @ r = take i (h @ r) @ blank_line @ b) \<and> i \<le> length (h @ r) \<and>
                  (\<forall>a b. h @ r = a @ blank_line @ b \<longrightarrow> i \<le> length a)
      | None \<Rightarrow> (\<forall>a b. h @ r \<noteq> a @ blank_line @ b)"
    using assms(1) unfolding memmem_ok_def by blast
  show ?thesis
  proof (cases "memmem (h @ r) blank_line")
    case None
    then have "h @ r \<noteq> a @ blank_line @ r" using law by simp
    then show ?thesis using h by simp
  next
    case (Some i)
    then have occ: "\<exists>b. h @ r = take i (h @ r) @ blank_line @ b"
      and first: "\<forall>a b. h @ r = a @ blank_line @ b \<longrightarrow> i \<le> length a"
      using law by simp_all
    obtain b where b: "h @ r = take i (h @ r) @ blank_line @ b" using occ by (elim exE)
    have le: "i \<le> length a" using first h by (metis append.assoc)
    have i: "i \<le> length h" using le h by simp
    then have split: "h @ r = (take i h @ blank_line) @ b" using b by simp
    have "length (take i h @ blank_line) \<le> length h"
      using le h by (simp add: blank_line_def)
    then obtain t where t: "h = (take i h @ blank_line) @ t"
      using split by (metis append_eq_append_conv_if append_take_drop_id)
    then have "t = []" using assms(2) unfolding head_ok_def by (metis append.assoc)
    then have "length h = length (take i h @ blank_line)" using t by (metis append_Nil2)
    then have "length h = i + 4" using i by (simp add: blank_line_def)
    then show ?thesis using Some by (simp add: find_head_end_def)
  qed
qed

lemma find_head_partial:
  assumes "memmem_ok memmem" "head_ok h" "b @ c = h" "c \<noteq> []"
  shows "find_head_end memmem b = None"
proof (cases "memmem b blank_line")
  case (Some i)
  have "case memmem b blank_line of
        Some i \<Rightarrow> (\<exists>t. b = take i b @ blank_line @ t) \<and> i \<le> length b \<and>
                  (\<forall>a t. b = a @ blank_line @ t \<longrightarrow> i \<le> length a)
      | None \<Rightarrow> (\<forall>a t. b \<noteq> a @ blank_line @ t)"
    using assms(1) unfolding memmem_ok_def by blast
  then obtain t where "b = take i b @ blank_line @ t" using Some by auto
  then have "h = take i b @ blank_line @ (t @ c)" using assms(3) by (metis append.assoc)
  then have "t @ c = []" using assms(2) unfolding head_ok_def by blast
  then show ?thesis using assms(4) by simp
qed (simp add: find_head_end_def)

lemma incoming_chunks: "incoming (chunks cs) = concat cs"
  by (induction cs) simp_all

lemma read_head_ready:
  "find_head_end memmem b = Some e \<Longrightarrow>
   read_head memmem reads b = Some (Inr (Some \<lparr>head_bytes = take e b, head_rest = drop e b\<rparr>), reads)"
  by (cases reads) simp_all

lemma read_head_chunks:
  assumes ok: "memmem_ok memmem" "head_ok h" "length h \<le> max_head_bytes"
    and "list_all (\<lambda>c. c \<noteq> []) cs" "b @ concat cs = h @ body"
  shows "\<exists>rest unread. read_head memmem (chunks cs) b =
             Some (Inr (Some \<lparr>head_bytes = h, head_rest = rest\<rparr>), unread) \<and>
           rest @ incoming unread = body"
  using assms(4,5)
proof (induction cs arbitrary: b)
  case Nil
  then have b: "b = h @ body" by simp
  show ?case
    unfolding b using find_head_whole [OF ok(1,2)] by (auto simp: read_head_ready)
next
  case (Cons c cs)
  show ?case
  proof (cases "length h \<le> length b")
    case True
    then obtain r where b: "b = h @ r" and body: "r @ c @ concat cs = body"
      using Cons.prems(2) by (auto simp: append_eq_append_conv2)
    have "incoming (chunks (c # cs)) = c @ concat cs"
      by (simp add: incoming_chunks)
    then show ?thesis
      unfolding b using find_head_whole [OF ok(1,2)] body by (auto simp: read_head_ready)
  next
    case False
    then obtain r where r: "b @ r = h" "r \<noteq> []"
      using Cons.prems(2) by (auto simp: append_eq_append_conv2)
    have "find_head_end memmem b = None" by (rule find_head_partial [OF ok(1,2) r])
    moreover have "length b < max_head_bytes" using False ok(3) by simp
    ultimately show ?thesis
      using Cons.IH [of "b @ c"] Cons.prems by simp
  qed
qed

section \<open>Decoding a head\<close>

text \<open>Header lines as RFC 9112 reads them: up to the empty line, each cut at its first colon.\<close>

fun take_line :: "bytes \<Rightarrow> (bytes \<times> bytes) option" where
  "take_line (a # b # r) =
     (if a = 13 \<and> b = 10 then Some ([], r) else map_option (\<lambda>(l, r). (a # l, r)) (take_line (b # r)))"
| "take_line _ = None"

lemma take_line_shorter: "take_line b = Some (l, r) \<Longrightarrow> length r < length b"
  by (induction b arbitrary: l rule: take_line.induct) (fastforce split: if_splits)+

function header_lines :: "bytes \<Rightarrow> bytes list option" where
  "header_lines b =
     (case take_line b of
        None \<Rightarrow> None
      | Some (l, r) \<Rightarrow> if l = [] then Some [] else map_option ((#) l) (header_lines r))"
  by pat_completeness auto
termination
  by (relation "measure length") (auto dest: take_line_shorter)

declare header_lines.simps [simp del]

definition decode_header :: "bytes \<Rightarrow> bytes \<times> bytes" where
  "decode_header l = (takeWhile (\<lambda>x. x \<noteq> 58) l, drop 2 (dropWhile (\<lambda>x. x \<noteq> 58) l))"

definition decode_head :: "bytes \<Rightarrow> (bytes \<times> (bytes \<times> bytes) list) option" where
  "decode_head b =
     Option.bind (take_line b) (\<lambda>(l, r). map_option (\<lambda>ls. (l, map decode_header ls)) (header_lines r))"

lemma take_line_append: "13 \<notin> set l \<Longrightarrow> take_line (l @ 13 # 10 # r) = Some (l, r)"
proof (induction l)
  case (Cons a l)
  then show ?case by (cases l) auto
qed simp

lemma header_lines_append:
  "13 \<notin> set l \<Longrightarrow> l \<noteq> [] \<Longrightarrow> header_lines (l @ 13 # 10 # r) = map_option ((#) l) (header_lines r)"
  by (subst header_lines.simps) (simp add: take_line_append)

lemma header_lines_end: "header_lines (13 # 10 # r) = Some []"
  by (subst header_lines.simps) simp

text \<open>A header as the parser returns it: its name has no colon, neither part a line break.\<close>

definition header_ok :: "string \<times> bytes \<Rightarrow> bool" where
  "header_ok h \<longleftrightarrow> 13 \<notin> set (as_bytes (fst h)) \<and> 58 \<notin> set (as_bytes (fst h)) \<and> 13 \<notin> set (snd h)"

lemma colon_space: "as_bytes '': '' = [58, 32]"
  by (simp add: as_bytes_def)

lemma header_lines_header:
  assumes "header_ok h"
  shows "header_lines (header_line h @ r) =
           map_option ((#) (as_bytes (fst h) @ 58 # 32 # snd h)) (header_lines r)"
proof -
  have "header_line h @ r = (as_bytes (fst h) @ 58 # 32 # snd h) @ 13 # 10 # r"
    by (simp add: header_line_def colon_space)
  then show ?thesis
    using header_lines_append [of "as_bytes (fst h) @ 58 # 32 # snd h" r] assms
    by (simp add: header_ok_def)
qed

lemma decode_header_line: "header_ok h \<Longrightarrow> decode_header (as_bytes (fst h) @ 58 # 32 # snd h) = (as_bytes (fst h), snd h)"
  by (auto simp: decode_header_def header_ok_def takeWhile_append dropWhile_append)

lemma header_lines_headers:
  "list_all header_ok hs \<Longrightarrow>
   map_option (map decode_header) (header_lines (concat (map header_line hs) @ r)) =
   map_option ((@) (map (\<lambda>h. (as_bytes (fst h), snd h)) hs)) (map_option (map decode_header) (header_lines r))"
proof (induction hs)
  case (Cons h hs)
  have "header_lines (concat (map header_line (h # hs)) @ r) =
        map_option ((#) (as_bytes (fst h) @ 58 # 32 # snd h)) (header_lines (concat (map header_line hs) @ r))"
    using Cons.prems header_lines_header [of h] by simp
  then show ?case
    using Cons by (cases "header_lines (concat (map header_line hs) @ r)"; cases "header_lines r")
      (auto simp: decode_header_line)
next
  case Nil
  then show ?case by (cases "header_lines r") simp_all
qed

section \<open>Hop-by-hop headers\<close>

text \<open>The headers of one hop: the fixed ones and those a Connection header names, in any case.\<close>

definition hop_header :: "(string \<times> bytes) list \<Rightarrow> string \<Rightarrow> bool" where
  "hop_header headers name \<longleftrightarrow>
     to_ascii_lowercase name \<in> set fixed_hop_names \<or>
     list_ex (\<lambda>(c, v). to_ascii_lowercase c = ''connection'' \<and>
                to_ascii_lowercase name \<in> set (connection_tokens v)) headers"

lemma fixed_hop_lower: "d \<in> set fixed_hop_names \<Longrightarrow> to_ascii_lowercase d = d"
proof -
  have "\<forall>d \<in> set fixed_hop_names. to_ascii_lowercase d = d" by code_simp
  then show "d \<in> set fixed_hop_names \<Longrightarrow> to_ascii_lowercase d = d" by blast
qed

lemma connection_token_lower: "d \<in> set (connection_tokens v) \<Longrightarrow> to_ascii_lowercase d = d"
  by (auto simp: connection_tokens_def)

lemma connection_lower: "eq_ignore_ascii_case c ''connection'' \<longleftrightarrow> to_ascii_lowercase c = ''connection''"
proof -
  have "to_ascii_lowercase ''connection'' = ''connection''" by code_simp
  then show ?thesis by (simp add: eq_ignore_ascii_case_def)
qed

lemma dropped_iff: "dropped headers h \<longleftrightarrow> hop_header headers (fst h)"
proof -
  have "dropped headers h \<longleftrightarrow>
        (\<exists>d \<in> set (hop_by_hop headers). to_ascii_lowercase (fst h) = to_ascii_lowercase d)"
    by (simp add: dropped_def list_ex_iff eq_ignore_ascii_case_def)
  also have "\<dots> \<longleftrightarrow> to_ascii_lowercase (fst h) \<in> set (hop_by_hop headers)"
  proof -
    have "\<forall>d \<in> set (hop_by_hop headers). to_ascii_lowercase d = d"
      by (auto simp: hop_by_hop_def fixed_hop_lower connection_token_lower split: if_splits)
    then show ?thesis by metis
  qed
  also have "\<dots> \<longleftrightarrow> hop_header headers (fst h)"
    by (auto simp: hop_by_hop_def hop_header_def list_ex_iff connection_lower split: if_splits)
  finally show ?thesis .
qed

definition login_header :: "string option \<Rightarrow> (string \<times> bytes) list" where
  "login_header auth = (case auth of None \<Rightarrow> [] | Some a \<Rightarrow> [(''Proxy-Authorization'', as_bytes a)])"

definition closing_header :: "string \<times> bytes" where
  "closing_header = (''Connection'', as_bytes ''close'')"

lemma rewrite_as_lines:
  "rewrite_request meth target headers auth =
     (as_bytes meth @ as_bytes '' '' @ as_bytes target @ as_bytes '' HTTP/1.1'') @ 13 # 10 #
     concat (map header_line (filter (\<lambda>h. \<not> hop_header headers (fst h)) headers @ login_header auth @ [closing_header]))
     @ [13, 10]"
proof -
  have "as_bytes ''Proxy-Authorization: '' = as_bytes ''Proxy-Authorization'' @ as_bytes '': ''"
    "as_bytes ''Connection: close'' = as_bytes ''Connection'' @ as_bytes '': '' @ as_bytes ''close''"
    by (simp_all add: as_bytes_def)
  then show ?thesis
    by (simp add: rewrite_request_def dropped_iff login_header_def closing_header_def header_line_def
        split: option.split)
qed

section \<open>The search parameter can hold\<close>

fun find_seq :: memmem_fun where
  "find_seq [] pat = (if pat = [] then Some 0 else None)"
| "find_seq (x # xs) pat = (if take (length pat) (x # xs) = pat then Some 0 else map_option Suc (find_seq xs pat))"

lemma find_seq_Some:
  "find_seq hay pat = Some i \<Longrightarrow>
   i \<le> length hay \<and> (\<exists>b. hay = take i hay @ pat @ b) \<and> (\<forall>a b. hay = a @ pat @ b \<longrightarrow> i \<le> length a)"
proof (induction hay arbitrary: i)
  case (Cons x xs)
  show ?case
  proof (cases "take (length pat) (x # xs) = pat")
    case True
    then have "x # xs = pat @ drop (length pat) (x # xs)" by (metis append_take_drop_id)
    then show ?thesis using True Cons.prems by auto
  next
    case False
    then obtain j where j: "find_seq xs pat = Some j" "i = Suc j" using Cons.prems by auto
    then have IH: "j \<le> length xs" "\<exists>b. xs = take j xs @ pat @ b" "\<forall>a b. xs = a @ pat @ b \<longrightarrow> j \<le> length a"
      using Cons.IH by blast+
    have "i \<le> length a" if "x # xs = a @ pat @ b" for a b
      using that False IH(3) j(2) by (cases a) auto
    then show ?thesis using IH j(2) by auto
  qed
qed (auto split: if_splits)

lemma find_seq_None: "find_seq hay pat = None \<Longrightarrow> hay \<noteq> a @ pat @ b"
proof (induction hay arbitrary: a)
  case (Cons x xs)
  then have "take (length pat) (x # xs) \<noteq> pat" "find_seq xs pat = None"
    by (auto split: if_splits)
  then show ?case using Cons.IH by (cases a) auto
qed (auto split: if_splits)

lemma find_seq_ok: "memmem_ok find_seq"
  unfolding memmem_ok_def
  using find_seq_Some find_seq_None by (simp split: option.split)

lemma demo_head_ok: "head_ok [71, 13, 10, 13, 10]"
proof -
  have "b = []" if "[71, 13, 10, 13, 10] = a @ blank_line @ b" for a b
    using that by (auto simp: blank_line_def Cons_eq_append_conv)
  moreover have "[71, 13, 10, 13, 10] = [71] @ blank_line" by (simp add: blank_line_def)
  ultimately show ?thesis unfolding head_ok_def by blast
qed

section \<open>Properties\<close>

text \<open>
  Property C28: a head is found however it arrives. When the stream carries a head of at most 32 KiB
  (ending with its first blank line) and then more bytes, reading returns exactly that head under
  every cut into reads, and no byte after it is lost: what was read too far and what is still unread
  is the rest of the stream.
\<close>

theorem head_read_exactly:
  assumes "memmem_ok memmem" "head_ok h" "length h \<le> max_head_bytes"
    and "list_all (\<lambda>c. c \<noteq> []) cs" "concat cs = h @ body"
  shows "\<exists>rest unread. read_head memmem (chunks cs) [] =
             Some (Inr (Some \<lparr>head_bytes = h, head_rest = rest\<rparr>), unread) \<and>
           rest @ incoming unread = body"
  using read_head_chunks [of memmem h cs "[]" body] assms by simp

theorem head_read_exactly_witness:
  "\<exists>rest unread. read_head find_seq (chunks [[71, 13], [10, 13, 10, 7], [8]]) [] =
       Some (Inr (Some \<lparr>head_bytes = [71, 13, 10, 13, 10], head_rest = rest\<rparr>), unread) \<and>
     rest @ incoming unread = [7, 8]"
  by (rule head_read_exactly [OF find_seq_ok]) (simp_all add: demo_head_ok max_head_bytes_def)

text \<open>
  Nothing of the hop from the browser to the relay travels further. The rewritten request
  decodes to the same method and target with exactly those of the client's headers, in order, that are
  not hop-by-hop and not named by a Connection header, in any spelling; then the relay's own login, if
  it has one, and Connection: close. In particular the only proxy login sent is the relay's.
\<close>

theorem forwarded_head:
  assumes "list_all header_ok headers" "13 \<notin> set (as_bytes meth)" "13 \<notin> set (as_bytes target)"
    and "\<forall>a. auth = Some a \<longrightarrow> 13 \<notin> set (as_bytes a)"
  shows "decode_head (rewrite_request meth target headers auth) =
           Some (as_bytes meth @ as_bytes '' '' @ as_bytes target @ as_bytes '' HTTP/1.1'',
                 map (\<lambda>h. (as_bytes (fst h), snd h))
                   (filter (\<lambda>h. \<not> hop_header headers (fst h)) headers @ login_header auth @ [closing_header])) \<and>
         list_all (\<lambda>h. to_ascii_lowercase (fst h) \<noteq> ''proxy-authorization'')
           (filter (\<lambda>h. \<not> hop_header headers (fst h)) headers)"
proof -
  let ?hs = "filter (\<lambda>h. \<not> hop_header headers (fst h)) headers @ login_header auth @ [closing_header]"
  have "header_ok closing_header" "13 \<notin> set (as_bytes ('' '' :: string))" "13 \<notin> set (as_bytes '' HTTP/1.1'')"
    by (simp_all add: header_ok_def closing_header_def as_bytes_def)
  moreover have "list_all header_ok (login_header auth)"
    using assms(4) by (auto simp: login_header_def header_ok_def as_bytes_def split: option.split)
  ultimately have ok: "list_all header_ok ?hs"
    and line: "13 \<notin> set (as_bytes meth @ as_bytes '' '' @ as_bytes target @ as_bytes '' HTTP/1.1'')"
    using assms(1-3) by (auto simp: list_all_iff)
  have "map_option (map decode_header) (header_lines (concat (map header_line ?hs) @ [13, 10])) =
        Some (map (\<lambda>h. (as_bytes (fst h), snd h)) ?hs)"
    unfolding header_lines_headers [OF ok] by (simp add: header_lines_end)
  then obtain ls where ls: "header_lines (concat (map header_line ?hs) @ [13, 10]) = Some ls"
    "map decode_header ls = map (\<lambda>h. (as_bytes (fst h), snd h)) ?hs"
    by (auto simp: map_option_case split: option.splits)
  have "''proxy-authorization'' \<in> set fixed_hop_names" by (simp add: fixed_hop_names_def)
  then show ?thesis
    unfolding rewrite_as_lines decode_head_def take_line_append [OF line]
    using ls by (auto simp: list_all_iff hop_header_def)
qed

definition demo_headers :: "(string \<times> bytes) list" where
  "demo_headers = [(''Host'', as_bytes ''a''), (''X-Hop'', as_bytes ''1''), (''Connection'', as_bytes ''x-hop''),
     (''PROXY-Authorization'', as_bytes ''Basic c3R1'')]"

lemma demo_headers_ok: "list_all header_ok demo_headers"
  by code_simp

lemma demo_headers_kept: "filter (\<lambda>h. \<not> hop_header demo_headers (fst h)) demo_headers = [(''Host'', as_bytes ''a'')]"
  by code_simp

theorem forwarded_head_witness:
  "decode_head (rewrite_request ''GET'' ''/'' demo_headers (Some ''Basic QQ'')) =
     Some (as_bytes ''GET'' @ as_bytes '' '' @ as_bytes ''/'' @ as_bytes '' HTTP/1.1'',
       [(as_bytes ''Host'', as_bytes ''a''), (as_bytes ''Proxy-Authorization'', as_bytes ''Basic QQ''),
        (as_bytes ''Connection'', as_bytes ''close'')])"
proof -
  have no_cr: "13 \<notin> set (as_bytes ''GET'')" "13 \<notin> set (as_bytes ''/'')" "13 \<notin> set (as_bytes ''Basic QQ'')"
    by (simp_all add: as_bytes_def)
  show ?thesis
    using forwarded_head [of demo_headers "''GET''" "''/''" "Some ''Basic QQ''"] no_cr
    by (simp add: demo_headers_ok demo_headers_kept login_header_def closing_header_def)
qed

text \<open>What an accepted request can be; a target cut inside a character panics instead.\<close>

lemma split_authority_ok:
  "split_authority s d = Some (host, port) \<Longrightarrow> (\<forall>n. d = Some n \<longrightarrow> 0 < n \<and> n \<le> u16_max) \<Longrightarrow>
   host \<noteq> [] \<and> CHR ''@'' \<notin> set host \<and> 0 < port \<and> port \<le> u16_max"
  by (auto simp: split_authority_def bind_eq_Some_conv split_once_Some rsplit_once_Some
      dest: parse_uint_le split: if_splits option.splits)

lemma slice_inside_character_panics:
  assumes "hp_request hp h = Some \<lparr>ph_method = Some meth, ph_path = Some target, ph_headers = hs\<rparr>"
    and "\<not> eq_ignore_ascii_case meth ''CONNECT''" "7 < length target" "utf8_cont (of_char (target ! 7))"
  shows "parse_request hp h = Panics"
  using assms by (simp add: parse_request_def str_slice_to_def)

lemma find_path_start:
  assumes "find_path rest = (authority, path)"
  shows "path = ''/'' \<or> path \<noteq> [] \<and> (hd path = CHR ''/'' \<or> hd path = CHR ''?'')"
proof -
  let ?P = "\<lambda>c. c \<noteq> CHR ''/'' \<and> c \<noteq> CHR ''?''"
  show ?thesis
  proof (cases "takeWhile ?P rest = rest")
    case True
    then show ?thesis using assms by (simp add: find_path_def)
  next
    case False
    then have "path = dropWhile ?P rest"
      using assms by (auto simp: find_path_def Let_def dropWhile_eq_drop split: if_splits)
    moreover have "dropWhile ?P rest \<noteq> []"
      using False by (metis dropWhile_eq_Nil_conv takeWhile_eq_all_conv)
    ultimately show ?thesis using hd_dropWhile [of ?P rest] by auto
  qed
qed

lemma parse_forward_ok:
  assumes "parse_forward meth target hs = Inr r"
  obtains host port origin where "r = Forward host port meth target origin hs"
    "host \<noteq> []" "CHR ''@'' \<notin> set host" "0 < port" "port \<le> u16_max" "starts_with origin ''/''"
proof -
  obtain authority path where p: "find_path (drop 7 target) = (authority, path)" by fastforce
  obtain host port where a: "split_authority authority (Some 80) = Some (host, port)"
    and r: "r = Forward host port meth target (if starts_with path ''?'' then ''/'' @ path else path) hs"
    using assms p by (auto simp: parse_forward_def)
  have "starts_with (if starts_with path ''?'' then ''/'' @ path else path) ''/''"
    using find_path_start [OF p] by (cases path) (auto simp: starts_with_def)
  then show thesis
    using that [OF r] split_authority_ok [OF a] by (auto simp: u16_max_def)
qed

text \<open>
  Only proxy requests drive the relay. An accepted request is a CONNECT or has a target
  that starts with http:// in some spelling; its host is not empty and carries no user part, its port
  is a real port, and what would be asked of the origin is a path. The origin-form request a web page
  can send to the relay's port is never accepted.
\<close>

theorem relay_takes_proxy_requests_only:
  assumes "hp_request hp h = Some req" "parse_request hp h = Returns (Inr r)"
  shows "(case r of
            Connect host port \<Rightarrow>
              (\<exists>m. ph_method req = Some m \<and> eq_ignore_ascii_case m ''CONNECT'') \<and>
              host \<noteq> [] \<and> CHR ''@'' \<notin> set host \<and> 0 < port \<and> port \<le> u16_max
          | Forward host port meth absolute origin hs \<Rightarrow>
              ph_path req = Some absolute \<and> to_ascii_lowercase (take 7 absolute) = ''http://'' \<and>
              host \<noteq> [] \<and> CHR ''@'' \<notin> set host \<and> 0 < port \<and> port \<le> u16_max \<and>
              starts_with origin ''/'' \<and> hs = ph_headers req) \<and>
         \<not> (\<exists>t. ph_path req = Some (CHR ''/'' # t) \<and>
              (\<exists>host port meth absolute origin hs. r = Forward host port meth absolute origin hs))"
proof -
  have http: "eq_ignore_ascii_case s ''http://'' \<longleftrightarrow> to_ascii_lowercase s = ''http://''" for s
  proof -
    have "to_ascii_lowercase ''http://'' = ''http://''" by code_simp
    then show ?thesis by (simp add: eq_ignore_ascii_case_def)
  qed
  obtain meth target where mt: "ph_method req = Some meth" "ph_path req = Some target"
    using assms by (auto simp: parse_request_def split: option.splits)
  show ?thesis
  proof (cases "eq_ignore_ascii_case meth ''CONNECT''")
    case True
    then obtain host port where a: "split_authority target None = Some (host, port)" "r = Connect host port"
      using assms mt by (auto simp: parse_request_def)
    then show ?thesis using split_authority_ok [OF a(1)] True mt by simp
  next
    case False
    then have len: "7 < length target" and scheme: "to_ascii_lowercase (take 7 target) = ''http://''"
      and fwd: "parse_forward meth target (ph_headers req) = Inr r"
      using assms mt by (auto simp: parse_request_def str_slice_to_def http split: if_splits option.splits)
    have "ascii_lower (CHR ''/'') \<noteq> CHR ''h''" by code_simp
    then have "hd target \<noteq> CHR ''/''" using len scheme by (cases target) auto
    moreover obtain host port origin where "r = Forward host port meth target origin (ph_headers req)"
      "host \<noteq> []" "CHR ''@'' \<notin> set host" "0 < port" "port \<le> u16_max" "starts_with origin ''/''"
      by (rule parse_forward_ok [OF fwd])
    ultimately show ?thesis using mt scheme by auto
  qed
qed

definition demo_parser :: http_parser where
  "demo_parser = \<lparr>hp_request = (\<lambda>_. Some \<lparr>ph_method = Some ''GET'', ph_path = Some ''HTTP://h?q'', ph_headers = []\<rparr>),
     hp_response = (\<lambda>_. None)\<rparr>"

theorem relay_takes_proxy_requests_only_witness:
  "parse_request demo_parser [] = Returns (Inr (Forward ''h'' 80 ''GET'' ''HTTP://h?q'' ''/?q'' [])) \<and>
   to_ascii_lowercase (take 7 ''HTTP://h?q'') = ''http://'' \<and> starts_with ''/?q'' ''/''"
proof -
  have p: "parse_request demo_parser [] = Returns (Inr (Forward ''h'' 80 ''GET'' ''HTTP://h?q'' ''/?q'' []))"
    by code_simp
  have q: "hp_request demo_parser [] = Some \<lparr>ph_method = Some ''GET'', ph_path = Some ''HTTP://h?q'', ph_headers = []\<rparr>"
    by (simp add: demo_parser_def)
  show ?thesis
    using relay_takes_proxy_requests_only [OF q p] p by simp
qed

end
