(* ===== verification/Address.thy ===== *)
theory Address
  imports Rust_Net
begin

text \<open>
  \<^verbatim>\<open>src/proxy/address.rs\<close>: the addresses a client-supplied proxy may not point at, and the
  resolution of a proxy host to the addresses that may be dialled. Name resolution
  (\<^verbatim>\<open>tokio::net::lookup_host\<close>) is a parameter. The block list is compared with an independent
  table of CIDR blocks, and the three embeddings of IPv4 into IPv6 are shown to give no way
  around it.
\<close>

section \<open>The block list\<close>

text \<open>Why the relay could not reach a target (\<^verbatim>\<open>ProxyError\<close>).\<close>

datatype proxy_error =
    AddressNotAllowed string
  | Unreachable string
  | LoginFailed
  | Refused string
  | Timeout

fun blocked_v4 :: "ipv4 \<Rightarrow> bool" where
  "blocked_v4 (V4 a b c d) \<longleftrightarrow>
     v4_unspecified (V4 a b c d)
     \<or> v4_loopback (V4 a b c d)
     \<or> v4_private (V4 a b c d)
     \<or> v4_link_local (V4 a b c d)
     \<or> v4_multicast (V4 a b c d)
     \<or> v4_broadcast (V4 a b c d)
     \<or> a = 0
     \<or> a \<ge> 240
     \<or> (a = 100 \<and> 64 \<le> b \<and> b < 128)
     \<or> (a = 192 \<and> b = 0 \<and> c = 0)
     \<or> (a = 192 \<and> b = 0 \<and> c = 2)
     \<or> (a = 198 \<and> (b = 18 \<or> b = 19))
     \<or> (a = 198 \<and> b = 51 \<and> c = 100)
     \<or> (a = 203 \<and> b = 0 \<and> c = 113)"

definition blocked_v6 :: "ipv6 \<Rightarrow> bool" where
  "blocked_v6 ip =
     (case to_ipv4_mapped ip of
        Some v4 \<Rightarrow> blocked_v4 v4
      | None \<Rightarrow>
         (let compatible = (seg0 ip = 0 \<and> seg1 ip = 0 \<and> seg2 ip = 0 \<and> seg3 ip = 0 \<and>
                            seg4 ip = 0 \<and> seg5 ip = 0) \<and>
                           \<not> v6_unspecified ip \<and> \<not> v6_loopback ip;
              nat64 = seg0 ip = 0x64 \<and> seg1 ip = 0xff9b
          in if compatible \<or> nat64
             then blocked_v4 (V4 (hi_octet (seg6 ip)) (lo_octet (seg6 ip))
                                 (hi_octet (seg7 ip)) (lo_octet (seg7 ip)))
             else v6_unspecified ip
                \<or> v6_loopback ip
                \<or> v6_multicast ip
                \<or> (seg0 ip AND 0xfe00) = 0xfc00
                \<or> (seg0 ip AND 0xffc0) = 0xfe80
                \<or> (seg0 ip AND 0xffc0) = 0xfec0
                \<or> (seg0 ip = 0x2001 \<and> seg1 ip = 0x0db8)))"

fun is_blocked_ip :: "ip_addr \<Rightarrow> bool" where
  "is_blocked_ip (IpV4 v4) = blocked_v4 v4"
| "is_blocked_ip (IpV6 v6) = blocked_v6 v6"

section \<open>Resolution\<close>

text \<open>\<open>lookup\<close> stands for the resolver: \<open>None\<close> when the name does not resolve.\<close>

definition resolve_allowed ::
    "(string \<Rightarrow> u16 \<Rightarrow> socket_addr list option) \<Rightarrow> string \<Rightarrow> u16 \<Rightarrow> bool
     \<Rightarrow> proxy_error + socket_addr list" where
  "resolve_allowed lookup host port allow_private =
     res_bind
       (case parse_ip host of
          Some ip \<Rightarrow> Inr [(ip, port)]
        | None \<Rightarrow> ok_or (lookup host port) (AddressNotAllowed ''host does not resolve''))
       (\<lambda>addrs.
          let allowed = filter (\<lambda>a. allow_private \<or> \<not> is_blocked_ip (fst a)) addrs
          in if allowed = []
             then Inl (AddressNotAllowed ''host is on a private or local network'')
             else Inr allowed)"

section \<open>The reference table\<close>

text \<open>An address as one number and a CIDR block as its base octets and prefix length.\<close>

definition v4_nat :: "ipv4 \<Rightarrow> nat" where
  "v4_nat ip = unat (oct1 ip) * 16777216 + unat (oct2 ip) * 65536 +
               unat (oct3 ip) * 256 + unat (oct4 ip)"

definition in_cidr :: "ipv4 \<Rightarrow> nat \<times> nat \<times> nat \<times> nat \<times> nat \<Rightarrow> bool" where
  "in_cidr ip blk = (case blk of (a, b, c, d, len) \<Rightarrow>
     v4_nat ip div 2 ^ (32 - len) =
     (a * 16777216 + b * 65536 + c * 256 + d) div 2 ^ (32 - len))"

definition blocked_nets :: "(nat \<times> nat \<times> nat \<times> nat \<times> nat) list" where
  "blocked_nets =
     [(0, 0, 0, 0, 8), (10, 0, 0, 0, 8), (100, 64, 0, 0, 10), (127, 0, 0, 0, 8),
      (169, 254, 0, 0, 16), (172, 16, 0, 0, 12), (192, 0, 0, 0, 24), (192, 0, 2, 0, 24),
      (192, 168, 0, 0, 16), (198, 18, 0, 0, 15), (198, 51, 100, 0, 24), (203, 0, 113, 0, 24),
      (224, 0, 0, 0, 4), (240, 0, 0, 0, 4)]"

section \<open>Lemmas\<close>

lemma v4_nat_div:
  "v4_nat (V4 a b c d) div 16777216 = unat a"
  "v4_nat (V4 a b c d) div 65536 = unat a * 256 + unat b"
  "v4_nat (V4 a b c d) div 256 = unat a * 65536 + unat b * 256 + unat c"
  using unat_u8_lt [of b] unat_u8_lt [of c] unat_u8_lt [of d]
  by (simp_all add: v4_nat_def, linarith+)

lemma v4_nat_div_more:
  "v4_nat (V4 a b c d) div 268435456 = unat a div 16"
  "v4_nat (V4 a b c d) div 4194304 = unat a * 4 + unat b div 64"
  "v4_nat (V4 a b c d) div 1048576 = unat a * 16 + unat b div 16"
  "v4_nat (V4 a b c d) div 131072 = unat a * 128 + unat b div 2"
  using unat_u8_lt [of b] unat_u8_lt [of c] unat_u8_lt [of d]
  by (simp_all add: v4_nat_def, linarith+)

lemma word8_eq_iff: "(w :: u8) = v \<longleftrightarrow> unat w = unat v"
  by (simp add: word_unat_eq_iff)

lemma blocked_v4_unat:
  "blocked_v4 (V4 a b c d) \<longleftrightarrow>
     unat a = 0 \<or> unat a = 127 \<or> unat a = 10 \<or>
     (unat a = 172 \<and> 16 \<le> unat b \<and> unat b \<le> 31) \<or> (unat a = 192 \<and> unat b = 168) \<or>
     (unat a = 169 \<and> unat b = 254) \<or> 224 \<le> unat a \<or>
     (unat a = 100 \<and> 64 \<le> unat b \<and> unat b < 128) \<or>
     (unat a = 192 \<and> unat b = 0 \<and> unat c = 0) \<or>
     (unat a = 192 \<and> unat b = 0 \<and> unat c = 2) \<or>
     (unat a = 198 \<and> (unat b = 18 \<or> unat b = 19)) \<or>
     (unat a = 198 \<and> unat b = 51 \<and> unat c = 100) \<or>
     (unat a = 203 \<and> unat b = 0 \<and> unat c = 113)"
proof (cases "224 \<le> unat a")
  case True
  then have "a \<ge> 240 \<or> v4_multicast (V4 a b c d)"
    by (simp add: word_le_nat_alt) linarith
  with True show ?thesis
    unfolding blocked_v4.simps by blast
next
  case False
  then show ?thesis
    by (simp add: word8_eq_iff word_le_nat_alt word_less_nat_alt) argo
qed

lemma in_cidr_cases:
  "in_cidr (V4 a b c d) (n1, n2, n3, n4, 8) \<longleftrightarrow>
     unat a = (n1 * 16777216 + n2 * 65536 + n3 * 256 + n4) div 16777216"
  "in_cidr (V4 a b c d) (n1, n2, n3, n4, 16) \<longleftrightarrow>
     unat a * 256 + unat b = (n1 * 16777216 + n2 * 65536 + n3 * 256 + n4) div 65536"
  "in_cidr (V4 a b c d) (n1, n2, n3, n4, 24) \<longleftrightarrow>
     unat a * 65536 + unat b * 256 + unat c = (n1 * 16777216 + n2 * 65536 + n3 * 256 + n4) div 256"
  "in_cidr (V4 a b c d) (n1, n2, n3, n4, 4) \<longleftrightarrow>
     unat a div 16 = (n1 * 16777216 + n2 * 65536 + n3 * 256 + n4) div 268435456"
  "in_cidr (V4 a b c d) (n1, n2, n3, n4, 10) \<longleftrightarrow>
     unat a * 4 + unat b div 64 = (n1 * 16777216 + n2 * 65536 + n3 * 256 + n4) div 4194304"
  "in_cidr (V4 a b c d) (n1, n2, n3, n4, 12) \<longleftrightarrow>
     unat a * 16 + unat b div 16 = (n1 * 16777216 + n2 * 65536 + n3 * 256 + n4) div 1048576"
  "in_cidr (V4 a b c d) (n1, n2, n3, n4, 15) \<longleftrightarrow>
     unat a * 128 + unat b div 2 = (n1 * 16777216 + n2 * 65536 + n3 * 256 + n4) div 131072"
  by (simp_all add: in_cidr_def v4_nat_div v4_nat_div_more)

lemma base_eq:
  fixes x y m :: nat
  assumes "y < m" "y' < m"
  shows "x * m + y = x' * m + y' \<longleftrightarrow> x = x' \<and> y = y'"
proof
  assume eq: "x * m + y = x' * m + y'"
  have "(x * m + y) div m = x" "(x' * m + y') div m = x'" using assms by auto
  with eq have "x = x'" by simp
  with eq show "x = x' \<and> y = y'" by simp
qed simp

text \<open>Each network of the table in terms of the octets it constrains.\<close>

lemma cidr_octets:
  fixes x y z :: nat
  assumes "x < 256" "y < 256" "z < 256"
  shows "x * 4 + y div 64 = 401 \<longleftrightarrow> x = 100 \<and> 64 \<le> y \<and> y < 128"
    and "x * 256 + y = 43518 \<longleftrightarrow> x = 169 \<and> y = 254"
    and "x * 16 + y div 16 = 2753 \<longleftrightarrow> x = 172 \<and> 16 \<le> y \<and> y \<le> 31"
    and "x * 65536 + y * 256 + z = 12582912 \<longleftrightarrow> x = 192 \<and> y = 0 \<and> z = 0"
    and "x * 65536 + y * 256 + z = 12582914 \<longleftrightarrow> x = 192 \<and> y = 0 \<and> z = 2"
    and "x * 256 + y = 49320 \<longleftrightarrow> x = 192 \<and> y = 168"
    and "x * 128 + y div 2 = 25353 \<longleftrightarrow> x = 198 \<and> (y = 18 \<or> y = 19)"
    and "x * 65536 + y * 256 + z = 12989284 \<longleftrightarrow> x = 198 \<and> y = 51 \<and> z = 100"
    and "x * 65536 + y * 256 + z = 13303921 \<longleftrightarrow> x = 203 \<and> y = 0 \<and> z = 113"
    and "(x div 16 = 14 \<or> x div 16 = 15) \<longleftrightarrow> 224 \<le> x"
proof -
  have d: "y div 64 < 4" "y div 16 < 16" "y div 2 < 128" "y * 256 + z < 65536" using assms by auto
  show "x * 4 + y div 64 = 401 \<longleftrightarrow> x = 100 \<and> 64 \<le> y \<and> y < 128" 
    using base_eq [OF d(1), of 1 x 100] by auto
  show "x * 256 + y = 43518 \<longleftrightarrow> x = 169 \<and> y = 254"
    using base_eq [OF assms(2), of 254 x 169] by simp
  show "x * 16 + y div 16 = 2753 \<longleftrightarrow> x = 172 \<and> 16 \<le> y \<and> y \<le> 31"
    using base_eq [OF d(2), of 1 x 172] by auto
  show "x * 256 + y = 49320 \<longleftrightarrow> x = 192 \<and> y = 168"
    using base_eq [OF assms(2), of 168 x 192] by simp
  show "x * 128 + y div 2 = 25353 \<longleftrightarrow> x = 198 \<and> (y = 18 \<or> y = 19)"
    using base_eq [OF d(3), of 9 x 198] by auto
  show "x * 65536 + y * 256 + z = 12582912 \<longleftrightarrow> x = 192 \<and> y = 0 \<and> z = 0"
    using base_eq [OF d(4), of 0 x 192] by (simp add: add.assoc)
  show "x * 65536 + y * 256 + z = 12582914 \<longleftrightarrow> x = 192 \<and> y = 0 \<and> z = 2"
    using base_eq [OF d(4), of 2 x 192] base_eq [OF assms(3), of 2 y 0] by (simp add: add.assoc numeral_2_eq_2)
  show "x * 65536 + y * 256 + z = 12989284 \<longleftrightarrow> x = 198 \<and> y = 51 \<and> z = 100"
    using base_eq [OF d(4), of "51*256+100" x 198] base_eq [OF assms(3), of 100 y 51] by (simp add: add.assoc)
  show "x * 65536 + y * 256 + z = 13303921 \<longleftrightarrow> x = 203 \<and> y = 0 \<and> z = 113"
    using base_eq [OF d(4), of 113 x 203] base_eq [OF assms(3), of 113 y 0] by (simp add: add.assoc)
  show "(x div 16 = 14 \<or> x div 16 = 15) \<longleftrightarrow> 224 \<le> x" using assms by auto
qed

lemma blocked_v6_unspec_loop:
  "v6_unspecified ip \<Longrightarrow> blocked_v6 ip"
  "v6_loopback ip \<Longrightarrow> blocked_v6 ip"
  by (simp_all add: blocked_v6_def v6_unspecified_def v6_loopback_def)

lemma be_u16_zero: "be_u16 h l = 0 \<longleftrightarrow> h = 0 \<and> l = 0"
  by (auto simp: word_unat_eq_iff unat_be_u16)

lemma blocked_v6_compatible:
  "blocked_v6 (V6 0 0 0 0 0 0 (be_u16 a b) (be_u16 c d)) = blocked_v4 (V4 a b c d)"
proof (cases "v6_unspecified (V6 0 0 0 0 0 0 (be_u16 a b) (be_u16 c d)) \<or>
              v6_loopback (V6 0 0 0 0 0 0 (be_u16 a b) (be_u16 c d))")
  case True
  then have "blocked_v6 (V6 0 0 0 0 0 0 (be_u16 a b) (be_u16 c d))"
    using blocked_v6_unspec_loop by blast
  moreover from True have "a = 0"
    by (auto simp: v6_unspecified_def v6_loopback_def be_u16_zero)
  ultimately show ?thesis by simp
next
  case False
  then show ?thesis by (simp add: blocked_v6_def del: blocked_v4.simps)
qed

lemma filter_allowed:
  "resolve_allowed lookup host port allow = Inr addrs \<Longrightarrow>
   addrs \<noteq> [] \<and> (\<forall>a\<in>set addrs. allow \<or> \<not> is_blocked_ip (fst a))"
  by (auto simp: resolve_allowed_def Let_def split: if_splits)

section \<open>Properties\<close>

text \<open>
  Property C36: the octet tests of \<^verbatim>\<open>blocked_v4\<close> block exactly the fourteen reserved IPv4 networks of
  the table, this-network, private, carrier-grade NAT, loopback, link-local, protocol assignments,
  the three documentation networks, benchmarking, multicast and reserved, and no other address.
\<close>

theorem blocked_v4_is_table: "blocked_v4 ip = list_ex (in_cidr ip) blocked_nets"
proof (cases ip)
  case (V4 a b c d)
  note nets = cidr_octets [OF unat_u8_lt [of a] unat_u8_lt [of b] unat_u8_lt [of c]]
  show ?thesis
    unfolding V4 blocked_v4_unat blocked_nets_def
    by (simp add: in_cidr_cases nets) argo
qed

text \<open>
  An IPv4 address wrapped in IPv6 is blocked exactly when the IPv4 address is, for the
  IPv4-mapped form, the IPv4-compatible form and every NAT64 form, so an IPv6 literal is no way
  around the block list.
\<close>

theorem embedded_v4_blocked:
  "blocked_v6 (V6 0 0 0 0 0 0xffff (be_u16 a b) (be_u16 c d)) = blocked_v4 (V4 a b c d) \<and>
   blocked_v6 (V6 0 0 0 0 0 0 (be_u16 a b) (be_u16 c d)) = blocked_v4 (V4 a b c d) \<and>
   blocked_v6 (V6 0x64 0xff9b s2 s3 s4 s5 (be_u16 a b) (be_u16 c d)) = blocked_v4 (V4 a b c d)"
proof (intro conjI)
  show "blocked_v6 (V6 0 0 0 0 0 0xffff (be_u16 a b) (be_u16 c d)) = blocked_v4 (V4 a b c d)"
    by (simp add: blocked_v6_def)
  show "blocked_v6 (V6 0 0 0 0 0 0 (be_u16 a b) (be_u16 c d)) = blocked_v4 (V4 a b c d)"
    by (rule blocked_v6_compatible)
  show "blocked_v6 (V6 0x64 0xff9b s2 s3 s4 s5 (be_u16 a b) (be_u16 c d)) = blocked_v4 (V4 a b c d)"
    by (simp add: blocked_v6_def del: blocked_v4.simps)
qed

text \<open>
  Property C37: without the operator's permission, a proxy host resolves to a non-empty list of
  addresses none of which is blocked; every returned address comes from the literal or from the
  resolver's answer, in its order.
\<close>

theorem resolve_allowed_safe:
  assumes "resolve_allowed lookup host port False = Inr addrs"
  shows "addrs \<noteq> [] \<and> list_all (\<lambda>a. \<not> is_blocked_ip (fst a)) addrs \<and>
         (\<exists>all. (parse_ip host = None \<and> lookup host port = Some all \<or>
                 map_option (\<lambda>ip. [(ip, port)]) (parse_ip host) = Some all) \<and>
                addrs = filter (\<lambda>a. \<not> is_blocked_ip (fst a)) all)"
proof (cases "parse_ip host")
  case None
  with assms show ?thesis
    by (auto simp: resolve_allowed_def Let_def list_all_iff split: if_splits)
next
  case (Some ip)
  with assms show ?thesis
    by (auto simp: resolve_allowed_def Let_def split: if_splits)
qed

lemma resolve_example:
  "resolve_allowed (\<lambda>_ _. Some [(IpV4 (V4 10 0 0 1), 80), (IpV4 (V4 8 8 8 8), 80)]) ''p.example'' 80 False
   = Inr [(IpV4 (V4 8 8 8 8), 80)]"
proof -
  have "parse_ip ''p.example'' = None" by (simp add: parse_ip_eval)
  then show ?thesis by (simp add: resolve_allowed_def)
qed

theorem resolve_allowed_safe_witness:
  "[(IpV4 (V4 8 8 8 8), 80 :: u16)] \<noteq> [] \<and>
   list_all (\<lambda>a. \<not> is_blocked_ip (fst a)) [(IpV4 (V4 8 8 8 8), 80 :: u16)]"
  using resolve_allowed_safe [OF resolve_example] by blast

end
