(* ===== verification/Socks.thy ===== *)
theory Socks
  imports Address
begin

text \<open>
  \<^verbatim>\<open>src/proxy/socks.rs\<close>: the SOCKS5 client handshake. The proxy is a stream of bytes that the client
  reads from (an argument, ending where the connection ends); everything the client writes is
  returned in order. Writing to the stream succeeds; a read past its end is the I/O error.
\<close>

section \<open>The handshake\<close>

definition socks_version :: u8 where "socks_version = 5"
definition no_auth :: u8 where "no_auth = 0"
definition user_pass :: u8 where "user_pass = 2"
definition no_acceptable :: u8 where "no_acceptable = 0xff"

definition read_exact :: "nat \<Rightarrow> bytes \<Rightarrow> (bytes \<times> bytes) option" where
  "read_exact n input = (if length input < n then None else Some (take n input, drop n input))"

definition io_failed :: proxy_error where
  "io_failed = Unreachable ''socks: io''"

fun reply_reason :: "nat \<Rightarrow> string" where
  "reply_reason n =
     (if n = 2 then ''not allowed by the proxy'' @ [CHR 0x27] @ ''s rules''
      else if n = 3 then ''network unreachable''
      else if n = 4 then ''host unreachable''
      else if n = 5 then ''connection refused''
      else if n = 6 then ''timed out''
      else ''proxy failure'')"

definition greeting :: "(string \<times> string) option \<Rightarrow> bytes" where
  "greeting login =
     (if login = None then [socks_version, 1, no_auth] else [socks_version, 2, no_auth, user_pass])"

definition login_message :: "string \<Rightarrow> string \<Rightarrow> bytes option" where
  "login_message user pass =
     (if 255 < length user \<or> 255 < length pass then None
      else Some ([1, of_nat (length user)] @ as_bytes user @ [of_nat (length pass)] @ as_bytes pass))"

definition port_bytes :: "u16 \<Rightarrow> bytes" where
  "port_bytes p = [hi_octet p, lo_octet p]"

definition connect_request :: "string \<Rightarrow> u16 \<Rightarrow> proxy_error + bytes" where
  "connect_request host port =
     (case parse_ip host of
        Some (IpV4 v4) \<Rightarrow> Inr ([socks_version, 1, 0] @ [1] @ v4_octets v4 @ port_bytes port)
      | Some (IpV6 v6) \<Rightarrow> Inr ([socks_version, 1, 0] @ [4] @ v6_octets v6 @ port_bytes port)
      | None \<Rightarrow>
          (if 255 < length host then Inl (Refused ''target host name too long'')
           else Inr ([socks_version, 1, 0] @ [3, of_nat (length host)] @ as_bytes host @ port_bytes port)))"

text \<open>The method negotiation and login: the result, what was written, what is left to read.\<close>

definition authenticate ::
    "(string \<times> string) option \<Rightarrow> bytes \<Rightarrow> (proxy_error + unit) \<times> bytes \<times> bytes" where
  "authenticate login input =
     (case read_exact 2 input of
        None \<Rightarrow> (Inl io_failed, [], input)
      | Some (choice, rest) \<Rightarrow>
          (if choice ! 0 \<noteq> socks_version then (Inl (Unreachable ''socks: not a SOCKS5 proxy''), [], rest)
           else if choice ! 1 = no_auth then (Inr (), [], rest)
           else
             (case login of
                Some (user, pass) \<Rightarrow>
                  (if choice ! 1 = user_pass then
                     (case login_message user pass of
                        None \<Rightarrow> (Inl LoginFailed, [], rest)
                      | Some msg \<Rightarrow>
                          (case read_exact 2 rest of
                             None \<Rightarrow> (Inl io_failed, msg, rest)
                           | Some (status, rest2) \<Rightarrow>
                               (if status ! 1 \<noteq> 0 then (Inl LoginFailed, msg, rest2)
                                else (Inr (), msg, rest2))))
                   else if choice ! 1 = no_acceptable then (Inl LoginFailed, [], rest)
                   else (Inl (Unreachable ''socks: unsupported method''), [], rest))
              | None \<Rightarrow>
                  (if choice ! 1 = user_pass \<or> choice ! 1 = no_acceptable
                   then (Inl LoginFailed, [], rest)
                   else (Inl (Unreachable ''socks: unsupported method''), [], rest)))))"

definition read_bound :: "u8 \<Rightarrow> bytes \<Rightarrow> (proxy_error + unit) \<times> bytes" where
  "read_bound atyp input =
     (let skip = (\<lambda>n rest. case read_exact n rest of
                    None \<Rightarrow> (Inl io_failed, rest) | Some (_, rest2) \<Rightarrow> (Inr (), rest2))
      in if atyp = 1 then skip (4 + 2) input
         else if atyp = 4 then skip (16 + 2) input
         else if atyp = 3 then
           (case read_exact 1 input of
              None \<Rightarrow> (Inl io_failed, input)
            | Some (len, rest) \<Rightarrow> skip (unat (len ! 0) + 2) rest)
         else (Inl (Unreachable ''socks: bad address type''), input))"

definition read_reply :: "bytes \<Rightarrow> (proxy_error + unit) \<times> bytes" where
  "read_reply input =
     (case read_exact 4 input of
        None \<Rightarrow> (Inl io_failed, input)
      | Some (reply, rest) \<Rightarrow>
          (if reply ! 0 \<noteq> socks_version then (Inl (Unreachable ''socks: bad reply''), rest)
           else if reply ! 1 \<noteq> 0 then (Inl (Refused (reply_reason (unat (reply ! 1)))), rest)
           else read_bound (reply ! 3) rest))"

definition connect ::
    "string \<Rightarrow> u16 \<Rightarrow> (string \<times> string) option \<Rightarrow> bytes \<Rightarrow> (proxy_error + unit) \<times> bytes \<times> bytes" where
  "connect host port login input =
     (case authenticate login input of
        (Inl e, written, rest) \<Rightarrow> (Inl e, greeting login @ written, rest)
      | (Inr _, written, rest) \<Rightarrow>
          (case connect_request host port of
             Inl e \<Rightarrow> (Inl e, greeting login @ written, rest)
           | Inr req \<Rightarrow>
               (case read_reply rest of
                  (r, rest2) \<Rightarrow> (r, greeting login @ written @ req, rest2))))"

section \<open>The proxy's reading of a request\<close>

datatype target = TargetV4 bytes | TargetV6 bytes | TargetName string

text \<open>RFC 1928: version, command, reserved byte, address type, address, port.\<close>

definition decode_request :: "bytes \<Rightarrow> (target \<times> nat) option" where
  "decode_request bs =
     (case bs of
        v # c # z # t # rest \<Rightarrow>
          (if v \<noteq> 5 \<or> c \<noteq> 1 \<or> z \<noteq> 0 then None
           else
             (let addr = (if t = 1 then Some (TargetV4 (take 4 rest), drop 4 rest)
                          else if t = 4 then Some (TargetV6 (take 16 rest), drop 16 rest)
                          else if t = 3 then
                            (case rest of
                               n # rest2 \<Rightarrow>
                                 Some (TargetName (of_bytes (take (unat n) rest2)), drop (unat n) rest2)
                             | [] \<Rightarrow> None)
                          else None)
              in case addr of
                   Some (a, [hi, lo]) \<Rightarrow> Some (a, 256 * unat hi + unat lo)
                 | _ \<Rightarrow> None))
      | _ \<Rightarrow> None)"

definition target_of :: "string \<Rightarrow> target" where
  "target_of host =
     (case parse_ip host of
        Some (IpV4 v4) \<Rightarrow> TargetV4 (v4_octets v4)
      | Some (IpV6 v6) \<Rightarrow> TargetV6 (v6_octets v6)
      | None \<Rightarrow> TargetName host)"

lemma length_octets [simp]: "length (v4_octets v4) = 4" "length (v6_octets v6) = 16"
  by (cases v4; simp add: v4_octets_def) (cases v6; simp add: v6_octets_def)

lemma unat_of_nat_u8: "n \<le> 255 \<Longrightarrow> unat (of_nat n :: u8) = n"
  by (simp add: unat_of_nat take_bit_eq_mod)

lemma port_bytes_value: "256 * unat (hi_octet p) + unat (lo_octet p) = unat p"
proof -
  have "unat p < 65536" using unsigned_less [of p, where ?'a = nat] by simp
  then have "unat p div 256 mod 256 = unat p div 256" by (simp add: less_mult_imp_div_less)
  then have "256 * (unat p div 256 mod 256) + unat p mod 256 = unat p" by simp
  then show ?thesis
    by (simp add: hi_octet_def lo_octet_def unsigned_ucast_eq unsigned_drop_bit_eq take_bit_eq_mod
        drop_bit_eq_div unat_div)
qed

text \<open>
  The proxy is asked for the session's target and nothing else. The request decodes, by
  the rules of RFC 1928, to the given host and port: an IP literal as the address it denotes, any
  other host as the name itself, so that the proxy resolves it. Only a name longer than 255 bytes
  is refused, before anything of the request is sent.
\<close>

theorem socks_request_round_trip:
  "case connect_request host port of
     Inr req \<Rightarrow> decode_request req = Some (target_of host, unat port)
   | Inl e \<Rightarrow> e = Refused ''target host name too long'' \<and> parse_ip host = None \<and> 255 < length host"
proof (cases "parse_ip host")
  case None
  then show ?thesis
    using port_bytes_value [of port]
    by (auto simp: connect_request_def decode_request_def target_of_def socks_version_def port_bytes_def
        unat_of_nat_u8)
next
  case (Some ip)
  then show ?thesis
    using port_bytes_value [of port]
    by (cases ip) (auto simp: connect_request_def decode_request_def target_of_def socks_version_def port_bytes_def)
qed

text \<open>The bound address a proxy may answer with, as its address type and bytes.\<close>

definition bound_ok :: "u8 \<Rightarrow> bytes \<Rightarrow> bool" where
  "bound_ok atyp bound \<longleftrightarrow>
     atyp = 1 \<and> length bound = 6 \<or> atyp = 4 \<and> length bound = 18 \<or>
     atyp = 3 \<and> bound \<noteq> [] \<and> length bound = unat (hd bound) + 3"

lemma read_exact_append: "length xs = n \<Longrightarrow> read_exact n (xs @ ys) = Some (xs, ys)"
  by (simp add: read_exact_def)

lemma read_bound_ok:
  assumes "bound_ok atyp bound"
  shows "read_bound atyp (bound @ tunnel) = (Inr (), tunnel)"
proof -
  consider "atyp = 1" "length bound = 6" | "atyp = 4" "length bound = 18"
    | n rest where "atyp = 3" "bound = n # rest" "length rest = unat n + 2"
    using assms unfolding bound_ok_def by (cases bound) auto
  then show ?thesis
  proof cases
    case (3 n rest)
    have "read_exact 1 (bound @ tunnel) = Some ([n], rest @ tunnel)"
      using 3(2) by (simp add: read_exact_def)
    then show ?thesis
      using 3 read_exact_append [of rest "unat n + 2" tunnel] by (simp add: read_bound_def Let_def)
  qed (simp_all add: read_bound_def Let_def read_exact_append)
qed

lemma read_reply_ok:
  assumes "bound_ok atyp bound"
  shows "read_reply ([5, 0, rsv, atyp] @ bound @ tunnel) = (Inr (), tunnel)"
  using read_bound_ok [OF assms] read_exact_append [of "[5, 0, rsv, atyp]" 4 "bound @ tunnel"]
  by (simp add: read_reply_def socks_version_def)

text \<open>
  Property C40: the handshake leaves the stream at the tunnel. Against a proxy that accepts, the
  client consumes exactly the proxy's answers, whatever form of bound address they carry, so the
  first byte after them is the first byte of the tunnelled connection; and the login is written
  exactly when the proxy asked for it.
\<close>

theorem socks_handshake:
  assumes "connect_request host port = Inr req" "bound_ok atyp bound"
  shows "connect host port login ([5, 0] @ [5, 0, rsv, atyp] @ bound @ tunnel) =
           (Inr (), greeting login @ req, tunnel) \<and>
         (length user \<le> 255 \<and> length pass \<le> 255 \<longrightarrow>
          connect host port (Some (user, pass)) ([5, 2] @ [ver, 0] @ [5, 0, rsv, atyp] @ bound @ tunnel) =
            (Inr (), greeting (Some (user, pass)) @
               [1, of_nat (length user)] @ as_bytes user @ [of_nat (length pass)] @ as_bytes pass @ req,
             tunnel))"
  using assms(1) read_reply_ok [OF assms(2), of rsv tunnel]
  by (simp add: connect_def authenticate_def read_exact_def socks_version_def no_auth_def user_pass_def
      login_message_def)

lemma demo_request: "connect_request ''host'' 443 = Inr [5, 1, 0, 3, 4, 104, 111, 115, 116, 1, 187]"
proof -
  have "parse_ip ''host'' = None" by (simp add: parse_ip_eval)
  moreover have "as_bytes ''host'' = [104, 111, 115, 116]" "port_bytes 443 = [1, 187]" by code_simp+
  ultimately show ?thesis by (simp add: connect_request_def socks_version_def)
qed

theorem socks_handshake_witness:
  "connect ''host'' 443 None ([5, 0] @ [5, 0, 0, 1] @ [1, 2, 3, 4, 0, 80] @ [9, 9]) =
     (Inr (), [5, 1, 0] @ [5, 1, 0, 3, 4, 104, 111, 115, 116, 1, 187], [9, 9])"
  using socks_handshake [OF demo_request, of 1 "[1, 2, 3, 4, 0, 80]" None 0 "[9, 9]" "[]" "[]" 0]
  by (simp add: bound_ok_def greeting_def socks_version_def no_auth_def)

end
