(* ===== verification/Upstream.thy ===== *)
theory Upstream
  imports Rust_Str
begin

text \<open>
  \<^verbatim>\<open>src/proxy/upstream.rs\<close>: parsing the address of a session's upstream proxy. The base64 encoder is
  outside the repository and an argument of \<open>basic_auth\<close>.
\<close>

section \<open>Types\<close>

datatype proxy_scheme = Http | Https | Socks5

fun scheme_str :: "proxy_scheme \<Rightarrow> string" where
  "scheme_str Http = ''http''"
| "scheme_str Https = ''https''"
| "scheme_str Socks5 = ''socks5''"

fun default_port :: "proxy_scheme \<Rightarrow> nat" where
  "default_port Http = 80"
| "default_port Https = 443"
| "default_port Socks5 = 1080"

datatype upstream_parse_error = SchemeError | HostPort | PathError | Login string

record proxy_upstream =
  scheme :: proxy_scheme
  host :: string
  port :: nat
  username :: "string option"
  password :: "string option"

section \<open>Parsing\<close>

definition strip_prefix_ci :: "string \<Rightarrow> string \<Rightarrow> string option" where
  "strip_prefix_ci s p =
     (if length p \<le> length s \<and> eq_ignore_ascii_case (take (length p) s) p
      then Some (drop (length p) s) else None)"

definition host_char :: "char \<Rightarrow> bool" where
  "host_char c \<longleftrightarrow>
     is_ascii_alphanumeric c \<or> c = CHR ''.'' \<or> c = CHR ''-'' \<or> c = CHR '':'' \<or> c = CHR ''_''"

text \<open>The host and the text of the port, if there is one.\<close>

definition raw_host_port :: "string \<Rightarrow> upstream_parse_error + string \<times> string option" where
  "raw_host_port s =
     (case strip_prefix s ''['' of
        Some inner \<Rightarrow>
          (case split_once inner (CHR '']'') of
             None \<Rightarrow> Inl HostPort
           | Some (h, after) \<Rightarrow>
               (if after = [] then Inr (h, None)
                else (case strip_prefix after '':'' of
                        None \<Rightarrow> Inl HostPort | Some p \<Rightarrow> Inr (h, Some p))))
      | None \<Rightarrow>
          (case rsplit_once s (CHR '':'') of
             Some (h, p) \<Rightarrow> Inr (h, Some p)
           | None \<Rightarrow> Inr (s, None)))"

definition port_of :: "string option \<Rightarrow> nat \<Rightarrow> upstream_parse_error + nat" where
  "port_of p default0 =
     (case p of
        None \<Rightarrow> Inr default0
      | Some t \<Rightarrow>
          (case parse_uint u16_max t of
             None \<Rightarrow> Inl HostPort
           | Some n \<Rightarrow> if n \<noteq> 0 then Inr n else Inl HostPort))"

definition split_host_port :: "string \<Rightarrow> nat \<Rightarrow> upstream_parse_error + string \<times> nat" where
  "split_host_port s default0 =
     res_bind (raw_host_port s) (\<lambda>(h, p).
       if h = [] \<or> \<not> list_all host_char h then Inl HostPort
       else res_bind (port_of p default0) (\<lambda>n. Inr (to_ascii_lowercase h, n)))"

definition hex_value :: "char \<Rightarrow> nat option" where
  "hex_value c =
     (let n = of_char c :: nat
      in if 48 \<le> n \<and> n \<le> 57 then Some (n - 48)
         else if 65 \<le> n \<and> n \<le> 70 then Some (n - 55)
         else if 97 \<le> n \<and> n \<le> 102 then Some (n - 87)
         else None)"

text \<open>\<^verbatim>\<open>u8::from_str_radix\<close> on two characters: a leading plus sign is accepted.\<close>

definition hex_pair :: "char \<Rightarrow> char \<Rightarrow> nat option" where
  "hex_pair a b =
     (if a = CHR ''+'' then hex_value b
      else (case hex_value a of
              None \<Rightarrow> None
            | Some x \<Rightarrow> (case hex_value b of None \<Rightarrow> None | Some y \<Rightarrow> Some (16 * x + y))))"

fun percent_bytes :: "string \<Rightarrow> string option" where
  "percent_bytes [] = Some []"
| "percent_bytes (c # cs) =
     (if c = CHR ''%'' then
        (case cs of
           a # b # rest \<Rightarrow>
             (case hex_pair a b of
                None \<Rightarrow> None
              | Some n \<Rightarrow> map_option ((#) (char_of n)) (percent_bytes rest))
         | _ \<Rightarrow> None)
      else map_option ((#) c) (percent_bytes cs))"

definition percent_decode :: "string \<Rightarrow> string option" where
  "percent_decode s =
     (case percent_bytes s of
        None \<Rightarrow> None
      | Some out \<Rightarrow> if utf8_valid out then Some out else None)"

definition validate_login ::
    "proxy_scheme \<Rightarrow> string option \<Rightarrow> string option \<Rightarrow> upstream_parse_error + unit" where
  "validate_login sch user pass =
     (case user of
        None \<Rightarrow> Inr ()
      | Some u \<Rightarrow>
          (if u = [] then Inl (Login ''empty username'')
           else if has_control u \<or> (case pass of None \<Rightarrow> False | Some p \<Rightarrow> has_control p)
           then Inl (Login ''control character'')
           else if sch \<noteq> Socks5 \<and> CHR '':'' \<in> set u then Inl (Login ''username contains colon'')
           else if sch = Socks5 \<and>
                   (255 < length u \<or> (case pass of None \<Rightarrow> False | Some p \<Rightarrow> 255 < length p))
           then Inl (Login ''longer than 255 bytes'')
           else Inr ()))"

definition scheme_of :: "string \<Rightarrow> upstream_parse_error + proxy_scheme \<times> string" where
  "scheme_of raw =
     (case strip_prefix_ci raw ''http://'' of
        Some r \<Rightarrow> Inr (Http, r)
      | None \<Rightarrow>
          (case strip_prefix_ci raw ''https://'' of
             Some r \<Rightarrow> Inr (Https, r)
           | None \<Rightarrow>
               (case strip_prefix_ci raw ''socks5://'' of
                  Some r \<Rightarrow> Inr (Socks5, r)
                | None \<Rightarrow>
                    (case strip_prefix_ci raw ''socks5h://'' of
                       Some r \<Rightarrow> Inr (Socks5, r) | None \<Rightarrow> Inl SchemeError))))"

definition decode_login ::
    "string option \<Rightarrow> upstream_parse_error + string option \<times> string option" where
  "decode_login login =
     (case login of
        None \<Rightarrow> Inr (None, None)
      | Some l \<Rightarrow>
          (let (u, p) = (case split_once l (CHR '':'') of Some (u, p) \<Rightarrow> (u, Some p) | None \<Rightarrow> (l, None))
           in res_bind (ok_or (percent_decode u) (Login ''bad escape'')) (\<lambda>user.
                case p of
                  None \<Rightarrow> Inr (Some user, None)
                | Some p \<Rightarrow>
                    res_bind (ok_or (percent_decode p) (Login ''bad escape''))
                      (\<lambda>pass. Inr (Some user, Some pass)))))"

definition parse :: "string \<Rightarrow> upstream_parse_error + proxy_upstream" where
  "parse raw0 =
     res_bind (scheme_of (trim raw0)) (\<lambda>(sch, rest0).
       let rest = (case strip_suffix rest0 ''/'' of None \<Rightarrow> rest0 | Some r \<Rightarrow> r)
       in if list_ex (\<lambda>c. c \<in> set ''/?#'') rest then Inl PathError
          else
            (let (login, hostport) = (case rsplit_once rest (CHR ''@'') of
                                        Some (l, h) \<Rightarrow> (Some l, h) | None \<Rightarrow> (None, rest))
             in res_bind (split_host_port hostport (default_port sch)) (\<lambda>(h, n).
                  res_bind (decode_login login) (\<lambda>(user, pass).
                    res_bind (validate_login sch user pass) (\<lambda>_.
                      Inr \<lparr>scheme = sch, host = h, port = n, username = user, password = pass\<rparr>)))))"

section \<open>Using\<close>

definition has_login :: "proxy_upstream \<Rightarrow> bool" where
  "has_login u \<longleftrightarrow> username u \<noteq> None"

definition basic_auth :: "(string \<Rightarrow> string) \<Rightarrow> proxy_upstream \<Rightarrow> string option" where
  "basic_auth encode u =
     (case username u of
        None \<Rightarrow> None
      | Some user \<Rightarrow>
          (let pass = (case password u of None \<Rightarrow> [] | Some p \<Rightarrow> p)
           in Some (''Basic '' @ encode (user @ '':'' @ pass))))"

definition display :: "proxy_upstream \<Rightarrow> string" where
  "display u =
     (if CHR '':'' \<in> set (host u)
      then scheme_str (scheme u) @ ''://['' @ host u @ '']:'' @ show_nat (port u)
      else scheme_str (scheme u) @ ''://'' @ host u @ '':'' @ show_nat (port u))"

section \<open>What an accepted address is\<close>

definition upstream_ok :: "proxy_upstream \<Rightarrow> bool" where
  "upstream_ok u \<longleftrightarrow>
     host u \<noteq> [] \<and> list_all host_char (host u) \<and> to_ascii_lowercase (host u) = host u \<and>
     0 < port u \<and> port u \<le> 65535 \<and>
     (username u = None \<longrightarrow> password u = None) \<and>
     (\<forall>s. username u = Some s \<or> password u = Some s \<longrightarrow>
        utf8_valid s \<and> \<not> has_control s \<and> (scheme u = Socks5 \<longrightarrow> length s \<le> 255)) \<and>
     (\<forall>s. username u = Some s \<longrightarrow> s \<noteq> [] \<and> (scheme u \<noteq> Socks5 \<longrightarrow> CHR '':'' \<notin> set s))"

lemma host_char_lower: "host_char c \<Longrightarrow> host_char (ascii_lower c)"
  by (auto simp: host_char_def ascii_lower_def is_ascii_alphanumeric_def Let_def of_char_of)

lemma split_host_port_ok:
  assumes "split_host_port s d = Inr (h, n)" "0 < d" "d \<le> 65535"
  shows "h \<noteq> [] \<and> list_all host_char h \<and> to_ascii_lowercase h = h \<and> 0 < n \<and> n \<le> 65535"
  using assms
  by (auto simp: split_host_port_def port_of_def list_all_iff to_ascii_lowercase_def host_char_lower
      u16_max_def split: if_splits option.splits dest: parse_uint_le)

lemma decode_login_ok:
  assumes "decode_login login = Inr (user, pass)"
  shows "(user = None \<longrightarrow> pass = None) \<and> (\<forall>s. user = Some s \<or> pass = Some s \<longrightarrow> utf8_valid s)"
  using assms
  by (auto simp: decode_login_def percent_decode_def Let_def split: option.splits if_splits prod.splits)

lemma validate_login_ok:
  assumes "validate_login sch user pass = Inr ()" "user = None \<longrightarrow> pass = None"
  shows "(\<forall>s. user = Some s \<or> pass = Some s \<longrightarrow> \<not> has_control s \<and> (sch = Socks5 \<longrightarrow> length s \<le> 255)) \<and>
         (\<forall>s. user = Some s \<longrightarrow> s \<noteq> [] \<and> (sch \<noteq> Socks5 \<longrightarrow> CHR '':'' \<notin> set s))"
  using assms by (auto simp: validate_login_def split: option.splits if_splits)

lemma default_port_ok: "0 < default_port sch \<and> default_port sch \<le> 65535"
  by (cases sch) simp_all

section \<open>Every safe upstream has an address\<close>

definition hex_upper :: "nat \<Rightarrow> char" where
  "hex_upper n = (if n < 10 then char_of (48 + n) else char_of (55 + n))"

definition percent_encode :: "string \<Rightarrow> string" where
  "percent_encode s =
     concat (map (\<lambda>c. [CHR ''%'', hex_upper (of_char c div 16), hex_upper (of_char c mod 16)]) s)"

lemma hex_value_upper: "n < 16 \<Longrightarrow> hex_value (hex_upper n) = Some n"
  by (auto simp: hex_value_def hex_upper_def Let_def of_char_of)

lemma hex_upper_plus: "n < 16 \<Longrightarrow> hex_upper n \<noteq> CHR ''+''"
  using hex_value_upper [of n] by (auto simp: hex_value_def)

lemma of_char_nibbles: "of_char c div 16 < (16 :: nat)" "of_char c mod 16 < (16 :: nat)"
  using less_mult_imp_div_less [of "of_char c :: nat" 16 16] by simp_all

lemma percent_bytes_encode: "percent_bytes (percent_encode s) = Some s"
proof (induction s)
  case (Cons c s)
  have "hex_pair (hex_upper (of_char c div 16)) (hex_upper (of_char c mod 16)) = Some (of_char c)"
    by (simp add: hex_pair_def hex_upper_plus hex_value_upper of_char_nibbles)
  then show ?case
    using Cons by (simp add: percent_encode_def char_of_char)
qed (simp add: percent_encode_def)

lemma percent_encode_chars:
  "c \<in> set (percent_encode s) \<Longrightarrow> c = CHR ''%'' \<or> is_ascii_alphanumeric c"
proof (induction s)
  case (Cons x s)
  have "n < 16 \<Longrightarrow> is_ascii_alphanumeric (hex_upper n)" for n
    by (auto simp: is_ascii_alphanumeric_def hex_upper_def Let_def of_char_of)
  then show ?case
    using Cons of_char_nibbles [of x] by (auto simp: percent_encode_def)
qed (simp add: percent_encode_def)

definition host_port :: "proxy_upstream \<Rightarrow> string" where
  "host_port u =
     (if CHR '':'' \<in> set (host u) then ''['' @ host u @ '']:'' @ show_nat (port u)
      else host u @ '':'' @ show_nat (port u))"

definition login_text :: "proxy_upstream \<Rightarrow> string option" where
  "login_text u =
     (case username u of
        None \<Rightarrow> None
      | Some s \<Rightarrow>
          Some (percent_encode s @
                (case password u of None \<Rightarrow> [] | Some p \<Rightarrow> '':'' @ percent_encode p)))"

definition address_text :: "proxy_upstream \<Rightarrow> string" where
  "address_text u =
     scheme_str (scheme u) @ ''://'' @
     (case login_text u of None \<Rightarrow> [] | Some l \<Rightarrow> l @ ''@'') @ host_port u"

lemma display_address: "username u = None \<Longrightarrow> display u = address_text u"
  by (simp add: display_def address_text_def host_port_def login_text_def)

lemma show_nat_chars: "c \<in> set (show_nat n) \<Longrightarrow> is_ascii_digit c"
  using show_nat_digits [of n] by (simp add: list_all_iff)

lemma host_port_chars:
  assumes "list_all host_char (host u)" "c \<in> set (host_port u)"
  shows "host_char c \<or> c = CHR ''['' \<or> c = CHR '']''"
  using assms show_nat_chars
  by (auto simp: host_port_def list_all_iff host_char_def is_ascii_digit_def is_ascii_alphanumeric_def
      Let_def split: if_splits)

lemma split_host_port_text:
  assumes "upstream_ok u"
  shows "split_host_port (host_port u) d = Inr (host u, port u)"
proof -
  have ok: "host u \<noteq> []" "list_all host_char (host u)" "to_ascii_lowercase (host u) = host u"
    "port u \<noteq> 0" "port u \<le> u16_max"
    using assms by (simp_all add: upstream_ok_def u16_max_def)
  have port: "port_of (Some (show_nat (port u))) d = Inr (port u)"
    using ok by (simp add: port_of_def)
  have no: "CHR '']'' \<notin> set (host u)" "CHR ''['' \<notin> set (host u)"
    using ok(2) by (auto simp: list_all_iff host_char_def is_ascii_alphanumeric_def Let_def)
  have "raw_host_port (host_port u) = Inr (host u, Some (show_nat (port u)))"
  proof (cases "CHR '':'' \<in> set (host u)")
    case True
    then have "host_port u = CHR ''['' # host u @ CHR '']'' # CHR '':'' # show_nat (port u)"
      by (simp add: host_port_def)
    moreover have "split_once (host u @ CHR '']'' # CHR '':'' # show_nat (port u)) (CHR '']'') =
        Some (host u, CHR '':'' # show_nat (port u))"
      using no(1) by (simp add: split_once_Some)
    ultimately show ?thesis
      by (simp add: raw_host_port_def strip_prefix_def starts_with_def)
  next
    case False
    have "CHR '':'' \<notin> set (show_nat (port u))"
      using show_nat_chars [of "CHR '':''" "port u"] by (auto simp: is_ascii_digit_def Let_def)
    then have "rsplit_once (host u @ CHR '':'' # show_nat (port u)) (CHR '':'') = Some (host u, show_nat (port u))"
      by (simp add: rsplit_once_Some)
    moreover have "strip_prefix (host u @ CHR '':'' # show_nat (port u)) ''['' = None"
      using ok(1) no(2) by (cases "host u") (auto simp: starts_with_def)
    ultimately show ?thesis using False by (simp add: raw_host_port_def host_port_def del: strip_prefix_None)
  qed
  then show ?thesis
    using ok port by (simp add: split_host_port_def)
qed

lemma decode_login_text:
  assumes "upstream_ok u"
  shows "decode_login (login_text u) = Inr (username u, password u)"
proof (cases "username u")
  case None
  then show ?thesis using assms by (simp add: decode_login_def login_text_def upstream_ok_def)
next
  case (Some s)
  have dec: "percent_decode (percent_encode s') = Some s'" if "username u = Some s' \<or> password u = Some s'" for s'
    using that assms by (auto simp: percent_decode_def percent_bytes_encode upstream_ok_def)
  have no: "CHR '':'' \<notin> set (percent_encode s)"
    using percent_encode_chars [of "CHR '':''" s] by (auto simp: is_ascii_alphanumeric_def Let_def)
  show ?thesis
  proof (cases "password u")
    case None
    have "split_once (percent_encode s) (CHR '':'') = None" using no by simp
    then show ?thesis using Some None dec by (simp add: decode_login_def login_text_def Let_def del: split_once_None)
  next
    case p: (Some p)
    have "split_once (percent_encode s @ CHR '':'' # percent_encode p) (CHR '':'') =
        Some (percent_encode s, percent_encode p)"
      using no by (simp add: split_once_Some)
    then show ?thesis using Some p dec by (simp add: decode_login_def login_text_def Let_def)
  qed
qed

lemma validate_login_text: "upstream_ok u \<Longrightarrow> validate_login (scheme u) (username u) (password u) = Inr ()"
  by (auto simp: validate_login_def upstream_ok_def split: option.splits)

lemma scheme_of_text: "scheme_of (scheme_str sch @ ''://'' @ rest) = Inr (sch, rest)"
  by (cases sch)
     (simp_all add: scheme_of_def strip_prefix_ci_def eq_ignore_ascii_case_def ascii_lower_def Let_def)

lemma login_text_chars:
  assumes "login_text u = Some l" "c \<in> set l"
  shows "c = CHR ''%'' \<or> c = CHR '':'' \<or> is_ascii_alphanumeric c"
  using assms by (auto simp: login_text_def split: option.splits dest: percent_encode_chars)

definition after_scheme :: "proxy_upstream \<Rightarrow> string" where
  "after_scheme u = (case login_text u of None \<Rightarrow> [] | Some l \<Rightarrow> l @ ''@'') @ host_port u"

lemma host_port_last: "last (host_port u) = last (show_nat (port u)) \<and> host_port u \<noteq> []"
  by (simp add: host_port_def)

lemma after_scheme_last: "last (after_scheme u) = last (show_nat (port u)) \<and> after_scheme u \<noteq> []"
  using host_port_last [of u] by (simp add: after_scheme_def)

lemma after_scheme_chars:
  assumes "list_all host_char (host u)" "c \<in> set (after_scheme u)"
  shows "c \<in> set ''%@[]'' \<or> host_char c"
proof -
  from assms(2) consider l where "login_text u = Some l" "c \<in> set l" | "c = CHR ''@''" | "c \<in> set (host_port u)"
    by (cases "login_text u") (auto simp: after_scheme_def)
  then show ?thesis
  proof cases
    case 1
    then show ?thesis using login_text_chars [OF 1] by (auto simp: host_char_def)
  next
    case 3
    then show ?thesis using host_port_chars [OF assms(1) 3] by auto
  qed simp
qed

lemma after_scheme_no_path:
  assumes "upstream_ok u"
  shows "\<not> list_ex (\<lambda>c. c \<in> set ''/?#'') (after_scheme u)"
proof -
  have "list_all host_char (host u)" using assms by (simp add: upstream_ok_def)
  then have "c \<notin> set ''/?#''" if "c \<in> set (after_scheme u)" for c
    using after_scheme_chars [OF _ that] by (auto simp: host_char_def is_ascii_alphanumeric_def Let_def)
  then show ?thesis by (auto simp: list_ex_iff)
qed

lemma after_scheme_split:
  assumes "upstream_ok u"
  shows "(case rsplit_once (after_scheme u) (CHR ''@'') of Some (l, h) \<Rightarrow> (Some l, h) | None \<Rightarrow> (None, after_scheme u))
         = (login_text u, host_port u)"
proof -
  have at: "CHR ''@'' \<notin> set (host_port u)"
    using assms host_port_chars [of u "CHR ''@''"]
    by (auto simp: upstream_ok_def host_char_def is_ascii_alphanumeric_def Let_def)
  show ?thesis
  proof (cases "login_text u")
    case None
    have "rsplit_once (host_port u) (CHR ''@'') = None" using at by simp
    then show ?thesis using None by (simp add: after_scheme_def del: rsplit_once_None)
  next
    case (Some l)
    have "rsplit_once (l @ CHR ''@'' # host_port u) (CHR ''@'') = Some (l, host_port u)"
      using at by (simp add: rsplit_once_Some)
    then show ?thesis using Some by (simp add: after_scheme_def)
  qed
qed

lemma trim_address: "trim (address_text u) = address_text u"
proof (rule trim_alnum)
  show "is_ascii_alphanumeric (hd (address_text u))"
    by (cases "scheme u") (simp_all add: address_text_def is_ascii_alphanumeric_def)
  have "address_text u = (scheme_str (scheme u) @ ''://'') @ after_scheme u"
    by (simp add: address_text_def after_scheme_def)
  then show "is_ascii_alphanumeric (last (address_text u))"
    using after_scheme_last [of u] show_nat_last [of "port u"] by simp
  show "address_text u \<noteq> []" by (simp add: address_text_def)
qed

lemma parse_address:
  assumes "upstream_ok u"
  shows "parse (address_text u) = Inr u"
proof -
  have sch: "scheme_of (address_text u) = Inr (scheme u, after_scheme u)"
    using scheme_of_text [of "scheme u" "after_scheme u"] by (simp add: address_text_def after_scheme_def)
  have suf: "strip_suffix (after_scheme u) ''/'' = None"
  proof (rule ccontr)
    assume "strip_suffix (after_scheme u) ''/'' \<noteq> None"
    then obtain t where "after_scheme u = t @ ''/''" by auto
    then have "last (show_nat (port u)) = CHR ''/''"
      using after_scheme_last [of u] by simp
    then show False
      using show_nat_last [of "port u"] by (simp only:) (simp add: is_ascii_alphanumeric_def)
  qed
  have rest: "(case strip_suffix (after_scheme u) ''/'' of None \<Rightarrow> after_scheme u | Some r \<Rightarrow> r) = after_scheme u"
    by (simp add: suf)
  show ?thesis
    unfolding parse_def trim_address sch res_bind_simps prod.case rest Let_def after_scheme_split [OF assms]
    using after_scheme_no_path [OF assms] split_host_port_text [OF assms] decode_login_text [OF assms]
      validate_login_text [OF assms]
    by simp
qed

text \<open>
  An accepted proxy address is safe to use. Its host is a non-empty lower-case name or
  literal of the allowed characters, its port is a real port, and its login is UTF-8 without control
  characters (so nothing can be smuggled into the header it is sent in), with a name that is not
  empty, has no colon where the header format forbids one, and fits the length bytes of SOCKS.
\<close>

theorem parsed_upstream_safe:
  assumes "parse raw = Inr u"
  shows "upstream_ok u"
proof -
  obtain sch h n user pass s login where p:
      "u = \<lparr>scheme = sch, host = h, port = n, username = user, password = pass\<rparr>"
      "split_host_port s (default_port sch) = Inr (h, n)"
      "decode_login login = Inr (user, pass)" "validate_login sch user pass = Inr ()"
    using assms by (auto simp: parse_def Let_def split: if_splits prod.splits)
  show ?thesis
    using split_host_port_ok [OF p(2)] default_port_ok [of sch] decode_login_ok [OF p(3)]
      validate_login_ok [OF p(4)] unfolding upstream_ok_def p(1) by auto
qed

definition demo_upstream :: proxy_upstream where
  "demo_upstream = \<lparr>scheme = Socks5, host = ''proxy.example'', port = 8080, username = Some ''bob'',
     password = Some ''pa@ss''\<rparr>"

lemma demo_upstream_ok: "upstream_ok demo_upstream"
proof -
  have "list_all host_char ''proxy.example'' \<and> to_ascii_lowercase ''proxy.example'' = ''proxy.example'' \<and>
      utf8_valid ''bob'' \<and> utf8_valid ''pa@ss'' \<and> \<not> has_control ''bob'' \<and> \<not> has_control ''pa@ss''"
    by code_simp
  then show ?thesis by (auto simp: upstream_ok_def demo_upstream_def)
qed

theorem parsed_upstream_safe_witness: "upstream_ok demo_upstream"
  by (rule parsed_upstream_safe [OF parse_address [OF demo_upstream_ok]])

text \<open>
  Property C39: round trip. Every safe upstream has an address that parses to it: the percent-encoded
  login of any characters, IPv6 hosts in brackets. In particular what is shown of an upstream
  without a login parses back to that upstream.
\<close>

theorem upstream_round_trip:
  assumes "upstream_ok u"
  shows "parse (address_text u) = Inr u \<and> (if username u = None then parse (display u) = Inr u else True)"
  using parse_address [OF assms] display_address by auto

theorem upstream_round_trip_witness: "parse (address_text demo_upstream) = Inr demo_upstream"
  using upstream_round_trip [OF demo_upstream_ok] by blast

end
