(* ===== verification/Relay.thy ===== *)
theory Relay
  imports Head Socks Upstream
begin

text \<open>
  \<^verbatim>\<open>src/proxy/dial.rs\<close> and \<^verbatim>\<open>src/proxy/relay.rs\<close>: dialling the upstream proxy and the local relay that
  Chrome uses. The network is the environment: what a connection attempt returns (with the reads the
  new stream will give), whether a write to a peer succeeds, whether the limit for connecting ran out.
  The result of serving one connection is what the relay wrote to the browser and to the upstream,
  and how the two are joined afterwards.
\<close>

section \<open>Dialling\<close>

record relay_options =
  allow_private :: bool
  connect_timeout :: nat
  max_connections :: nat

definition default_relay_options :: relay_options where
  "default_relay_options = \<lparr>allow_private = False, connect_timeout = 20000, max_connections = 256\<rparr>"

record dialer =
  d_upstream :: proxy_upstream
  d_addrs :: "socket_addr list"
  d_tls :: bool
  d_timeout :: nat

record net_env =
  tcp_connect :: "socket_addr list \<Rightarrow> io_error + read_result list"
  server_name_ok :: "string \<Rightarrow> bool"
  tls_connect :: "string \<Rightarrow> read_result list \<Rightarrow> string + read_result list"
  elapsed :: bool
  up_write :: "io_error option"
  kind_text :: "io_error \<Rightarrow> string"
  io_text :: "io_error \<Rightarrow> string"
  base64 :: "string \<Rightarrow> string"
  memmem :: memmem_fun
  parser :: http_parser

definition dialer_new ::
    "(string \<Rightarrow> u16 \<Rightarrow> socket_addr list option) \<Rightarrow> bool \<Rightarrow> proxy_upstream \<Rightarrow> bool \<Rightarrow> nat \<Rightarrow> proxy_error + dialer" where
  "dialer_new lookup tls_available u allow timeout =
     res_bind (resolve_allowed lookup (host u) (of_nat (port u)) allow)
       (\<lambda>addrs. res_bind
          (case scheme u of
             Https \<Rightarrow> if tls_available then Inr True else Inl (Unreachable ''TLS is not available on this host'')
           | _ \<Rightarrow> Inr False)
          (\<lambda>tls. Inr \<lparr>d_upstream = u, d_addrs = addrs, d_tls = tls, d_timeout = timeout\<rparr>))"

definition open_inner :: "net_env \<Rightarrow> dialer \<Rightarrow> proxy_error + read_result list" where
  "open_inner env d =
     (case tcp_connect env (d_addrs d) of
        Inl e \<Rightarrow> Inl (Unreachable (kind_text env e))
      | Inr tcp \<Rightarrow>
          (if \<not> d_tls d then Inr tcp
           else if \<not> server_name_ok env (host (d_upstream d)) then Inl (Unreachable ''invalid TLS server name'')
           else (case tls_connect env (host (d_upstream d)) tcp of
                   Inl e \<Rightarrow> Inl (Unreachable (''TLS: '' @ e))
                 | Inr stream \<Rightarrow> Inr stream)))"

definition open_stream :: "net_env \<Rightarrow> dialer \<Rightarrow> proxy_error + read_result list" where
  "open_stream env d = (if elapsed env then Inl Timeout else open_inner env d)"

definition authority :: "string \<Rightarrow> nat \<Rightarrow> string" where
  "authority h p =
     (if CHR '':'' \<in> set h then ''['' @ h @ '']:'' @ show_nat p else h @ '':'' @ show_nat p)"

definition crlf :: string where
  "crlf = [char_of (13 :: nat), char_of (10 :: nat)]"

definition connect_head :: "net_env \<Rightarrow> dialer \<Rightarrow> string \<Rightarrow> nat \<Rightarrow> string" where
  "connect_head env d h p =
     (let a = authority h p
      in ''CONNECT '' @ a @ '' HTTP/1.1'' @ crlf @ ''Host: '' @ a @ crlf @
         (case basic_auth (base64 env) (d_upstream d) of
            None \<Rightarrow> []
          | Some auth \<Rightarrow> ''Proxy-Authorization: '' @ auth @ crlf) @ crlf)"

definition io_kind :: "net_env \<Rightarrow> head_error \<Rightarrow> string" where
  "io_kind env e =
     (case e of
        HeadTooLarge \<Rightarrow> ''other error''
      | UnexpectedEof \<Rightarrow> ''unexpected end of file''
      | HeadIo k \<Rightarrow> kind_text env k)"

text \<open>
  The CONNECT exchange with an HTTP proxy: the bytes after the proxy's answer or the error, what was
  written, the reads left. \<open>None\<close> while the answer is incomplete.
\<close>

definition http_connect ::
    "net_env \<Rightarrow> dialer \<Rightarrow> read_result list \<Rightarrow> string \<Rightarrow> nat
     \<Rightarrow> (proxy_error + bytes) option \<times> bytes \<times> read_result list" where
  "http_connect env d stream h p =
     (let req = as_bytes (connect_head env d h p)
      in case up_write env of
           Some e \<Rightarrow> (Some (Inl (Unreachable (kind_text env e))), [], stream)
         | None \<Rightarrow>
            (case read_head (memmem env) stream [] of
               None \<Rightarrow> (None, req, [])
             | Some (Inl e, rest) \<Rightarrow> (Some (Inl (Unreachable (io_kind env e))), req, rest)
             | Some (Inr None, rest) \<Rightarrow> (Some (Inl (Unreachable ''proxy closed the connection'')), req, rest)
             | Some (Inr (Some msg), rest) \<Rightarrow>
                 (Some (case response_status (parser env) (head_bytes msg) of
                          Some code \<Rightarrow>
                            (if 200 \<le> code \<and> code \<le> 299 then Inr (head_rest msg)
                             else if code = 401 \<or> code = 407 then Inl LoginFailed
                             else Inl (Refused (''status '' @ show_nat code)))
                        | None \<Rightarrow> Inl (Unreachable ''malformed proxy response'')),
                  req, rest)))"

definition socks_login :: "proxy_upstream \<Rightarrow> (string \<times> string) option" where
  "socks_login u = map_option (\<lambda>name. (name, case password u of None \<Rightarrow> [] | Some p \<Rightarrow> p)) (username u)"

text \<open>
  A tunnel: the stream with the bytes read too far, or the error; and what was written. An answer
  that never completes runs into the time limit.
\<close>

definition tunnel ::
    "net_env \<Rightarrow> dialer \<Rightarrow> string \<Rightarrow> nat \<Rightarrow> (proxy_error + read_result list \<times> bytes) \<times> bytes" where
  "tunnel env d h p =
     (if elapsed env then (Inl Timeout, [])
      else case open_inner env d of
             Inl e \<Rightarrow> (Inl e, [])
           | Inr stream \<Rightarrow>
              (case scheme (d_upstream d) of
                 Socks5 \<Rightarrow>
                   (case up_write env of
                      Some e \<Rightarrow> (Inl (Unreachable (''socks: '' @ io_text env e)), [])
                    | None \<Rightarrow>
                    case Socks.connect h (of_nat p) (socks_login (d_upstream d)) (incoming stream) of
                      (Inl e, written, _) \<Rightarrow> (Inl e, written)
                    | (Inr _, written, rest) \<Rightarrow> (Inr (chunks [rest], []), written))
               | _ \<Rightarrow>
                   (case http_connect env d stream h p of
                      (None, written, _) \<Rightarrow> (Inl Timeout, written)
                    | (Some (Inl e), written, _) \<Rightarrow> (Inl e, written)
                    | (Some (Inr rest), written, stream1) \<Rightarrow> (Inr (stream1, rest), written))))"

section \<open>Serving one connection\<close>

datatype joined = Ended | Waiting | Tunnelled "read_result list" | Responding "read_result list"

record served =
  to_client :: bytes
  to_upstream :: bytes
  joined :: joined

definition ended :: "bytes \<Rightarrow> bytes \<Rightarrow> served" where
  "ended c u = \<lparr>to_client = c, to_upstream = u, joined = Ended\<rparr>"

definition reply :: "nat \<Rightarrow> string \<Rightarrow> string" where
  "reply status reason =
     (let body = reason @ [char_of (10 :: nat)]
      in ''HTTP/1.1 '' @ show_nat status @ '' '' @
         (if status = 400 then ''Bad Request'' else ''Bad Gateway'') @ crlf @
         ''Content-Type: text/plain'' @ crlf @ ''Content-Length: '' @ show_nat (length body) @ crlf @
         ''Connection: close'' @ crlf @ crlf @ body)"

fun error_text :: "proxy_error \<Rightarrow> string" where
  "error_text (AddressNotAllowed m) = ''proxy address not allowed: '' @ m"
| "error_text (Unreachable m) = ''proxy unreachable: '' @ m"
| "error_text LoginFailed = ''proxy login failed''"
| "error_text (Refused m) = ''proxy refused the connection: '' @ m"
| "error_text Timeout = ''proxy did not answer in time''"

definition established :: string where
  "established = ''HTTP/1.1 200 Connection Established'' @ crlf @ crlf"

definition failed :: "proxy_error \<Rightarrow> bytes \<Rightarrow> served" where
  "failed e written = ended (as_bytes (reply 502 (error_text e))) written"

definition relay_connect :: "net_env \<Rightarrow> dialer \<Rightarrow> string \<Rightarrow> nat \<Rightarrow> bytes \<Rightarrow> served" where
  "relay_connect env d h p early =
     (case tunnel env d h p of
        (Inl e, written) \<Rightarrow> failed e written
      | (Inr (stream, rest), written) \<Rightarrow>
          \<lparr>to_client = as_bytes established @ rest, to_upstream = written @ early, joined = Tunnelled stream\<rparr>)"

definition forward ::
    "net_env \<Rightarrow> read_result list \<Rightarrow> bytes \<Rightarrow> bytes \<Rightarrow> bytes \<Rightarrow> bytes \<Rightarrow> served" where
  "forward env stream tunnel_rest written request_head early_body =
     (case up_write env of
        Some e \<Rightarrow> failed (Unreachable (kind_text env e)) written
      | None \<Rightarrow>
         (let up = written @ request_head @ early_body
          in case read_head (memmem env) stream tunnel_rest of
               None \<Rightarrow> \<lparr>to_client = [], to_upstream = up, joined = Waiting\<rparr>
             | Some (Inl e, _) \<Rightarrow> failed (Unreachable (io_kind env e)) up
             | Some (Inr None, _) \<Rightarrow> failed (Unreachable ''proxy closed the connection'') up
             | Some (Inr (Some msg), rest) \<Rightarrow>
                 (if response_status (parser env) (head_bytes msg) \<in> {Some 401, Some 407}
                  then failed LoginFailed up
                  else \<lparr>to_client = head_bytes msg @ head_rest msg, to_upstream = up, joined = Responding rest\<rparr>)))"

definition relay_forward ::
    "net_env \<Rightarrow> dialer \<Rightarrow> string \<Rightarrow> nat \<Rightarrow> string \<Rightarrow> string \<Rightarrow> string \<Rightarrow> (string \<times> bytes) list \<Rightarrow> bytes \<Rightarrow> served" where
  "relay_forward env d h p meth absolute origin_form headers early_body =
     (case scheme (d_upstream d) of
        Socks5 \<Rightarrow>
          (case tunnel env d h p of
             (Inl e, written) \<Rightarrow> failed e written
           | (Inr (stream, rest), written) \<Rightarrow>
               forward env stream rest written (rewrite_request meth origin_form headers None) early_body)
      | _ \<Rightarrow>
          (case open_stream env d of
             Inl e \<Rightarrow> failed e []
           | Inr stream \<Rightarrow>
               forward env stream [] []
                 (rewrite_request meth absolute headers (basic_auth (base64 env) (d_upstream d))) early_body))"

text \<open>
  The whole of \<^verbatim>\<open>serve\<close> for a browser that keeps its connection open; a panic drops the connection.
\<close>

definition serve :: "net_env \<Rightarrow> dialer \<Rightarrow> read_result list \<Rightarrow> served" where
  "serve env d client =
     (case read_head (memmem env) client [] of
        None \<Rightarrow> \<lparr>to_client = [], to_upstream = [], joined = Waiting\<rparr>
      | Some (Inr None, _) \<Rightarrow> ended [] []
      | Some (Inl _, _) \<Rightarrow> ended (as_bytes (reply 400 ''bad request'')) []
      | Some (Inr (Some msg), _) \<Rightarrow>
         (case parse_request (parser env) (head_bytes msg) of
            Panics \<Rightarrow> ended [] []
          | Returns (Inl reason) \<Rightarrow> ended (as_bytes (reply 400 reason)) []
          | Returns (Inr (Connect h p)) \<Rightarrow> relay_connect env d h p (head_rest msg)
          | Returns (Inr (Forward h p meth absolute origin_form headers)) \<Rightarrow>
              relay_forward env d h p meth absolute origin_form headers (head_rest msg)))"

section \<open>The listener\<close>

record relay =
  relay_port :: nat
  relay_dialer :: dialer
  cancelled :: bool
  slots :: nat

definition relay_start ::
    "(string \<Rightarrow> u16 \<Rightarrow> socket_addr list option) \<Rightarrow> bool \<Rightarrow> io_error + nat \<Rightarrow> (io_error \<Rightarrow> string)
     \<Rightarrow> proxy_upstream \<Rightarrow> relay_options \<Rightarrow> proxy_error + relay" where
  "relay_start lookup tls_available bound kind u options =
     res_bind (dialer_new lookup tls_available u (allow_private options) (connect_timeout options))
       (\<lambda>d. case bound of
              Inl e \<Rightarrow> Inl (Unreachable (''relay bind: '' @ kind e))
            | Inr p \<Rightarrow> Inr \<lparr>relay_port = p, relay_dialer = d, cancelled = False, slots = max_connections options\<rparr>)"

definition proxy_server :: "relay \<Rightarrow> string" where
  "proxy_server r = ''http://127.0.0.1:'' @ show_nat (relay_port r)"

definition relay_drop :: "relay \<Rightarrow> relay" where
  "relay_drop r = r\<lparr>cancelled := True\<rparr>"

text \<open>One turn of the accept loop: the peer of an accepted connection, and whether it is served.\<close>

datatype accept_event = AcceptFailed | Accepted ip_addr | ConnectionDone

definition accept_turn :: "accept_event \<Rightarrow> relay \<Rightarrow> bool \<times> relay" where
  "accept_turn ev r =
     (if cancelled r then (False, r)
      else case ev of
             AcceptFailed \<Rightarrow> (False, r)
           | Accepted peer \<Rightarrow>
               (if \<not> ip_is_loopback peer then (False, r)
                else if slots r = 0 then (False, r)
                else (True, r\<lparr>slots := slots r - 1\<rparr>))
           | ConnectionDone \<Rightarrow> (False, r\<lparr>slots := slots r + 1\<rparr>))"

section \<open>Authorities\<close>

lemma show_nat_colon: "CHR '':'' \<notin> set (show_nat p)"
  using show_nat_digits [of p] by (auto simp: list_all_iff is_ascii_digit_def)

lemma show_nat_at: "CHR ''@'' \<notin> set (show_nat p)"
  using show_nat_digits [of p] by (auto simp: list_all_iff is_ascii_digit_def)

lemma split_once_append: "c \<notin> set a \<Longrightarrow> split_once (a @ c # b) c = Some (a, b)"
  by (simp add: split_once_Some)

lemma rsplit_once_append: "c \<notin> set b \<Longrightarrow> rsplit_once (a @ c # b) c = Some (a, b)"
  by (simp add: rsplit_once_Some)

lemma strip_one: "strip_prefix (c # s) [c] = Some s"
  by (simp add: strip_prefix_def starts_with_def)

lemma authority_round_trip:
  assumes "h \<noteq> []" "set h \<inter> set ''@[]'' = {}" "0 < p" "p \<le> u16_max"
  shows "split_authority (authority h p) d = Some (h, p)"
proof -
  have at: "CHR ''@'' \<notin> set (authority h p)" "authority h p \<noteq> []"
    using assms(1,2) show_nat_at [of p] by (auto simp: authority_def)
  have num: "Option.bind (parse_uint u16_max (show_nat p)) (\<lambda>n. if n \<noteq> 0 then Some n else None) = Some p"
    using assms(3,4) by simp
  show ?thesis
  proof (cases "CHR '':'' \<in> set h")
    case True
    then have a: "authority h p = CHR ''['' # (h @ CHR '']'' # CHR '':'' # show_nat p)"
      by (simp add: authority_def)
    have "split_once (h @ CHR '']'' # CHR '':'' # show_nat p) (CHR '']'') = Some (h, CHR '':'' # show_nat p)"
      using assms(2) by (intro split_once_append) auto
    then show ?thesis
      using at num assms(1) unfolding split_authority_def a by (simp add: strip_one)
  next
    case False
    then have a: "authority h p = h @ CHR '':'' # show_nat p" by (simp add: authority_def)
    have "strip_prefix (authority h p) ''['' = None"
      using assms(1,2) unfolding a by (cases h) (auto simp: starts_with_def)
    moreover have "rsplit_once (authority h p) (CHR '':'') = Some (h, show_nat p)"
      unfolding a by (rule rsplit_once_append [OF show_nat_colon])
    ultimately show ?thesis
      using at num assms(1) unfolding split_authority_def by (simp add: strip_prefix_def)
  qed
qed

section \<open>What is sent to an HTTP proxy\<close>

lemma as_bytes_crlf: "as_bytes crlf = [13, 10]"
  by (simp add: as_bytes_def crlf_def)

lemma as_bytes_Nil: "as_bytes [] = []"
  by (simp add: as_bytes_def)

lemma connect_head_lines:
  "as_bytes (connect_head env d h p) =
     (as_bytes ''CONNECT '' @ as_bytes (authority h p) @ as_bytes '' HTTP/1.1'') @ 13 # 10 #
     concat (map header_line ((''Host'', as_bytes (authority h p)) #
       login_header (basic_auth (base64 env) (d_upstream d)))) @ [13, 10]"
proof -
  have "as_bytes ''Proxy-Authorization: '' = as_bytes ''Proxy-Authorization'' @ as_bytes '': ''"
    "as_bytes ''Host: '' = as_bytes ''Host'' @ as_bytes '': ''"
    by (simp_all add: as_bytes_def)
  moreover have "as_bytes (connect_head env d h p) =
     as_bytes ''CONNECT '' @ as_bytes (authority h p) @ as_bytes '' HTTP/1.1'' @ as_bytes crlf @
     as_bytes ''Host: '' @ as_bytes (authority h p) @ as_bytes crlf @
     (case basic_auth (base64 env) (d_upstream d) of
        None \<Rightarrow> []
      | Some auth \<Rightarrow> as_bytes ''Proxy-Authorization: '' @ as_bytes auth @ as_bytes crlf) @ as_bytes crlf"
    by (cases "basic_auth (base64 env) (d_upstream d)")
       (simp_all only: connect_head_def Let_def as_bytes_append option.case as_bytes_Nil)
  ultimately show ?thesis
    by (simp add: as_bytes_crlf login_header_def header_line_def split: option.split)
qed

lemma connect_head_decodes:
  assumes "13 \<notin> set (as_bytes (authority h p))"
    and "\<forall>a. basic_auth (base64 env) (d_upstream d) = Some a \<longrightarrow> 13 \<notin> set (as_bytes a)"
  shows "decode_head (as_bytes (connect_head env d h p)) =
    Some (as_bytes ''CONNECT '' @ as_bytes (authority h p) @ as_bytes '' HTTP/1.1'',
          map (\<lambda>x. (as_bytes (fst x), snd x))
            ((''Host'', as_bytes (authority h p)) # login_header (basic_auth (base64 env) (d_upstream d))))"
proof -
  let ?hs = "(''Host'', as_bytes (authority h p)) # login_header (basic_auth (base64 env) (d_upstream d))"
  have line: "13 \<notin> set (as_bytes ''CONNECT '' @ as_bytes (authority h p) @ as_bytes '' HTTP/1.1'')"
    using assms(1) by (simp add: as_bytes_def)
  have ok: "list_all header_ok ?hs"
    using assms by (auto simp: login_header_def header_ok_def as_bytes_def split: option.split)
  have "map_option (map decode_header) (header_lines (concat (map header_line ?hs) @ [13, 10])) =
        Some (map (\<lambda>h. (as_bytes (fst h), snd h)) ?hs)"
    unfolding header_lines_headers [OF ok] by (simp add: header_lines_end)
  then show ?thesis
    unfolding connect_head_lines decode_head_def take_line_append [OF line]
    by (auto simp: map_option_case split: option.splits)
qed

section \<open>The listener\<close>

text \<open>Connections in service come and go under the accept loop; the slots bound them.\<close>

definition listen_step :: "relay \<times> nat \<Rightarrow> relay \<times> nat \<Rightarrow> bool" where
  "listen_step s t \<longleftrightarrow>
     (\<exists>ev served r. accept_turn ev (fst s) = (served, r) \<and>
        (ev = ConnectionDone \<longrightarrow> 0 < snd s \<and> \<not> cancelled (fst s)) \<and>
        t = (r, if served then snd s + 1 else if ev = ConnectionDone then snd s - 1 else snd s))"

definition slots_inv :: "nat \<Rightarrow> relay \<times> nat \<Rightarrow> bool" where
  "slots_inv m s \<longleftrightarrow> slots (fst s) + snd s = m"

interpretation listener: state_machine listen_step "(r\<lparr>cancelled := False\<rparr>, 0)" "slots_inv (slots r)" for r
proof unfold_locales
  fix s t assume step: "listen_step s t" and inv: "slots_inv (slots r) s"
  obtain ev served r' where "accept_turn ev (fst s) = (served, r')"
    "ev = ConnectionDone \<longrightarrow> 0 < snd s \<and> \<not> cancelled (fst s)"
    "t = (r', if served then snd s + 1 else if ev = ConnectionDone then snd s - 1 else snd s)"
    using step unfolding listen_step_def by blast
  then show "slots_inv (slots r) t"
    using inv by (cases ev) (auto simp: slots_inv_def accept_turn_def split: if_splits)
qed (simp add: slots_inv_def)

lemma connections_bounded:
  assumes "relay_start lookup tls bound kind u options = Inr r" "listen_step\<^sup>*\<^sup>* (r, 0) (r', n)"
  shows "n \<le> max_connections options"
proof -
  have r: "r\<lparr>cancelled := False\<rparr> = r" "slots r = max_connections options"
    using assms(1) by (cases bound; auto simp: relay_start_def)+
  then show ?thesis
    using listener.invar_reachable [of r "(r', n)"] assms(2) by (simp add: slots_inv_def)
qed

lemma started_relay_dials_allowed:
  assumes "relay_start lookup tls bound kind u options = Inr r" "\<not> allow_private options"
  shows "list_all (\<lambda>a. \<not> is_blocked_ip (fst a)) (d_addrs (relay_dialer r))"
proof -
  obtain d where d: "dialer_new lookup tls u (allow_private options) (connect_timeout options) = Inr d"
    "relay_dialer r = d"
    using assms(1) by (cases bound; auto simp: relay_start_def)
  then have "resolve_allowed lookup (host u) (of_nat (port u)) False = Inr (d_addrs d)"
    using assms(2) by (auto simp: dialer_new_def) (metis dialer.select_convs(2))
  then show ?thesis using filter_allowed d(2) by (fastforce simp: list_all_iff)
qed

text \<open>A 401 of the origin behind a SOCKS proxy is reported as a failed proxy login.\<close>

lemma origin_401_blamed_on_proxy:
  assumes "scheme (d_upstream d) = Socks5" "tunnel env d h p = (Inr (stream, rest), written)"
    and "up_write env = None" "read_head (memmem env) stream rest = Some (Inr (Some m), unread)"
    and "response_status (parser env) (head_bytes m) = Some 401"
  shows "to_client (relay_forward env d h p meth absolute origin hs early) =
           as_bytes (reply 502 ''proxy login failed'')"
  using assms by (simp add: relay_forward_def forward_def failed_def ended_def)

section \<open>Properties\<close>

text \<open>
  Property C27: a tunnel is exact. When the upstream HTTP proxy accepts, it has been written one CONNECT
  request that decodes to the target the browser named (host, port and Host header alike) with the
  relay's login, followed by exactly what the browser sent early; the browser has been told that the
  connection is established, followed by exactly the bytes after the proxy's answer, of which none is
  lost and none added, however the answer arrived.
\<close>

theorem connect_tunnel:
  assumes "memmem_ok (memmem env)" "\<not> elapsed env" "up_write env = None" "scheme (d_upstream d) \<noteq> Socks5"
    and "open_inner env d = Inr (chunks cs)" "list_all (\<lambda>c. c \<noteq> []) cs" "concat cs = answer @ body"
    and "head_ok answer" "length answer \<le> max_head_bytes"
    and "response_status (parser env) answer = Some code" "200 \<le> code" "code \<le> 299"
    and "h \<noteq> []" "set h \<inter> set ''@[]'' = {}" "0 < p" "p \<le> u16_max" "13 \<notin> set (as_bytes (authority h p))"
    and "\<forall>a. basic_auth (base64 env) (d_upstream d) = Some a \<longrightarrow> 13 \<notin> set (as_bytes a)"
  shows "\<exists>req rest unread.
           relay_connect env d h p early =
             \<lparr>to_client = as_bytes established @ rest, to_upstream = req @ early, joined = Tunnelled unread\<rparr> \<and>
           rest @ incoming unread = body \<and>
           decode_head req =
             Some (as_bytes ''CONNECT '' @ as_bytes (authority h p) @ as_bytes '' HTTP/1.1'',
                   map (\<lambda>x. (as_bytes (fst x), snd x))
                     ((''Host'', as_bytes (authority h p)) # login_header (basic_auth (base64 env) (d_upstream d)))) \<and>
           split_authority (authority h p) None = Some (h, p)"
proof -
  obtain rest unread where r: "read_head (memmem env) (chunks cs) [] =
      Some (Inr (Some \<lparr>head_bytes = answer, head_rest = rest\<rparr>), unread)" "rest @ incoming unread = body"
    using read_head_chunks [of "memmem env" answer cs "[]" body] assms by auto
  have "http_connect env d (chunks cs) h p = (Some (Inr rest), as_bytes (connect_head env d h p), unread)"
    using assms r(1) by (simp add: http_connect_def Let_def)
  then have "relay_connect env d h p early =
      \<lparr>to_client = as_bytes established @ rest, to_upstream = as_bytes (connect_head env d h p) @ early,
       joined = Tunnelled unread\<rparr>"
    using assms by (cases "scheme (d_upstream d)") (simp_all add: relay_connect_def tunnel_def)
  then show ?thesis
    using r(2) connect_head_decodes [OF assms(17,18)] authority_round_trip [OF assms(13-16)] by blast
qed

definition demo_net :: net_env where
  "demo_net = \<lparr>tcp_connect = (\<lambda>_. Inr (chunks [[71, 13, 10], [13, 10, 7]])), server_name_ok = (\<lambda>_. True),
     tls_connect = (\<lambda>_ s. Inr s), elapsed = False, up_write = None, kind_text = (\<lambda>_. ''io''),
     io_text = (\<lambda>_. ''io''), base64 = (\<lambda>_. ''QQ==''), memmem = find_seq,
     parser = \<lparr>hp_request = (\<lambda>_. None), hp_response = (\<lambda>_. Some (Some 200))\<rparr>\<rparr>"

definition demo_dialer :: dialer where
  "demo_dialer = \<lparr>d_upstream = demo_upstream\<lparr>scheme := Http\<rparr>, d_addrs = [], d_tls = False, d_timeout = 20000\<rparr>"

theorem connect_tunnel_witness:
  "\<exists>req rest unread.
     relay_connect demo_net demo_dialer ''a'' 443 [9] =
       \<lparr>to_client = as_bytes established @ rest, to_upstream = req @ [9], joined = Tunnelled unread\<rparr> \<and>
     rest @ incoming unread = [7] \<and> split_authority (authority ''a'' 443) None = Some (''a'', 443)"
proof -
  have no_cr: "13 \<notin> set (as_bytes (authority ''a'' 443))"
    "\<forall>a. basic_auth (base64 demo_net) (d_upstream demo_dialer) = Some a \<longrightarrow> 13 \<notin> set (as_bytes a)"
    by code_simp (simp add: demo_net_def basic_auth_def as_bytes_def split: option.split)
  have "response_status (parser demo_net) [71, 13, 10, 13, 10] = Some 200"
    by (simp add: demo_net_def response_status_def)
  then show ?thesis
    using connect_tunnel [of demo_net demo_dialer "[[71, 13, 10], [13, 10, 7]]" "[71, 13, 10, 13, 10]" "[7]"
        200 "''a''" 443 "[9]"] no_cr demo_head_ok find_seq_ok
    by (auto simp: demo_net_def demo_dialer_def open_inner_def max_head_bytes_def u16_max_def)
qed

end
