(* ===== verification/Http.thy ===== *)
theory Http
  imports Single_Use Pool Profile_Store Resume Auth Factory Relay
begin

text \<open>
  \<^verbatim>\<open>src/server.rs\<close> (the shared state) and \<^verbatim>\<open>src/server/http.rs\<close>: the probes, the discovery document and
  the two profile endpoints. Loads and their thresholds are \<^verbatim>\<open>f64\<close> percentages that are never NaN, so
  they are an arbitrary linear order. A handler is a function of the state, the request and what the
  environment answers; it returns the response and the state. A JSON document is the record of its
  fields.
\<close>

section \<open>State\<close>

record ('s, 'q, 'p, 'n, 'h) app_state =
  app_pool :: "('s, 'q) pool"
  app_factory :: factory
  app_token :: "string option"
  cpu_load :: 'n
  memory_load :: 'n
  max_cpu_percent :: 'n
  max_memory_percent :: 'n
  external_address :: "string option"
  max_message_bytes :: nat
  app_tiers :: tiers
  capacity_source :: string
  profiles :: "'p profile_store"
  idle_timeout :: "nat option"
  calibrating :: bool
  app_single_use :: "single_use option"
  app_resume :: "'h resume_registry option"
  session_proxy :: "string + relay_options"

type_synonym query_map = "string \<Rightarrow> string option"

section \<open>Responses\<close>

record ready_body =
  rb_ready :: bool
  rb_warm :: nat
  rb_calibrating :: bool
  rb_spent :: bool
  rb_sandbox :: string

record 'n pressure_body =
  pb_running :: nat
  pb_queued :: nat
  pb_warm :: nat
  pb_parked :: nat
  pb_is_available :: bool
  pb_max_concurrent :: nat
  pb_max_queued :: nat
  pb_cpu :: 'n
  pb_memory :: 'n
  pb_reason :: string
  pb_threads :: "thread_usage option"
  pb_capacity_source :: string
  pb_isolation :: tiers
  pb_sandbox :: string
  pb_idle_timeout_ms :: nat
  pb_date :: nat

record version_body =
  vb_browser :: string
  vb_protocol_version :: string
  vb_user_agent :: string
  vb_v8_version :: string
  vb_ws_url :: string
  vb_max_concurrent :: nat
  vb_calibrating :: bool
  vb_proxy :: bool

datatype ('p, 'n) body =
    ErrorOnly string
  | ErrorDetail string string
  | ReadyBody ready_body
  | PressureBody "'n pressure_body"
  | VersionBody version_body
  | DropOffBody string nat
  | ProfileBody 'p
  | NoBody

record ('p, 'n) response =
  status :: nat
  body :: "('p, 'n) body"
  response_headers :: "(string \<times> string) list"

definition respond :: "nat \<Rightarrow> ('p, 'n) body \<Rightarrow> ('p, 'n) response" where
  "respond st b = \<lparr>status = st, body = b, response_headers = []\<rparr>"

definition unauthorized :: "('p, 'n) response" where
  "unauthorized = respond 401 (ErrorOnly ''unauthorized'')"

definition check_auth :: "ct_eq_fun \<Rightarrow> ('s, 'q, 'p, 'n, 'h) app_state \<Rightarrow> query_map \<Rightarrow> Auth.headers \<Rightarrow> bool" where
  "check_auth ct_eq st query hs = request_authorized ct_eq (app_token st) (query ''token'') hs"

section \<open>Readiness and pressure\<close>

definition instance_spent :: "('s, 'q, 'p, 'n, 'h) app_state \<Rightarrow> bool" where
  "instance_spent st = (case app_single_use st of None \<Rightarrow> False | Some s \<Rightarrow> is_spent s)"

definition ready :: "'q semaphore_api \<Rightarrow> pool_options \<Rightarrow> ('s, 'q, 'p, 'n, 'h) app_state \<Rightarrow> ('p, 'n) response" where
  "ready api opts st =
     (let ps = stats api opts (app_pool st);
          spent0 = instance_spent st;
          rdy = (\<not> calibrating st \<and> \<not> spent0 \<and> \<not> sandbox_required_but_unavailable (app_factory st) \<and>
                 st_accepting ps \<and> (0 < st_warm ps \<or> st_running ps < st_max_sessions ps))
      in respond (if rdy then 200 else 503)
           (ReadyBody \<lparr>rb_ready = rdy, rb_warm = st_warm ps, rb_calibrating = calibrating st, rb_spent = spent0,
              rb_sandbox = sandbox_state (app_factory st)\<rparr>))"

datatype gate = Open | SandboxBlocked | Spent | Draining | Calibrating

record 'n pressure_inputs =
  in_gate :: gate
  in_running :: nat
  in_max_sessions :: nat
  in_queued :: nat
  in_max_queue :: nat
  in_cpu :: 'n
  in_memory :: 'n
  in_max_cpu :: 'n
  in_max_memory :: 'n
  in_threads :: "thread_usage option"

definition threads_short :: "thread_usage option \<Rightarrow> bool" where
  "threads_short t = (case t of None \<Rightarrow> False | Some u \<Rightarrow> \<not> fits_a_session u)"

definition unavailable_reason :: "'n::linorder pressure_inputs \<Rightarrow> string" where
  "unavailable_reason i =
     (case in_gate i of
        SandboxBlocked \<Rightarrow> ''sandbox''
      | Spent \<Rightarrow> ''spent''
      | Draining \<Rightarrow> ''draining''
      | Calibrating \<Rightarrow> ''calibrating''
      | Open \<Rightarrow>
          (if threads_short (in_threads i) then ''threads''
           else if in_max_sessions i \<le> in_running i \<and> in_max_queue i \<le> in_queued i then ''full''
           else if in_max_cpu i < in_cpu i then ''cpu''
           else if in_max_memory i < in_memory i then ''memory''
           else ''''))"

definition gate_of :: "('s, 'q, 'p, 'n, 'h) app_state \<Rightarrow> bool \<Rightarrow> gate" where
  "gate_of st accepting =
     (if sandbox_required_but_unavailable (app_factory st) then SandboxBlocked
      else if instance_spent st then Spent
      else if \<not> accepting then Draining
      else if calibrating st then Calibrating
      else Open)"

definition pressure_reason ::
    "'q semaphore_api \<Rightarrow> pool_options \<Rightarrow> thread_usage option \<Rightarrow> ('s, 'q, 'p, 'n::linorder, 'h) app_state
     \<Rightarrow> string \<times> 'n \<times> 'n" where
  "pressure_reason api opts threads st =
     (let ps = stats api opts (app_pool st)
      in (unavailable_reason
            \<lparr>in_gate = gate_of st (st_accepting ps), in_running = st_running ps,
             in_max_sessions = st_max_sessions ps, in_queued = st_queued ps, in_max_queue = st_max_queue ps,
             in_cpu = cpu_load st, in_memory = memory_load st, in_max_cpu = max_cpu_percent st,
             in_max_memory = max_memory_percent st, in_threads = threads\<rparr>,
          cpu_load st, memory_load st))"

definition pressure ::
    "'q semaphore_api \<Rightarrow> pool_options \<Rightarrow> thread_usage option \<Rightarrow> nat
     \<Rightarrow> ('s, 'q, 'p, 'n::linorder, 'h) app_state \<Rightarrow> ('p, 'n) response" where
  "pressure api opts threads date st =
     (let ps = stats api opts (app_pool st); (reason, cpu, memory) = pressure_reason api opts threads st
      in respond 200
           (PressureBody \<lparr>pb_running = st_running ps, pb_queued = st_queued ps, pb_warm = st_warm ps,
              pb_parked = (case app_resume st of None \<Rightarrow> 0 | Some reg \<Rightarrow> parked_count reg),
              pb_is_available = (reason = []), pb_max_concurrent = st_max_sessions ps,
              pb_max_queued = st_max_queue ps, pb_cpu = cpu, pb_memory = memory, pb_reason = reason,
              pb_threads = threads, pb_capacity_source = capacity_source st, pb_isolation = app_tiers st,
              pb_sandbox = sandbox_state (app_factory st),
              pb_idle_timeout_ms = (case idle_timeout st of None \<Rightarrow> 0 | Some d \<Rightarrow> d), pb_date = date\<rparr>))"

section \<open>Discovery\<close>

definition ws_url :: "string option \<Rightarrow> string option \<Rightarrow> string option \<Rightarrow> string" where
  "ws_url external host_header token0 =
     (let base = (case external of
                    Some a \<Rightarrow> a
                  | None \<Rightarrow> ''ws://'' @ (case host_header of None \<Rightarrow> ''localhost:9222'' | Some h \<Rightarrow> h))
      in rev (dropWhile (\<lambda>c. c = CHR ''/'') (rev base)) @ ''/'' @
         (case token0 of None \<Rightarrow> [] | Some t \<Rightarrow> ''?token='' @ t))"

definition json_version ::
    "ct_eq_fun \<Rightarrow> 'q semaphore_api \<Rightarrow> pool_options \<Rightarrow> query_map \<Rightarrow> Auth.headers
     \<Rightarrow> ('s, 'q, 'p, 'n, 'h) app_state \<Rightarrow> ('p, 'n) response" where
  "json_version ct_eq api opts query hs st =
     (if \<not> check_auth ct_eq st query hs then unauthorized
      else
        (let v = (case cached_version (app_factory st) of
                    Some v \<Rightarrow> v
                  | None \<Rightarrow> \<lparr>product = [], protocol_version = [], user_agent = [], js_version = []\<rparr>)
         in respond 200
              (VersionBody \<lparr>vb_browser = product v, vb_protocol_version = protocol_version v,
                 vb_user_agent = user_agent v, vb_v8_version = js_version v,
                 vb_ws_url = ws_url (external_address st) (Option.bind (hs ''host'') to_str) (app_token st),
                 vb_max_concurrent = st_max_sessions (stats api opts (app_pool st)),
                 vb_calibrating = calibrating st, vb_proxy = (\<not> isl (session_proxy st))\<rparr>)))"

section \<open>Profiles\<close>

text \<open>\<open>pl\<close> is \<open>None\<close> when the body was not a profile.\<close>

definition profile_drop_off ::
    "ct_eq_fun \<Rightarrow> (bytes \<Rightarrow> string) \<Rightarrow> nat \<Rightarrow> bytes option \<Rightarrow> query_map \<Rightarrow> Auth.headers \<Rightarrow> 'p option
     \<Rightarrow> ('s, 'q, 'p, 'n, 'h) app_state \<Rightarrow> ('p, 'n) response \<times> ('s, 'q, 'p, 'n, 'h) app_state" where
  "profile_drop_off ct_eq encode now filled query hs pl st =
     (if \<not> check_auth ct_eq st query hs then (unauthorized, st)
      else case pl of
             None \<Rightarrow> (respond 400 (ErrorOnly ''invalid profile body''), st)
           | Some p \<Rightarrow>
               (case drop_off encode now filled p (profiles st) of
                  (Some token0, ps) \<Rightarrow> (respond 200 (DropOffBody token0 (profile_ttl div 1000)), st\<lparr>profiles := ps\<rparr>)
                | (None, ps) \<Rightarrow> (respond 429 (ErrorOnly ''profile store at capacity''), st\<lparr>profiles := ps\<rparr>)))"

definition profile_pick_up ::
    "ct_eq_fun \<Rightarrow> nat \<Rightarrow> string \<Rightarrow> query_map \<Rightarrow> Auth.headers
     \<Rightarrow> ('s, 'q, 'p, 'n, 'h) app_state \<Rightarrow> ('p, 'n) response \<times> ('s, 'q, 'p, 'n, 'h) app_state" where
  "profile_pick_up ct_eq now token0 query hs st =
     (if \<not> check_auth ct_eq st query hs then (unauthorized, st)
      else case pick_up now token0 (profiles st) of
             (Some p, ps) \<Rightarrow> (respond 200 (ProfileBody p), st\<lparr>profiles := ps\<rparr>)
           | (None, ps) \<Rightarrow> (respond 404 (ErrorOnly ''no captured profile for token''), st\<lparr>profiles := ps\<rparr>))"

section \<open>What the endpoints tell and change\<close>

lemma ready_means_open:
  assumes "status (ready api opts st) = 200"
  shows "gate_of st (st_accepting (stats api opts (app_pool st))) = Open"
  using assms by (auto simp: ready_def respond_def gate_of_def Let_def split: if_splits)

text \<open>An open gate and a place make the instance ready: a queue with room does not.\<close>

lemma open_and_placed_means_ready:
  assumes "gate_of st (st_accepting (stats api opts (app_pool st))) = Open"
    and "st_running (stats api opts (app_pool st)) < st_max_sessions (stats api opts (app_pool st))"
  shows "status (ready api opts st) = 200"
  using assms by (auto simp: ready_def respond_def gate_of_def Let_def split: if_splits)

lemma no_reason_iff:
  "unavailable_reason i = [] \<longleftrightarrow>
     in_gate i = Open \<and> \<not> threads_short (in_threads i) \<and>
     (in_running i < in_max_sessions i \<or> in_queued i < in_max_queue i) \<and>
     in_cpu i \<le> in_max_cpu i \<and> in_memory i \<le> in_max_memory i"
  by (auto simp: unavailable_reason_def split: gate.splits)

lemma drop_off_answers:
  "profile_drop_off ct_eq encode now filled query hs pl st =
     (if \<not> check_auth ct_eq st query hs then (unauthorized, st)
      else case pl of
             None \<Rightarrow> (respond 400 (ErrorOnly ''invalid profile body''), st)
           | Some p \<Rightarrow>
               (let (out, ps) = drop_off encode now filled p (profiles st)
                in (case out of
                      Some token0 \<Rightarrow> respond 200 (DropOffBody token0 (profile_ttl div 1000))
                    | None \<Rightarrow> respond 429 (ErrorOnly ''profile store at capacity''), st\<lparr>profiles := ps\<rparr>)))"
proof (cases pl)
  case (Some p)
  obtain t ps where "drop_off encode now filled p (profiles st) = (t, ps)"
    by (cases "drop_off encode now filled p (profiles st)")
  then show ?thesis
    using Some by (cases t) (simp_all add: profile_drop_off_def)
qed (simp add: profile_drop_off_def)

lemma pick_up_answers:
  "profile_pick_up ct_eq now token0 query hs st =
     (if \<not> check_auth ct_eq st query hs then (unauthorized, st)
      else
        (let (out, ps) = pick_up now token0 (profiles st)
         in (case out of
               Some p \<Rightarrow> respond 200 (ProfileBody p)
             | None \<Rightarrow> respond 404 (ErrorOnly ''no captured profile for token''), st\<lparr>profiles := ps\<rparr>)))"
proof -
  obtain t ps where "pick_up now token0 (profiles st) = (t, ps)"
    by (cases "pick_up now token0 (profiles st)")
  then show ?thesis
    by (cases t) (simp_all add: profile_pick_up_def)
qed

text \<open>A drop-off that is refused for its token or its body changes nothing.\<close>

lemma refused_drop_off_changes_nothing:
  assumes "\<not> check_auth ct_eq st query hs \<or> pl = None"
  shows "snd (profile_drop_off ct_eq encode now filled query hs pl st) = st"
    and "status (fst (profile_drop_off ct_eq encode now filled query hs pl st)) \<in> {400, 401}"
  using assms by (auto simp: drop_off_answers unauthorized_def respond_def)

lemma refused_pick_up_changes_nothing:
  assumes "\<not> check_auth ct_eq st query hs"
  shows "profile_pick_up ct_eq now token0 query hs st = (respond 401 (ErrorOnly ''unauthorized''), st)"
  using assms by (simp add: pick_up_answers unauthorized_def)

text \<open>The profile endpoints touch the profile store and nothing else of the shared state.\<close>

lemma keeps_its_profiles: "\<exists>ps. st = st\<lparr>profiles := ps\<rparr>"
  by (rule exI [of _ "profiles st"]) simp

lemma drop_off_touches_profiles_only:
  "\<exists>ps. snd (profile_drop_off ct_eq encode now filled query hs pl st) = st\<lparr>profiles := ps\<rparr>"
  by (cases pl) (use keeps_its_profiles [of st] in \<open>auto simp only: drop_off_answers Let_def split_beta if_splits
    option.case fst_conv snd_conv split: if_split\<close>)

lemma pick_up_touches_profiles_only:
  "\<exists>ps. snd (profile_pick_up ct_eq now token0 query hs st) = st\<lparr>profiles := ps\<rparr>"
  using keeps_its_profiles [of st]
  by (cases "check_auth ct_eq st query hs")
    (auto simp only: pick_up_answers Let_def split_beta if_True if_False not_True_eq_False not_False_eq_True
      fst_conv snd_conv)

end
