(* ===== verification/Cookie.thy ===== *)
theory Cookie
  imports Rust_Str
begin

text \<open>
  \<^verbatim>\<open>src/profile/cookie.rs\<close> and \<^verbatim>\<open>src/profile/payload.rs\<close>: the cookies of a profile, the filter that runs
  before they are given to a browser, and the payload that carries them. Times are \<^verbatim>\<open>f64\<close> seconds read
  from JSON, which has no NaN, so they are an arbitrary linear order with a zero.
\<close>

section \<open>Data\<close>

record partition_key =
  top_level_site :: string
  has_cross_site_ancestor :: bool

datatype same_site = Strict | Lax | SameSiteNone

record 't cookie =
  name :: string
  cookie_value :: string
  domain :: string
  path :: string
  expires :: 't
  secure :: bool
  http_only :: bool
  same_site :: "same_site option"
  priority :: "string option"
  source_scheme :: "string option"
  source_port :: "int option"
  partition_key :: "partition_key option"
  partition_key_opaque :: bool

record 't cookie_param =
  p_name :: string
  p_value :: string
  p_domain :: string
  p_path :: string
  p_expires :: "'t option"
  p_secure :: bool
  p_http_only :: bool
  p_same_site :: "same_site option"
  p_priority :: "string option"
  p_source_scheme :: "string option"
  p_source_port :: "int option"
  p_partition_key :: "partition_key option"

datatype drop_reason =
    SameSiteNoneInsecure
  | Expired
  | OpaquePartition
  | InvalidPrefix
  | Oversized

record drop_counts =
  same_site_none_insecure :: u32
  expired :: u32
  opaque_partition :: u32
  invalid_prefix :: u32
  oversized :: u32

definition no_drops :: drop_counts where
  "no_drops = \<lparr>same_site_none_insecure = 0, expired = 0, opaque_partition = 0, invalid_prefix = 0, oversized = 0\<rparr>"

definition total_drops :: "drop_counts \<Rightarrow> u32" where
  "total_drops c = same_site_none_insecure c + expired c + opaque_partition c + invalid_prefix c + oversized c"

definition max_cookie_bytes :: nat where
  "max_cookie_bytes = 4096"

section \<open>The filter\<close>

definition prefix_ok :: "'t cookie \<Rightarrow> bool" where
  "prefix_ok c =
     (case strip_prefix (name c) ''__Host-'' of
        Some rest \<Rightarrow> rest \<noteq> [] \<and> secure c \<and> path c = ''/'' \<and> \<not> starts_with (domain c) ''.''
      | None \<Rightarrow>
          (case strip_prefix (name c) ''__Secure-'' of
             Some rest \<Rightarrow> rest \<noteq> [] \<and> secure c
           | None \<Rightarrow> True))"

definition to_param :: "'t::{linorder,zero} \<Rightarrow> 't cookie \<Rightarrow> drop_reason + 't cookie_param" where
  "to_param now c =
     (let is_session = expires c < 0
      in if partition_key_opaque c then Inl OpaquePartition
         else if same_site c = Some SameSiteNone \<and> \<not> secure c then Inl SameSiteNoneInsecure
         else if \<not> is_session \<and> expires c < now then Inl Expired
         else if \<not> prefix_ok c then Inl InvalidPrefix
         else if max_cookie_bytes < length (name c) + length (cookie_value c) then Inl Oversized
         else Inr \<lparr>p_name = name c, p_value = cookie_value c, p_domain = domain c, p_path = path c,
                   p_expires = (if is_session then None else Some (expires c)), p_secure = secure c,
                   p_http_only = http_only c, p_same_site = same_site c, p_priority = priority c,
                   p_source_scheme = source_scheme c, p_source_port = source_port c,
                   p_partition_key = partition_key c\<rparr>)"

definition count_drop :: "drop_reason \<Rightarrow> drop_counts \<Rightarrow> drop_counts" where
  "count_drop reason c =
     (case reason of
        SameSiteNoneInsecure \<Rightarrow> c\<lparr>same_site_none_insecure := same_site_none_insecure c + 1\<rparr>
      | Expired \<Rightarrow> c\<lparr>expired := expired c + 1\<rparr>
      | OpaquePartition \<Rightarrow> c\<lparr>opaque_partition := opaque_partition c + 1\<rparr>
      | InvalidPrefix \<Rightarrow> c\<lparr>invalid_prefix := invalid_prefix c + 1\<rparr>
      | Oversized \<Rightarrow> c\<lparr>oversized := oversized c + 1\<rparr>)"

fun sanitize_from ::
    "'t::{linorder,zero} \<Rightarrow> 't cookie list \<Rightarrow> 't cookie_param list \<times> drop_counts \<Rightarrow> 't cookie_param list \<times> drop_counts" where
  "sanitize_from now [] acc = acc"
| "sanitize_from now (c # cs) (params, dropped) =
     (case to_param now c of
        Inr p \<Rightarrow> sanitize_from now cs (params @ [p], dropped)
      | Inl reason \<Rightarrow> sanitize_from now cs (params, count_drop reason dropped))"

definition sanitize :: "'t::{linorder,zero} cookie list \<Rightarrow> 't \<Rightarrow> 't cookie_param list \<times> drop_counts" where
  "sanitize cookies now = sanitize_from now cookies ([], no_drops)"

section \<open>The payload\<close>

record ('t, 'o, 'i) profile_payload =
  cookies :: "'t cookie list"
  local_storage :: "'o list"
  indexeddb :: "'i list"

definition empty_payload :: "('t, 'o, 'i) profile_payload" where
  "empty_payload = \<lparr>cookies = [], local_storage = [], indexeddb = []\<rparr>"

definition payload_is_empty :: "('t, 'o, 'i) profile_payload \<Rightarrow> bool" where
  "payload_is_empty p \<longleftrightarrow> cookies p = [] \<and> local_storage p = [] \<and> indexeddb p = []"

text \<open>The origin of each storage entry is read by \<open>origin_of\<close>.\<close>

definition add_origin :: "'t cookie \<Rightarrow> string list \<Rightarrow> string list" where
  "add_origin c origins =
     (let host = dropWhile (\<lambda>ch. ch = CHR ''.'') (domain c); origin = ''https://'' @ host
      in if host = [] then origins
         else if origin \<in> set origins then origins else origins @ [origin])"

definition candidate_origins :: "('o \<Rightarrow> string) \<Rightarrow> ('t, 'o, 'i) profile_payload \<Rightarrow> string list" where
  "candidate_origins origin_of p = fold add_origin (cookies p) (map origin_of (local_storage p))"

section \<open>What the filter keeps\<close>

text \<open>
  The rules of a browser's cookie store: a cookie that is not sent only to its own site must be
  secure, the two name prefixes promise what they say, an expired cookie does not exist, a cookie
  fits the size limit; and an opaque partition cannot be written down.
\<close>

definition acceptable :: "'t::{linorder,zero} \<Rightarrow> 't cookie \<Rightarrow> bool" where
  "acceptable now c \<longleftrightarrow>
     \<not> partition_key_opaque c \<and> (same_site c = Some SameSiteNone \<longrightarrow> secure c) \<and>
     (expires c < 0 \<or> now \<le> expires c) \<and>
     (starts_with (name c) ''__Host-'' \<longrightarrow>
        name c \<noteq> ''__Host-'' \<and> secure c \<and> path c = ''/'' \<and> \<not> starts_with (domain c) ''.'') \<and>
     (starts_with (name c) ''__Secure-'' \<longrightarrow> name c \<noteq> ''__Secure-'' \<and> secure c) \<and>
     length (name c) + length (cookie_value c) \<le> 4096"

text \<open>The cookie a browser holds after it is given the parameter; a session cookie has expiry \<open>e\<close>.\<close>

definition set_cookie :: "'t \<Rightarrow> 't cookie_param \<Rightarrow> 't cookie" where
  "set_cookie e p =
     \<lparr>name = p_name p, cookie_value = p_value p, domain = p_domain p, path = p_path p,
      expires = (case p_expires p of None \<Rightarrow> e | Some t \<Rightarrow> t), secure = p_secure p,
      http_only = p_http_only p, same_site = p_same_site p, priority = p_priority p,
      source_scheme = p_source_scheme p, source_port = p_source_port p,
      partition_key = p_partition_key p, partition_key_opaque = False\<rparr>"

lemma host_not_secure: "starts_with s ''__Host-'' \<Longrightarrow> \<not> starts_with s ''__Secure-''"
  by (auto simp: starts_with_iff)

lemma prefix_ok_iff:
  "prefix_ok c \<longleftrightarrow>
     (starts_with (name c) ''__Host-'' \<longrightarrow>
        name c \<noteq> ''__Host-'' \<and> secure c \<and> path c = ''/'' \<and> \<not> starts_with (domain c) ''.'') \<and>
     (starts_with (name c) ''__Secure-'' \<longrightarrow> name c \<noteq> ''__Secure-'' \<and> secure c)"
  using host_not_secure [of "name c"]
  by (auto simp: prefix_ok_def starts_with_iff split: option.splits)

lemma to_param_kept: "(\<exists>p. to_param now c = Inr p) \<longleftrightarrow> acceptable now c"
  by (auto simp: to_param_def Let_def acceptable_def prefix_ok_iff max_cookie_bytes_def not_less)

lemma to_param_verbatim:
  "to_param now c = Inr p \<Longrightarrow> expires c < 0 \<longrightarrow> e = expires c \<Longrightarrow> set_cookie e p = c"
  by (auto simp: to_param_def Let_def set_cookie_def split: if_splits)

definition param :: "'t::{linorder,zero} \<Rightarrow> 't cookie \<Rightarrow> 't cookie_param" where
  "param now c = projr (to_param now c)"

lemma total_count_drop: "total_drops (count_drop r d) = total_drops d + 1"
  by (cases r) (simp_all add: count_drop_def total_drops_def)

lemma sanitize_from_eq:
  "sanitize_from now cs (params, d) =
     (params @ map (param now) (filter (acceptable now) cs), snd (sanitize_from now cs (params, d))) \<and>
   total_drops (snd (sanitize_from now cs (params, d))) =
     total_drops d + of_nat (length (filter (\<lambda>c. \<not> acceptable now c) cs))"
proof (induction cs arbitrary: params d)
  case (Cons c cs)
  show ?case
  proof (cases "to_param now c")
    case (Inl r)
    then have "\<not> acceptable now c" by (metis Inl_Inr_False to_param_kept)
    then show ?thesis
      using Cons.IH [of params "count_drop r d"] Inl by (simp add: total_count_drop)
  next
    case (Inr p)
    then have "acceptable now c" using to_param_kept by blast
    then show ?thesis
      using Cons.IH [of "params @ [p]" d] Inr by (simp add: param_def)
  qed
qed simp

section \<open>Properties\<close>

text \<open>
  Cookies survive with every security attribute or not at all. The filter keeps exactly
  the cookies a browser would accept, in their order; the browser that is given a kept cookie holds
  the captured cookie again, attribute for attribute (a session cookie has no expiry to give); and
  every other cookie is counted once.
\<close>

theorem cookies_kept_verbatim:
  fixes now :: "'t::{linorder,zero}"
  assumes "length cs < 2 ^ 32" "\<forall>c\<in>set cs. expires c < 0 \<longrightarrow> expires c = session"
  shows "map (set_cookie session) (fst (sanitize cs now)) = filter (acceptable now) cs \<and>
         unat (total_drops (snd (sanitize cs now))) + length (fst (sanitize cs now)) = length cs"
proof -
  have s: "fst (sanitize cs now) = map (param now) (filter (acceptable now) cs)"
    "total_drops (snd (sanitize cs now)) = of_nat (length (filter (\<lambda>c. \<not> acceptable now c) cs))"
    using sanitize_from_eq [of now cs "[]" no_drops]
    by (metis append_Nil fst_conv sanitize_def, simp add: sanitize_def total_drops_def no_drops_def)
  have held: "set_cookie session (param now c) = c" if "c \<in> set (filter (acceptable now) cs)" for c
  proof -
    have "acceptable now c" "c \<in> set cs" using that by auto
    then obtain p where p: "to_param now c = Inr p" using to_param_kept by blast
    then show ?thesis
      using to_param_verbatim [OF p, of session] assms(2) \<open>c \<in> set cs\<close> by (auto simp: param_def)
  qed
  then have "map (set_cookie session \<circ> param now) (filter (acceptable now) cs) = filter (acceptable now) cs"
    by (intro map_idI) simp
  moreover have "length (filter (\<lambda>c. \<not> acceptable now c) cs) < 2 ^ 32"
    using assms(1) by (meson le_less_trans length_filter_le)
  ultimately show ?thesis
    using sum_length_filter_compl [of "acceptable now" cs]
    unfolding s by (simp add: unat_of_nat take_bit_eq_mod)
qed

definition demo_cookie :: "int cookie" where
  "demo_cookie = \<lparr>name = ''__Host-sid'', cookie_value = ''v'', domain = ''a.example'', path = ''/'', expires = -1,
     secure = True, http_only = True, same_site = Some SameSiteNone, priority = None, source_scheme = None,
     source_port = None, partition_key = None, partition_key_opaque = False\<rparr>"

theorem cookies_kept_verbatim_witness:
  "map (set_cookie (-1)) (fst (sanitize [demo_cookie, demo_cookie\<lparr>secure := False\<rparr>] 5)) = [demo_cookie] \<and>
   unat (total_drops (snd (sanitize [demo_cookie, demo_cookie\<lparr>secure := False\<rparr>] (5 :: int)))) +
     length (fst (sanitize [demo_cookie, demo_cookie\<lparr>secure := False\<rparr>] (5 :: int))) = 2"
proof -
  have "filter (acceptable 5) [demo_cookie, demo_cookie\<lparr>secure := False\<rparr>] = [demo_cookie]"
    by (simp add: acceptable_def demo_cookie_def starts_with_def)
  moreover have "\<forall>c\<in>set [demo_cookie, demo_cookie\<lparr>secure := False\<rparr>]. expires c < 0 \<longrightarrow> expires c = -1"
    by (simp add: demo_cookie_def)
  moreover have "length [demo_cookie, demo_cookie\<lparr>secure := False\<rparr>] = 2" by simp
  ultimately show ?thesis
    using cookies_kept_verbatim [of "[demo_cookie, demo_cookie\<lparr>secure := False\<rparr>]" "-1" 5] by simp
qed

lemma add_origin_set: "set origins \<subseteq> set (add_origin c origins)"
  by (auto simp: add_origin_def Let_def)

lemma candidate_origins_cover:
  assumes "c \<in> set (cookies p)" "dropWhile (\<lambda>ch. ch = CHR ''.'') (domain c) \<noteq> []"
  shows "''https://'' @ dropWhile (\<lambda>ch. ch = CHR ''.'') (domain c) \<in> set (candidate_origins origin_of p)"
proof -
  have keep: "set os \<subseteq> set (fold add_origin cs os)" for cs :: "'a cookie list" and os
    by (induction cs arbitrary: os) (use add_origin_set in \<open>fastforce simp: o_def\<close>)+
  obtain as bs where "cookies p = as @ c # bs" using assms(1) by (meson split_list)
  moreover have "''https://'' @ dropWhile (\<lambda>ch. ch = CHR ''.'') (domain c) \<in> set (add_origin c os)" for os
    using assms(2) by (auto simp: add_origin_def Let_def)
  ultimately show ?thesis
    unfolding candidate_origins_def using keep by (fastforce simp: o_def)
qed

end
