(* ===== verification/Ws.thy ===== *)
theory Ws
  imports Http Cookie
begin

text \<open>
  \<^verbatim>\<open>src/server/ws.rs\<close>: the session endpoint. A request is authorised, admitted, given a browser and
  upgraded; what happens after the upgrade is a task, the value the handler leaves behind. The
  browser launches, the relay start and the random source are the environment's answers. The handler
  gives up where the client goes away while it waits in the queue, and then returns no response.
\<close>

section \<open>Refusals\<close>

definition reject :: "nat \<Rightarrow> string \<Rightarrow> string \<Rightarrow> ('p, 'n) response" where
  "reject st why detail = respond st (ErrorDetail why detail)"

fun claim_error_text :: "claim_error \<Rightarrow> string" where
  "claim_error_text (QueueFull n) = ''session queue is full ('' @ show_nat n @ '' waiting)''"
| "claim_error_text (QueueTimeout ms) = ''timed out waiting '' @ show_nat ms @ '' ms for a session slot''"
| "claim_error_text Closed = ''pool is closed''"
| "claim_error_text (Pool.Launch m) = ''session launch failed: '' @ m"

definition claim_status :: "claim_error \<Rightarrow> nat \<times> string" where
  "claim_status e =
     (503, case e of
             QueueFull n \<Rightarrow> ''queue_full''
           | QueueTimeout ms \<Rightarrow> ''queue_timeout''
           | Closed \<Rightarrow> ''draining''
           | Pool.Launch m \<Rightarrow> ''launch_failed'')"

definition proxy_start_refused :: "proxy_error \<Rightarrow> ('p, 'n) response" where
  "proxy_start_refused e =
     (case e of
        AddressNotAllowed m \<Rightarrow> reject 400 ''proxy_not_allowed'' (error_text e)
      | _ \<Rightarrow> reject 502 ''proxy_unavailable'' (error_text e))"

fun parse_error_text :: "upstream_parse_error \<Rightarrow> string" where
  "parse_error_text SchemeError = ''proxy address must start with http://, https://, socks5:// or socks5h://''"
| "parse_error_text HostPort = ''proxy address has no valid host and port''"
| "parse_error_text PathError = ''proxy address must not contain a path''"
| "parse_error_text (Login m) = ''proxy login is not valid: '' @ m"

section \<open>The environment\<close>

record ('s, 'p, 'n) ws_env =
  env_threads :: "thread_usage option"
  env_relay :: "proxy_upstream \<Rightarrow> relay_options \<Rightarrow> proxy_error + relay"
  env_wake :: wake
  env_alive :: "'s \<Rightarrow> bool"
  env_launch :: "relay option \<Rightarrow> string + 's"
  env_seeded :: "'p \<Rightarrow> relay option \<Rightarrow> string + 's"
  env_transport :: "'s \<Rightarrow> bool"
  env_now :: nat
  env_random :: "string + bytes"
  env_show :: "'n \<Rightarrow> string"
  env_header_ok :: "string \<Rightarrow> bool"

text \<open>
  What the handler leaves behind: a session to run (the last component is the single-use guard it
  holds), a hand-off to a parked session, a stale browser to discard, a claimed one to give back.
\<close>

datatype ('s, 'p) task =
    PoolTask 's "string option" bool
  | ProfileTask 's 'p string bool "string option" bool
  | HandoffTask string
  | DiscardTask 's
  | ReturnTask 's

definition runs_session :: "('s, 'p) task \<Rightarrow> bool" where
  "runs_session t = (case t of PoolTask _ _ _ \<Rightarrow> True | ProfileTask _ _ _ _ _ _ \<Rightarrow> True | _ \<Rightarrow> False)"

type_synonym ('s, 'q, 'p, 'n, 'h) ws_result =
  "('p, 'n) response option \<times> ('s, 'p) task list \<times> ('s, 'q, 'p, 'n, 'h) app_state"

section \<open>Steps of the handler\<close>

definition proxy_header :: string where "proxy_header = ''browserserve-proxy''"
definition proxy_applied_header :: string where "proxy_applied_header = ''browserserve-proxy-applied''"
definition resume_token_header :: string where "resume_token_header = ''browserserve-resume-token''"

text \<open>\<open>None\<close> refuses; \<open>Some True\<close> means that the guard is held.\<close>

definition take_single_use ::
    "('s, 'q, 'p, 'n, 'h) app_state \<Rightarrow> bool option \<times> ('s, 'q, 'p, 'n, 'h) app_state" where
  "take_single_use st =
     (case app_single_use st of
        None \<Rightarrow> (Some False, st)
      | Some su \<Rightarrow>
          (let (got, su1) = try_spend su
           in (if got then Some True else None, st\<lparr>app_single_use := Some su1\<rparr>)))"

definition release_guard :: "bool \<Rightarrow> ('s, 'q, 'p, 'n, 'h) app_state \<Rightarrow> ('s, 'q, 'p, 'n, 'h) app_state" where
  "release_guard held st =
     (if held then st\<lparr>app_single_use := map_option drop_guard (app_single_use st)\<rparr> else st)"

definition requested_proxy ::
    "('s, 'q, 'p, 'n, 'h) app_state \<Rightarrow> Auth.headers
     \<Rightarrow> ('p, 'n) response + (proxy_upstream \<times> relay_options) option" where
  "requested_proxy st hs =
     (case hs proxy_header of
        None \<Rightarrow> Inr None
      | Some v \<Rightarrow>
          (case session_proxy st of
             Inl why \<Rightarrow> Inl (reject 400 ''proxy_unsupported'' why)
           | Inr options \<Rightarrow>
               (case to_str v of
                  None \<Rightarrow> Inl (reject 400 ''invalid_proxy'' ''proxy header is not text'')
                | Some raw \<Rightarrow>
                    (case parse raw of
                       Inl e \<Rightarrow> Inl (reject 400 ''invalid_proxy'' (parse_error_text e))
                     | Inr u \<Rightarrow> Inr (Some (u, options))))))"

definition set_header :: "string \<Rightarrow> string \<Rightarrow> ('p, 'n) response \<Rightarrow> ('p, 'n) response" where
  "set_header k v r = r\<lparr>response_headers := AList.update k v (response_headers r)\<rparr>"

definition with_proxy_applied :: "bool \<Rightarrow> ('p, 'n) response \<Rightarrow> ('p, 'n) response" where
  "with_proxy_applied proxied r =
     (if proxied \<and> status r = 101 then set_header proxy_applied_header ''1'' r else r)"

definition with_resume_header ::
    "(string \<Rightarrow> bool) \<Rightarrow> string option \<Rightarrow> ('p, 'n) response \<Rightarrow> ('p, 'n) response" where
  "with_resume_header hdr_ok token0 r =
     (case token0 of
        None \<Rightarrow> r
      | Some t \<Rightarrow> if hdr_ok t then set_header resume_token_header t r else r)"

definition upgraded :: "('p, 'n) response" where
  "upgraded = respond 101 NoBody"

text \<open>The resume token of a new session, when the resume window is on and random bytes are there.\<close>

definition resumable_session ::
    "('s, 'p, 'n) ws_env \<Rightarrow> ('s, 'q, 'p, 'n, 'h) app_state \<Rightarrow> string option" where
  "resumable_session env st =
     (case app_resume st of
        None \<Rightarrow> None
      | Some reg \<Rightarrow> (case new_token (env_random env) of Inr t \<Rightarrow> Some t | Inl e \<Rightarrow> None))"

definition resume_session ::
    "('s, 'p, 'n) ws_env \<Rightarrow> string \<Rightarrow> ('s, 'q, 'p, 'n, 'h) app_state \<Rightarrow> ('s, 'q, 'p, 'n, 'h) ws_result" where
  "resume_session env token0 st =
     (case app_resume st of
        None \<Rightarrow> (Some (reject 404 ''unknown_resume_token''
                  ''no parked session for this token (unknown, expired, or already resumed)''), [], st)
      | Some reg \<Rightarrow>
          (case registry_claim token0 reg of
             (None, reg1) \<Rightarrow>
               (Some (reject 404 ''unknown_resume_token''
                  ''no parked session for this token (unknown, expired, or already resumed)''), [],
                st\<lparr>app_resume := Some reg1\<rparr>)
           | (Some handoff, reg1) \<Rightarrow>
               (Some (with_resume_header (env_header_ok env) (Some token0) upgraded),
                [HandoffTask token0], st\<lparr>app_resume := Some reg1\<rparr>)))"

definition truthy :: "string option \<Rightarrow> bool" where
  "truthy v = (v \<in> {Some ''1'', Some ''true'', Some ''yes''})"

definition serve_profile_session ::
    "('s, 'p, 'n) ws_env \<Rightarrow> query_map \<Rightarrow> string \<Rightarrow> relay option \<Rightarrow> bool
     \<Rightarrow> ('s, 'q, 'p, 'n, 'h) app_state \<Rightarrow> ('s, 'q, 'p, 'n, 'h) ws_result" where
  "serve_profile_session env query token0 relay0 held st =
     (case Profile_Store.claim (env_now env) token0 (profiles st) of
        (None, ps) \<Rightarrow>
          (Some (reject 404 ''unknown_profile_token'' ''no pending profile for this token''), [],
           release_guard held (st\<lparr>profiles := ps\<rparr>))
      | (Some pl, ps) \<Rightarrow>
          (case env_seeded env pl relay0 of
             Inl e \<Rightarrow>
               (Some (reject 503 ''launch_failed'' e), [], release_guard held (st\<lparr>profiles := ps\<rparr>))
           | Inr s \<Rightarrow>
               (let token1 = resumable_session env st
                in (Some (with_proxy_applied (relay0 \<noteq> None)
                      (with_resume_header (env_header_ok env) token1 upgraded)),
                    [ProfileTask s pl token0 (truthy (query ''readOnly'')) token1 held],
                    st\<lparr>profiles := ps\<rparr>))))"

text \<open>A claim without a relay takes a warm browser; with one it always launches.\<close>

definition claim_browser ::
    "'q semaphore_api \<Rightarrow> pool_options \<Rightarrow> ('s, 'p, 'n) ws_env \<Rightarrow> relay option \<Rightarrow> ('s, 'q) pool
     \<Rightarrow> (claim_error + 's) option \<times> 's list \<times> ('s, 'q) pool" where
  "claim_browser api opts env relay0 p =
     (case relay0 of
        Some r \<Rightarrow>
          (let (res, p1) = claim_with api opts (env_wake env) (env_launch env relay0) p in (res, [], p1))
      | None \<Rightarrow> Pool.claim api opts (env_wake env) (env_alive env) (env_launch env None) p)"

definition serve_claimed ::
    "'q semaphore_api \<Rightarrow> pool_options \<Rightarrow> ('s, 'p, 'n) ws_env \<Rightarrow> relay option \<Rightarrow> bool
     \<Rightarrow> ('s, 'q, 'p, 'n, 'h) app_state \<Rightarrow> ('s, 'q, 'p, 'n, 'h) ws_result" where
  "serve_claimed api opts env relay0 held st =
     (case claim_browser api opts env relay0 (app_pool st) of
        (None, stale, p) \<Rightarrow> (None, map DiscardTask stale, release_guard held (st\<lparr>app_pool := p\<rparr>))
      | (Some (Inl e), stale, p) \<Rightarrow>
          (let (code0, why) = claim_status e
           in (Some (reject code0 why (claim_error_text e)), map DiscardTask stale,
               release_guard held (st\<lparr>app_pool := p\<rparr>)))
      | (Some (Inr s), stale, p) \<Rightarrow>
          (if \<not> env_transport env s
           then (Some (reject 500 ''internal'' ''claimed browser had no transport''),
                 map DiscardTask stale @ [ReturnTask s],
                 release_guard held (st\<lparr>app_pool := p\<rparr>))
           else
             (let token1 = resumable_session env st
              in (Some (with_proxy_applied (relay0 \<noteq> None)
                    (with_resume_header (env_header_ok env) token1 upgraded)),
                  map DiscardTask stale @ [PoolTask s token1 held], st\<lparr>app_pool := p\<rparr>))))"

text \<open>The relay of a request: none asked for, or the started one.\<close>

definition start_session_relay ::
    "('s, 'p, 'n) ws_env \<Rightarrow> (proxy_upstream \<times> relay_options) option \<Rightarrow> proxy_error + relay option" where
  "start_session_relay env proxy =
     (case proxy of
        None \<Rightarrow> Inr None
      | Some (u, options) \<Rightarrow>
          (case env_relay env u options of Inl e \<Rightarrow> Inl e | Inr r \<Rightarrow> Inr (Some r)))"

text \<open>From the spent single use on.\<close>

definition serve_admitted ::
    "'q semaphore_api \<Rightarrow> pool_options \<Rightarrow> ('s, 'p, 'n) ws_env \<Rightarrow> query_map
     \<Rightarrow> (proxy_upstream \<times> relay_options) option \<Rightarrow> ('s, 'q, 'p, 'n, 'h) app_state \<Rightarrow> ('s, 'q, 'p, 'n, 'h) ws_result" where
  "serve_admitted api opts env query proxy st =
     (case take_single_use st of
        (None, st1) \<Rightarrow>
          (Some (reject 503 ''single_use_spent''
             ''this instance serves one session only; connect again for a fresh one''), [], st1)
      | (Some held, st1) \<Rightarrow>
          (case start_session_relay env proxy of
             Inl e \<Rightarrow> (Some (proxy_start_refused e), [], release_guard held st1)
           | Inr relay0 \<Rightarrow>
               (case query ''profileToken'' of
                  Some token0 \<Rightarrow> serve_profile_session env query token0 relay0 held st1
                | None \<Rightarrow> serve_claimed api opts env relay0 held st1)))"

definition ws_handler ::
    "ct_eq_fun \<Rightarrow> 'q semaphore_api \<Rightarrow> pool_options \<Rightarrow> ('s, 'p, 'n::linorder) ws_env \<Rightarrow> query_map \<Rightarrow> Auth.headers
     \<Rightarrow> ('s, 'q, 'p, 'n, 'h) app_state \<Rightarrow> ('s, 'q, 'p, 'n, 'h) ws_result" where
  "ws_handler ct_eq api opts env query hs st =
     (if \<not> check_auth ct_eq st query hs then (Some unauthorized, [], st)
      else case query ''resume'' of
        Some token0 \<Rightarrow> resume_session env token0 st
      | None \<Rightarrow>
         (case requested_proxy st hs of
            Inl refused \<Rightarrow> (Some refused, [], st)
          | Inr proxy \<Rightarrow>
              (if max_cpu_percent st < cpu_load st
               then (Some (reject 503 ''pressure'' (''cpu at '' @ env_show env (cpu_load st) @ ''%'')), [], st)
               else if max_memory_percent st < memory_load st
               then (Some (reject 503 ''pressure'' (''memory at '' @ env_show env (memory_load st) @ ''%'')), [], st)
               else if threads_short (env_threads env)
               then (Some (reject 503 ''thread_limit''
                      (''container thread limit nearly reached ('' @
                       (case env_threads env of None \<Rightarrow> [] | Some t \<Rightarrow>
                          show_nat (unat (current t)) @ '' of '' @ show_nat (unat (tu_max t))) @
                       ''); retry shortly'')), [], st)
               else if calibrating st
               then (Some (reject 503 ''calibrating'' ''measuring host capacity; retry shortly''), [], st)
               else serve_admitted api opts env query proxy st)))"

section \<open>When the pool refuses\<close>

lemma acquire_slot_why:
  assumes "semaphore_ok api" "acquire_slot api opts wk p = (Some (SlotFailed e), p')"
  shows "(e = Closed \<longrightarrow> is_closed api (semaphore p)) \<and>
         (\<forall>n. e = QueueFull n \<longrightarrow> available_permits api (semaphore p) = 0 \<and> max_queue opts \<le> waiting p) \<and>
         (\<forall>m. e \<noteq> Pool.Launch m)"
  using assms(1)
proof (rule try_acquire_cases [where q = "semaphore p"])
  assume e: "try_acquire api (semaphore p) = (NoPermits, semaphore p)" "available_permits api (semaphore p) = 0"
  show ?thesis
    using assms(1)
    by (rule poll_acquire_cases [where q = "semaphore p"])
       (use assms(2) e in \<open>cases wk; auto simp: acquire_slot_def acquire_slot_begin_def
           acquire_slot_wake_def counter_guard_drop_def Let_def split: if_splits\<close>)+
qed (use assms(2) in \<open>auto simp: acquire_slot_def acquire_slot_begin_def\<close>)

lemma acquire_slot_closed:
  assumes "semaphore_ok api" "is_closed api (semaphore p)"
  shows "acquire_slot api opts wk p = (Some (SlotFailed Closed), p)"
  using assms(1)
  by (rule try_acquire_cases [where q = "semaphore p"])
     (use assms(2) in \<open>auto simp: acquire_slot_def acquire_slot_begin_def\<close>)

lemma acquire_slot_full:
  assumes "semaphore_ok api" "\<not> is_closed api (semaphore p)" "available_permits api (semaphore p) = 0"
    and "max_queue opts \<le> waiting p"
  shows "acquire_slot api opts wk p = (Some (SlotFailed (QueueFull (max_queue opts))), p)"
  using assms(1)
  by (rule try_acquire_cases [where q = "semaphore p"])
     (use assms(2-4) in \<open>auto simp: acquire_slot_def acquire_slot_begin_def counter_guard_drop_def Let_def\<close>)

lemma claim_refused:
  assumes "acquire_slot api opts (env_wake env) p = (Some (SlotFailed e), p')"
  shows "claim_browser api opts env relay0 p = (Some (Inl e), [], p')"
  using assms by (cases relay0) (simp_all add: claim_browser_def Pool.claim_def claim_with_def)

lemma claim_error_why:
  assumes "semaphore_ok api" "claim_browser api opts env relay0 p = (Some (Inl e), stale, p')"
  shows "(e = Closed \<longrightarrow> is_closed api (semaphore p)) \<and>
         (\<forall>n. e = QueueFull n \<longrightarrow> available_permits api (semaphore p) = 0 \<and> max_queue opts \<le> waiting p)"
proof -
  obtain r p1 where a: "acquire_slot api opts (env_wake env) p = (r, p1)" by fastforce
  show ?thesis
  proof (cases r)
    case None
    then show ?thesis
      using assms(2) a by (cases relay0) (auto simp: claim_browser_def Pool.claim_def claim_with_def)
  next
    case (Some sl)
    show ?thesis
    proof (cases sl)
      case SlotTaken
      then have "\<exists>m. e = Pool.Launch m"
        using assms(2) a Some
        by (cases relay0; cases "claim_warm (env_alive env) p1")
           (auto simp: claim_browser_def Pool.claim_def claim_with_def hand_out_def Let_def
              split: option.splits sum.splits)
      then show ?thesis by auto
    next
      case SlotWaits
      then show ?thesis
        using assms(2) a Some
        by (cases relay0) (auto simp: claim_browser_def Pool.claim_def claim_with_def)
    next
      case (SlotFailed e')
      then have "e' = e"
        using assms(2) a Some claim_refused [of api opts env p e' p1 relay0] by simp
      then show ?thesis
        using acquire_slot_why [OF assms(1)] a Some SlotFailed by blast
    qed
  qed
qed

section \<open>Admission\<close>

text \<open>A plain session request: authorised, no resume, no profile, no proxy.\<close>

definition plain_request ::
    "ct_eq_fun \<Rightarrow> query_map \<Rightarrow> Auth.headers \<Rightarrow> ('s, 'q, 'p, 'n, 'h) app_state \<Rightarrow> bool" where
  "plain_request ct_eq query hs st \<longleftrightarrow>
     check_auth ct_eq st query hs \<and> query ''resume'' = None \<and> query ''profileToken'' = None \<and>
     hs proxy_header = None"

definition under_load :: "('s, 'p, 'n::linorder) ws_env \<Rightarrow> ('s, 'q, 'p, 'n, 'h) app_state \<Rightarrow> bool" where
  "under_load env st \<longleftrightarrow>
     max_cpu_percent st < cpu_load st \<or> max_memory_percent st < memory_load st \<or>
     threads_short (env_threads env) \<or> calibrating st"

lemma load_refused:
  assumes "plain_request ct_eq query hs st" "under_load env st"
  shows "\<exists>r. ws_handler ct_eq api opts env query hs st = (Some r, [], st) \<and> status r = 503"
  using assms
  by (auto simp: ws_handler_def plain_request_def requested_proxy_def under_load_def reject_def respond_def)

lemma no_load_served:
  assumes "plain_request ct_eq query hs st" "\<not> under_load env st"
  shows "ws_handler ct_eq api opts env query hs st = serve_admitted api opts env query None st"
  using assms
  by (simp add: ws_handler_def plain_request_def requested_proxy_def under_load_def)

lemma serve_admitted_spent:
  assumes "instance_spent st"
  shows "serve_admitted api opts env query proxy st =
     (Some (reject 503 ''single_use_spent''
        ''this instance serves one session only; connect again for a fresh one''), [], st)"
proof -
  obtain su where "app_single_use st = Some su" "spent su"
    using assms by (auto simp: instance_spent_def is_spent_def split: option.splits)
  moreover have "st\<lparr>app_single_use := app_single_use st\<rparr> = st" by simp
  ultimately show ?thesis
    by (simp add: serve_admitted_def take_single_use_def try_spend_def)
qed

lemma serve_admitted_unspent:
  assumes "\<not> instance_spent st" "query ''profileToken'' = None"
  obtains held st1 where "serve_admitted api opts env query None st = serve_claimed api opts env None held st1"
    "app_pool st1 = app_pool st" "held \<longleftrightarrow> app_single_use st \<noteq> None"
  using assms that
  by (cases "app_single_use st")
     (auto simp: serve_admitted_def take_single_use_def try_spend_def start_session_relay_def instance_spent_def
        is_spent_def Let_def)

lemma serve_claimed_refused:
  assumes "acquire_slot api opts (env_wake env) (app_pool st) = (Some (SlotFailed e), p')"
  shows "\<exists>r st'. serve_claimed api opts env relay0 held st = (Some r, [], st') \<and> status r = 503 \<and> app_pool st' = p'"
  using claim_refused [OF assms]
  by (auto simp: serve_claimed_def claim_status_def reject_def respond_def release_guard_def)

lemma serve_claimed_outcome:
  assumes "semaphore_ok api" "\<not> is_closed api (semaphore (app_pool st))"
    and "\<not> (available_permits api (semaphore (app_pool st)) = 0 \<and> max_queue opts \<le> waiting (app_pool st))"
    and "serve_claimed api opts env relay0 held st = (Some r, tasks, st')"
  shows "status r = 101 \<or>
         (\<exists>w d. body r = ErrorDetail w d \<and> w \<in> {''queue_timeout'', ''launch_failed'', ''internal''})"
proof -
  obtain res stale p where c: "claim_browser api opts env relay0 (app_pool st) = (res, stale, p)"
    by (cases "claim_browser api opts env relay0 (app_pool st)")
  show ?thesis
  proof (cases res)
    case None
    then show ?thesis using assms(4) c by (simp add: serve_claimed_def)
  next
    case (Some res')
    show ?thesis
    proof (cases res')
      case (Inl e)
      then show ?thesis
        using claim_error_why [OF assms(1), of opts env relay0 "app_pool st" e stale p] assms(2-4) c Some
        by (cases e) (auto simp: serve_claimed_def claim_status_def reject_def respond_def)
    next
      case (Inr s)
      have "status (with_proxy_applied b (with_resume_header f t upgraded)) = 101"
        for b f and t :: "string option"
        by (auto simp: with_proxy_applied_def with_resume_header_def upgraded_def respond_def set_header_def
            split: option.split)
      then show ?thesis
        using assms(4) c Some Inr
        by (auto simp: serve_claimed_def reject_def respond_def Let_def split: if_splits)
    qed
  qed
qed

section \<open>Single use\<close>

definition holds_guard :: "('s, 'p) task \<Rightarrow> bool" where
  "holds_guard t = (case t of PoolTask _ _ h \<Rightarrow> h | ProfileTask _ _ _ _ _ h \<Rightarrow> h | _ \<Rightarrow> False)"

lemma no_session_in_discards [simp]: "\<not> list_ex runs_session (map DiscardTask xs)"
  by (simp add: list_ex_iff runs_session_def)

lemma discards_filtered [simp]: "filter runs_session (map DiscardTask xs) = []"
  by (simp add: filter_empty_conv runs_session_def)

text \<open>How a request ends once the single use is taken: one session with the guard, or no session.\<close>

definition settled ::
    "bool \<Rightarrow> ('s, 'q, 'p, 'n, 'h) app_state \<Rightarrow> ('s, 'q, 'p, 'n, 'h) ws_result \<Rightarrow> bool" where
  "settled held st res \<longleftrightarrow>
     (case res of (resp, tasks, st') \<Rightarrow>
        (\<exists>t. filter runs_session tasks = [t] \<and> holds_guard t = held \<and> app_single_use st' = app_single_use st) \<or>
        (filter runs_session tasks = [] \<and>
         app_single_use st' = (if held then map_option drop_guard (app_single_use st) else app_single_use st)))"

lemma serve_profile_settled: "settled held st (serve_profile_session env query token0 relay0 held st)"
  by (auto simp: serve_profile_session_def settled_def release_guard_def runs_session_def holds_guard_def
      Let_def split: prod.split option.split sum.split)

lemma serve_claimed_settled: "settled held st (serve_claimed api opts env relay0 held st)"
proof -
  obtain res stale p where "claim_browser api opts env relay0 (app_pool st) = (res, stale, p)"
    by (cases "claim_browser api opts env relay0 (app_pool st)")
  then show ?thesis
    by (auto simp: serve_claimed_def settled_def release_guard_def runs_session_def holds_guard_def Let_def
        split: prod.split option.split sum.split)
qed

lemma serve_admitted_single:
  assumes "app_single_use st = Some su" "serve_admitted api opts env query proxy st = (resp, tasks, st')"
  shows "if spent su then filter runs_session tasks = [] \<and> app_single_use st' = Some su
         else (\<exists>t. filter runs_session tasks = [t] \<and> holds_guard t \<and>
                 app_single_use st' = Some (su\<lparr>spent := True\<rparr>)) \<or>
              (filter runs_session tasks = [] \<and>
                 app_single_use st' = Some (su\<lparr>spent := True, finished := True\<rparr>))"
proof (cases "spent su")
  case True
  then show ?thesis
    using serve_admitted_spent [of st api opts env query proxy] assms
    by (simp add: instance_spent_def is_spent_def)
next
  case False
  let ?st1 = "st\<lparr>app_single_use := Some (su\<lparr>spent := True\<rparr>)\<rparr>"
  have res: "(case start_session_relay env proxy of
           Inl e \<Rightarrow> (Some (proxy_start_refused e), [], release_guard True ?st1)
         | Inr relay0 \<Rightarrow>
             (case query ''profileToken'' of
                Some token0 \<Rightarrow> serve_profile_session env query token0 relay0 True ?st1
              | None \<Rightarrow> serve_claimed api opts env relay0 True ?st1)) = (resp, tasks, st')"
    using assms False by (simp add: serve_admitted_def take_single_use_def try_spend_def)
  have "settled True ?st1 (resp, tasks, st')"
  proof (cases "start_session_relay env proxy")
    case (Inl e)
    then show ?thesis using res by (auto simp: settled_def release_guard_def)
  next
    case (Inr relay0)
    then show ?thesis
      using res serve_profile_settled [of True ?st1 env query _ relay0]
        serve_claimed_settled [of True ?st1 api opts env relay0]
      by (cases "query ''profileToken''") (simp_all, metis)
  qed
  then show ?thesis
    using False by (auto simp: settled_def drop_guard_def)
qed

lemma ws_handler_single:
  assumes "app_single_use st = Some su" "ws_handler ct_eq api opts env query hs st = (resp, tasks, st')"
  shows "(filter runs_session tasks = [] \<and> app_single_use st' = Some su) \<or>
         \<not> spent su \<and>
         ((\<exists>t. filter runs_session tasks = [t] \<and> holds_guard t \<and> app_single_use st' = Some (su\<lparr>spent := True\<rparr>)) \<or>
          (filter runs_session tasks = [] \<and> app_single_use st' = Some (su\<lparr>spent := True, finished := True\<rparr>)))"
proof -
  consider (served) proxy where "serve_admitted api opts env query proxy st = (resp, tasks, st')"
    | (resumed) t where "resume_session env t st = (resp, tasks, st')"
    | (refused) "tasks = []" "st' = st"
    using assms(2) by (auto simp: ws_handler_def split: if_splits option.splits sum.splits)
  then show ?thesis
  proof cases
    case served
    show ?thesis using serve_admitted_single [OF assms(1) served] by (auto split: if_splits)
  next
    case resumed
    then show ?thesis
      using assms(1)
      by (auto simp: resume_session_def runs_session_def split: option.splits prod.splits)
  qed (use assms(1) in simp)
qed

definition session_event ::
    "ct_eq_fun \<Rightarrow> 'q semaphore_api \<Rightarrow> pool_options \<Rightarrow> ('s, 'p, 'n::linorder) ws_env \<times> query_map \<times> Auth.headers
     \<Rightarrow> ('s, 'q, 'p, 'n, 'h) app_state \<Rightarrow> (unit \<times> ('s, 'p) task) option \<times> ('s, 'q, 'p, 'n, 'h) app_state" where
  "session_event ct_eq api opts req st =
     (case req of (env, query, hs) \<Rightarrow>
        (case ws_handler ct_eq api opts env query hs st of
           (resp, tasks, st') \<Rightarrow>
             (case filter runs_session tasks of [] \<Rightarrow> None | t # _ \<Rightarrow> Some ((), t), st')))"

lemma session_event_single:
  assumes "app_single_use st = Some su" "session_event ct_eq api opts op st = (r, st2)"
  shows "(r = None \<and> app_single_use st2 = Some su) \<or>
         (\<not> spent su \<and> (\<exists>su2. app_single_use st2 = Some su2 \<and> spent su2 \<and> (r = None \<longrightarrow> finished su2)))"
proof -
  obtain env query hs where op: "op = (env, query, hs)" by (cases op)
  obtain resp tasks st' where h: "ws_handler ct_eq api opts env query hs st = (resp, tasks, st')"
    by (cases "ws_handler ct_eq api opts env query hs st")
  then have "st2 = st'" "r = (case filter runs_session tasks of [] \<Rightarrow> None | t # _ \<Rightarrow> Some ((), t))"
    using assms(2) op by (auto simp: session_event_def)
  then show ?thesis
    using ws_handler_single [OF assms(1) h] by auto
qed

interpretation single: one_shot "session_event ct_eq api opts" "\<lambda>st. app_single_use st \<noteq> None"
    "\<lambda>st _. \<not> instance_spent st" "\<lambda>_ _. False" for ct_eq api opts
proof (unfold_locales, goal_cases)
  case (1 st op)
  then obtain su where su: "app_single_use st = Some su" by auto
  show ?case
    using session_event_single [OF su, of ct_eq api opts op "fst (session_event ct_eq api opts op st)"
        "snd (session_event ct_eq api opts op st)"] by auto
qed (auto simp: instance_spent_def is_spent_def dest!: session_event_single [rotated])

lemma proxied_claim_launches:
  assumes "claim_browser api opts env (Some r) p = (res, stale, p1)"
  shows "stale = [] \<and> (\<forall>s. res = Some (Inr s) \<longrightarrow> env_launch env (Some r) = Inr s)"
proof -
  obtain sl p2 where a: "acquire_slot api opts (env_wake env) p = (sl, p2)" by fastforce
  show ?thesis
  proof (cases sl)
    case None
    then show ?thesis using assms a by (auto simp: claim_browser_def claim_with_def)
  next
    case (Some x)
    then show ?thesis
      using assms a
      by (cases x) (auto simp: claim_browser_def claim_with_def hand_out_def Let_def split: sum.splits)
  qed
qed

definition browser_via :: "('s, 'p, 'n) ws_env \<Rightarrow> relay \<Rightarrow> ('s, 'p) task \<Rightarrow> bool" where
  "browser_via env r t =
     (case t of
        PoolTask s _ _ \<Rightarrow> env_launch env (Some r) = Inr s
      | ProfileTask s pl _ _ _ _ \<Rightarrow> env_seeded env pl (Some r) = Inr s
      | _ \<Rightarrow> False)"

lemma proxied_profile_task:
  assumes "serve_profile_session env query token0 (Some r) held st1 = (resp, tasks, st')"
    and "t \<in> set tasks" "runs_session t"
  shows "browser_via env r t \<and>
         (\<exists>f token1. resp = Some (with_proxy_applied True (with_resume_header f token1 upgraded)))"
proof -
  obtain c ps where c: "Profile_Store.claim (env_now env) token0 (profiles st1) = (c, ps)"
    by (cases "Profile_Store.claim (env_now env) token0 (profiles st1)")
  show ?thesis
  proof (cases c)
    case None
    then show ?thesis using assms c by (auto simp: serve_profile_session_def)
  next
    case (Some pl)
    then show ?thesis
      using assms c
      by (cases "env_seeded env pl (Some r)") (auto simp: serve_profile_session_def browser_via_def Let_def)
  qed
qed

lemma proxied_pool_task:
  assumes "serve_claimed api opts env (Some r) held st1 = (resp, tasks, st')"
    and "t \<in> set tasks" "runs_session t"
  shows "browser_via env r t \<and>
         (\<exists>f token1. resp = Some (with_proxy_applied True (with_resume_header f token1 upgraded)))"
proof -
  obtain res stale p1 where cb: "claim_browser api opts env (Some r) (app_pool st1) = (res, stale, p1)"
    by (cases "claim_browser api opts env (Some r) (app_pool st1)")
  then have "stale = []" "\<And>s. res = Some (Inr s) \<Longrightarrow> env_launch env (Some r) = Inr s"
    using proxied_claim_launches by blast+
  then show ?thesis
    using assms cb
    by (auto simp: serve_claimed_def claim_status_def runs_session_def browser_via_def Let_def
        split: option.splits sum.splits if_splits)
qed

lemma applied_confirmed:
  "status (with_proxy_applied True (with_resume_header f token1 upgraded)) = 101 \<and>
   map_of (response_headers (with_proxy_applied True (with_resume_header f token1 upgraded)))
     proxy_applied_header = Some ''1''"
  by (auto simp: with_proxy_applied_def with_resume_header_def upgraded_def respond_def set_header_def
      update_Some_unfold split: option.split)

section \<open>Properties\<close>

text \<open>When the report gives no reason, and what some other reason than the sandbox means.\<close>

lemma pressure_why:
  assumes "available_permits api (semaphore (app_pool st)) \<le> max_sessions (app_pool st)"
    and "fst (pressure_reason api opts (env_threads env) st) = why"
  defines "full \<equiv> available_permits api (semaphore (app_pool st)) = 0 \<and> max_queue opts \<le> waiting (app_pool st)"
  shows "why = [] \<longleftrightarrow> \<not> sandbox_required_but_unavailable (app_factory st) \<and> \<not> instance_spent st \<and>
       \<not> is_closed api (semaphore (app_pool st)) \<and> \<not> under_load env st \<and> \<not> full"
    and "why \<noteq> [] \<and> why \<noteq> ''sandbox'' \<longrightarrow>
       instance_spent st \<or> is_closed api (semaphore (app_pool st)) \<or> under_load env st \<or> full"
proof -
  have "(max_sessions (app_pool st) \<le> st_running (stats api opts (app_pool st)) \<and>
         max_queue opts \<le> st_queued (stats api opts (app_pool st))) \<longleftrightarrow> full"
    if "\<not> is_closed api (semaphore (app_pool st))"
    using that assms(1) by (auto simp: stats_def Let_def full_def)
  then show "why = [] \<longleftrightarrow> \<not> sandbox_required_but_unavailable (app_factory st) \<and> \<not> instance_spent st \<and>
       \<not> is_closed api (semaphore (app_pool st)) \<and> \<not> under_load env st \<and> \<not> full"
    and "why \<noteq> [] \<and> why \<noteq> ''sandbox'' \<longrightarrow>
       instance_spent st \<or> is_closed api (semaphore (app_pool st)) \<or> under_load env st \<or> full"
    using assms(2)
    by (auto simp: pressure_reason_def Let_def unavailable_reason_def gate_of_def under_load_def stats_def
        split: if_splits)
qed


definition calm_state :: "(nat, nat \<times> bool, (int, unit, unit) profile_payload, nat, unit) app_state" where
  "calm_state =
     \<lparr>app_pool = pool_new counting_semaphore demo_options,
      app_factory = factory_new demo_config ''chrome'' demo_tiers None None None, app_token = None,
      cpu_load = 10, memory_load = 20, max_cpu_percent = 95, max_memory_percent = 95, external_address = None,
      max_message_bytes = 1000, app_tiers = demo_tiers, capacity_source = ''config'',
      profiles = store_new profile_ttl max_pending_entries, idle_timeout = None, calibrating = False,
      app_single_use = Some single_use_new, app_resume = None, session_proxy = Inr default_relay_options\<rparr>"

definition calm_env :: "(nat, (int, unit, unit) profile_payload, nat) ws_env" where
  "calm_env =
     \<lparr>env_threads = None, env_relay = (\<lambda>_ _. Inl Timeout), env_wake = Dropped, env_alive = (\<lambda>_. True),
      env_launch = (\<lambda>r. Inr 7), env_seeded = (\<lambda>_ _. Inl ''no''), env_transport = (\<lambda>_. True), env_now = 0,
      env_random = Inl ''none'', env_show = show_nat, env_header_ok = (\<lambda>_. True)\<rparr>"

lemma calm_plain: "plain_request (=) (\<lambda>_. None) (\<lambda>_. None) calm_state"
  by (simp add: plain_request_def check_auth_def request_authorized_def calm_state_def authorized_def
      tokenless_origin_allowed_def)


text \<open>
  Property C4: a session that asked for a proxy never runs without it. Whenever a request with the
  proxy header starts a session, the server allows session proxies, the header parsed as an upstream,
  a relay to exactly that upstream was started with the server's options, the browser was launched
  for that relay (never taken warm from the pool), and the response confirms the proxy.
\<close>

theorem proxied_or_refused:
  assumes "ws_handler ct_eq api opts env query hs st = (resp, tasks, st')"
    and "hs proxy_header = Some v" "t \<in> set tasks" "runs_session t"
  shows "\<exists>options raw u r resp'.
           session_proxy st = Inr options \<and> to_str v = Some raw \<and> parse raw = Inr u \<and>
           env_relay env u options = Inr r \<and>
           (case t of
              PoolTask s _ _ \<Rightarrow> env_launch env (Some r) = Inr s
            | ProfileTask s pl _ _ _ _ \<Rightarrow> env_seeded env pl (Some r) = Inr s
            | _ \<Rightarrow> False) \<and>
           resp = Some resp' \<and> status resp' = 101 \<and>
           map_of (response_headers resp') proxy_applied_header = Some ''1''"
proof -
  have "query ''resume'' = None"
    using assms
    by (auto simp: ws_handler_def resume_session_def runs_session_def split: if_splits option.splits prod.splits)
  then obtain proxy where req: "requested_proxy st hs = Inr proxy"
    and served: "serve_admitted api opts env query proxy st = (resp, tasks, st')"
    using assms by (auto simp: ws_handler_def runs_session_def split: if_splits option.splits sum.splits)
  obtain options raw u where p: "session_proxy st = Inr options" "to_str v = Some raw" "parse raw = Inr u"
    "proxy = Some (u, options)"
    using req assms(2) by (auto simp: requested_proxy_def split: sum.splits option.splits)
  obtain held st1 r where r: "env_relay env u options = Inr r"
    and cases: "serve_claimed api opts env (Some r) held st1 = (resp, tasks, st') \<or>
      (\<exists>token0. serve_profile_session env query token0 (Some r) held st1 = (resp, tasks, st'))"
    using served p(4) assms(3,4)
    by (auto simp: serve_admitted_def start_session_relay_def runs_session_def split: prod.splits option.splits sum.splits)
  have "browser_via env r t \<and>
        (\<exists>f token1. resp = Some (with_proxy_applied True (with_resume_header f token1 upgraded)))"
    using cases
  proof
    assume "serve_claimed api opts env (Some r) held st1 = (resp, tasks, st')"
    from proxied_pool_task [OF this assms(3,4)] show ?thesis .
  next
    assume "\<exists>token0. serve_profile_session env query token0 (Some r) held st1 = (resp, tasks, st')"
    then obtain token0 where "serve_profile_session env query token0 (Some r) held st1 = (resp, tasks, st')" ..
    from proxied_profile_task [OF this assms(3,4)] show ?thesis .
  qed
  then show ?thesis
    using p(1-3) r applied_confirmed unfolding browser_via_def by blast
qed

definition demo_relay :: relay where
  "demo_relay = \<lparr>relay_port = 4000, relay_dialer = demo_dialer, cancelled = False, slots = 1\<rparr>"

definition proxy_env :: "(nat, (int, unit, unit) profile_payload, nat) ws_env" where
  "proxy_env = calm_env\<lparr>env_relay := (\<lambda>_ _. Inr demo_relay)\<rparr>"

definition proxy_headers :: Auth.headers where
  "proxy_headers k = (if k = proxy_header then Some \<lparr>to_str = Some ''http://p''\<rparr> else None)"

definition proxied_result ::
    "(nat, nat \<times> bool, (int, unit, unit) profile_payload, nat, unit) ws_result" where
  "proxied_result = ws_handler (=) counting_semaphore demo_options proxy_env (\<lambda>_. None) proxy_headers calm_state"

lemma demo_parse: "parse ''http://p'' = Inr \<lparr>scheme = Http, host = ''p'', port = 80, username = None, password = None\<rparr>"
  by code_simp

lemma proxied_tasks: "fst (snd proxied_result) = [PoolTask 7 None True]"
proof -
  have "check_auth (=) calm_state (\<lambda>_. None) proxy_headers"
    by (simp add: check_auth_def request_authorized_def calm_state_def authorized_def proxy_headers_def
        proxy_header_def tokenless_origin_allowed_def)
  moreover have "requested_proxy calm_state proxy_headers =
      Inr (Some (\<lparr>scheme = Http, host = ''p'', port = 80, username = None, password = None\<rparr>, default_relay_options))"
    by (simp add: requested_proxy_def proxy_headers_def calm_state_def demo_parse)
  ultimately show ?thesis
    by (simp add: proxied_result_def ws_handler_def calm_state_def proxy_env_def calm_env_def threads_short_def
        serve_admitted_def take_single_use_def single_use_new_def try_spend_def start_session_relay_def
        serve_claimed_def claim_browser_def claim_with_def acquire_slot_def acquire_slot_begin_def pool_new_def
        counting_semaphore_def counting_acquire_def demo_options_def hand_out_def resumable_session_def)
qed

theorem proxied_or_refused_witness:
  "\<exists>resp'. fst proxied_result = Some resp' \<and> status resp' = 101 \<and>
     map_of (response_headers resp') proxy_applied_header = Some ''1''"
proof -
  obtain resp st' where h: "ws_handler (=) counting_semaphore demo_options proxy_env (\<lambda>_. None) proxy_headers calm_state
      = (resp, [PoolTask 7 None True], st')"
    using proxied_tasks by (metis fst_conv proxied_result_def snd_conv surj_pair)
  have "proxy_headers proxy_header = Some \<lparr>to_str = Some ''http://p''\<rparr>" by (simp add: proxy_headers_def)
  from proxied_or_refused [OF h this, of "PoolTask 7 None True"] show ?thesis
    using h by (auto simp: proxied_result_def runs_session_def)
qed

text \<open>
  Property C17: a single-use instance serves one session and then goes away. Over any sequence of
  requests, with whatever credentials, tokens and proxies, at most one starts a session; and a
  request that spends the use without starting a session has signalled the shutdown.
\<close>

theorem single_use_one_session:
  assumes "app_single_use st = Some su"
  shows "length (fst (trace (session_event ct_eq api opts) reqs st)) \<le> 1 \<and>
         (\<not> instance_spent st \<and> session_event ct_eq api opts req st = (None, st') \<and> instance_spent st' \<longrightarrow>
            (\<exists>su2. app_single_use st' = Some su2 \<and> finished su2))"
proof -
  have "length (filter (\<lambda>r. fst r = ()) (fst (trace (session_event ct_eq api opts) reqs st))) \<le>
      (if \<not> instance_spent st then 1 else 0)"
    by (rule single.at_most_once) (use assms in \<open>simp_all add: list_all_iff\<close>)
  moreover have "filter (\<lambda>r. fst r = ()) xs = xs" for xs :: "(unit \<times> 'z) list"
    by (simp add: filter_True)
  ultimately have "length (fst (trace (session_event ct_eq api opts) reqs st)) \<le> 1"
    by (simp split: if_splits)
  then show ?thesis
    using session_event_single [OF assms, of ct_eq api opts req None st'] assms
    by (auto simp: instance_spent_def is_spent_def)
qed

theorem single_use_one_session_witness:
  "length (fst (trace (session_event (=) counting_semaphore demo_options)
     [(calm_env, (\<lambda>_. None), (\<lambda>_. None)), (calm_env, (\<lambda>_. None), (\<lambda>_. None))] calm_state)) \<le> 1"
proof -
  have "app_single_use calm_state = Some single_use_new" by (simp add: calm_state_def)
  from single_use_one_session [OF this] show ?thesis by blast
qed

end
