(* ===== verification/Cdp_Profile.thy ===== *)
theory Cdp_Profile
  imports Cdp_Client Cookie "HOL-Library.Sublist"
begin

text \<open>
  \<^verbatim>\<open>src/profile/cdp.rs\<close>: reading and writing a profile over the browser's pipe. An operation runs on a
  conversation: the messages the browser will send, the client's numbering and the write side of the
  pipe. Its result is \<open>None\<close> while it still waits. The serde encoders and decoders of the profile's
  types are generated code, so they are arguments; so is the writing of a message.
\<close>

section \<open>Operations on a conversation\<close>

datatype profile_cdp_error =
    CdpFailed cdp_error
  | DecodeFailed string
  | Unexpected string

record storage_entry =
  entry_name :: string
  entry_value :: string

record origin_state =
  origin :: string
  entries_of :: "storage_entry list"

record ('j, 'w, 't) cdp_env =
  ce_json :: "'j json_api"
  ce_send :: "'j \<Rightarrow> 'w \<Rightarrow> pipe_error option \<times> 'w"
  ce_cookies :: "'j \<Rightarrow> string + 't cookie list"
  ce_params :: "'t cookie_param list \<Rightarrow> 'j"
  ce_entries :: "'j \<Rightarrow> string + storage_entry list"
  ce_entries_json :: "storage_entry list \<Rightarrow> string option"

type_synonym ('j, 'w) conv = "(pipe_error + 'j) list \<times> cdp_client \<times> 'w"
type_synonym ('j, 'w, 'a) cdp_op = "('j, 'w) conv \<Rightarrow> (profile_cdp_error + 'a) option \<times> ('j, 'w) conv"

definition ret :: "'a \<Rightarrow> ('j, 'w, 'a) cdp_op" where
  "ret a conv = (Some (Inr a), conv)"

definition fail :: "profile_cdp_error \<Rightarrow> ('j, 'w, 'a) cdp_op" where
  "fail e conv = (Some (Inl e), conv)"

definition bind_op :: "('j, 'w, 'a) cdp_op \<Rightarrow> ('a \<Rightarrow> ('j, 'w, 'b) cdp_op) \<Rightarrow> ('j, 'w, 'b) cdp_op" where
  "bind_op f g conv =
     (case f conv of
        (Some (Inr a), conv1) \<Rightarrow> g a conv1
      | (Some (Inl e), conv1) \<Rightarrow> (Some (Inl e), conv1)
      | (None, conv1) \<Rightarrow> (None, conv1))"

definition rpc :: "('j, 'w, 't) cdp_env \<Rightarrow> string option \<Rightarrow> string \<Rightarrow> 'j \<Rightarrow> ('j, 'w, 'j) cdp_op" where
  "rpc env sid meth params conv =
     (case conv of (ms, c, w) \<Rightarrow>
        (case call_on (ce_json env) (ce_send env) sid meth params ms c w of
           (r, rest, c1, w1) \<Rightarrow> (map_option (map_sum CdpFailed (\<lambda>x. x)) r, rest, c1, w1)))"

definition emit :: "('j, 'w, 't) cdp_env \<Rightarrow> string option \<Rightarrow> string \<Rightarrow> 'j \<Rightarrow> ('j, 'w, unit) cdp_op" where
  "emit env sid meth params conv =
     (case conv of (ms, c, w) \<Rightarrow>
        (case client_send (ce_json env) (ce_send env) meth params sid c w of
           (Inl e, c1, w1) \<Rightarrow> (Some (Inl (CdpFailed e)), ms, c1, w1)
         | (Inr _, c1, w1) \<Rightarrow> (Some (Inr ()), ms, c1, w1)))"

section \<open>Cookies\<close>

definition capture_cookies :: "('j, 'w, 't) cdp_env \<Rightarrow> ('j, 'w, 't cookie list) cdp_op" where
  "capture_cookies env =
     bind_op (rpc env None ''Storage.getCookies'' (jobject (ce_json env) []))
       (\<lambda>result.
          let cookies = (case jget (ce_json env) ''cookies'' result of
                           Some v \<Rightarrow> v | None \<Rightarrow> jarray (ce_json env) [])
          in case ce_cookies env cookies of Inl m \<Rightarrow> fail (DecodeFailed m) | Inr cs \<Rightarrow> ret cs)"

definition apply_cookies ::
    "('j, 'w, 't::{linorder,zero}) cdp_env \<Rightarrow> 't cookie list \<Rightarrow> 't \<Rightarrow> ('j, 'w, nat \<times> drop_counts) cdp_op" where
  "apply_cookies env cs now =
     (let (params, dropped) = sanitize cs now
      in if params = [] then ret (0, dropped)
         else bind_op
                (rpc env None ''Storage.setCookies'' (jobject (ce_json env) [(''cookies'', ce_params env params)]))
                (\<lambda>_. ret (length params, dropped)))"

section \<open>The page target\<close>

definition page_target :: "'j json_api \<Rightarrow> 'j \<Rightarrow> string option" where
  "page_target J targets =
     Option.bind
       (List.find (\<lambda>t. Option.bind (jget J ''type'' t) (as_str J) = Some ''page'')
          (case Option.bind (jget J ''targetInfos'' targets) (as_array J) of None \<Rightarrow> [] | Some xs \<Rightarrow> xs))
       (\<lambda>t. Option.bind (jget J ''targetId'' t) (as_str J))"

text \<open>The polling loop; one element per round, whether the deadline has passed by then.\<close>

fun first_page_target :: "('j, 'w, 't) cdp_env \<Rightarrow> bool list \<Rightarrow> ('j, 'w, string option) cdp_op" where
  "first_page_target env [] conv = (None, conv)"
| "first_page_target env (late # rounds) conv =
     bind_op (rpc env None ''Target.getTargets'' (jobject (ce_json env) []))
       (\<lambda>targets.
          let page = page_target (ce_json env) targets
          in if page \<noteq> None \<or> late then ret page else first_page_target env rounds) conv"

definition open_blank_page :: "('j, 'w, 't) cdp_env \<Rightarrow> ('j, 'w, string) cdp_op" where
  "open_blank_page env =
     bind_op (rpc env None ''Target.createTarget''
                (jobject (ce_json env) [(''url'', jstring (ce_json env) ''about:blank'')]))
       (\<lambda>created. case Option.bind (jget (ce_json env) ''targetId'' created) (as_str (ce_json env)) of
          Some t \<Rightarrow> ret t
        | None \<Rightarrow> fail (Unexpected ''no page target to attach''))"

definition attach_page_target :: "('j, 'w, 't) cdp_env \<Rightarrow> bool list \<Rightarrow> ('j, 'w, string) cdp_op" where
  "attach_page_target env rounds =
     bind_op (first_page_target env rounds)
       (\<lambda>found. bind_op (case found of Some t \<Rightarrow> ret t | None \<Rightarrow> open_blank_page env)
          (\<lambda>target.
             bind_op (rpc env None ''Target.attachToTarget''
                        (jobject (ce_json env)
                           [(''targetId'', jstring (ce_json env) target), (''flatten'', jbool (ce_json env) True)]))
               (\<lambda>attached. case Option.bind (jget (ce_json env) ''sessionId'' attached) (as_str (ce_json env)) of
                  Some sid \<Rightarrow> ret sid
                | None \<Rightarrow> fail (Unexpected ''attach returned no sessionId''))))"

section \<open>Local storage\<close>

definition enable_interception :: "('j, 'w, 't) cdp_env \<Rightarrow> string \<Rightarrow> ('j, 'w, unit) cdp_op" where
  "enable_interception env sid =
     bind_op (rpc env (Some sid) ''Page.enable'' (jobject (ce_json env) []))
       (\<lambda>_. bind_op
          (rpc env (Some sid) ''Fetch.enable''
             (jobject (ce_json env)
                [(''patterns'', jarray (ce_json env)
                    [jobject (ce_json env) [(''urlPattern'', jstring (ce_json env) ''*'')]])]))
          (\<lambda>_. ret ()))"

definition msg_method :: "'j json_api \<Rightarrow> 'j \<Rightarrow> string option" where
  "msg_method J m = Option.bind (jget J ''method'' m) (as_str J)"

definition request_id :: "'j json_api \<Rightarrow> 'j \<Rightarrow> string" where
  "request_id J m =
     (case Option.bind (Option.bind (jget J ''params'' m) (jget J ''requestId'')) (as_str J) of
        Some r \<Rightarrow> r | None \<Rightarrow> [])"

definition fulfill_params :: "'j json_api \<Rightarrow> string \<Rightarrow> 'j" where
  "fulfill_params J rid =
     jobject J
       [(''requestId'', jstring J rid), (''responseCode'', jnum J 200),
        (''responseHeaders'', jarray J
           [jobject J [(''name'', jstring J ''Content-Type''), (''value'', jstring J ''text/html'')]])]"

fun navigate_loop :: "('j, 'w, 't) cdp_env \<Rightarrow> string \<Rightarrow> (pipe_error + 'j) list \<Rightarrow> cdp_client \<Rightarrow> 'w
    \<Rightarrow> (profile_cdp_error + unit) option \<times> ('j, 'w) conv" where
  "navigate_loop env sid [] c w = (None, [], c, w)"
| "navigate_loop env sid (Inl e # ms) c w = (Some (Inl (CdpFailed (PipeFailure e))), ms, c, w)"
| "navigate_loop env sid (Inr m # ms) c w =
     (if msg_method (ce_json env) m = Some ''Fetch.requestPaused'' then
        (case client_send (ce_json env) (ce_send env) ''Fetch.fulfillRequest''
                (fulfill_params (ce_json env) (request_id (ce_json env) m)) (Some sid) c w of
           (Inl e, c1, w1) \<Rightarrow> (Some (Inl (CdpFailed e)), ms, c1, w1)
         | (Inr _, c1, w1) \<Rightarrow> navigate_loop env sid ms c1 w1)
      else if msg_method (ce_json env) m = Some ''Page.loadEventFired'' then (Some (Inr ()), ms, c, w)
      else navigate_loop env sid ms c w)"

definition navigate_stub :: "('j, 'w, 't) cdp_env \<Rightarrow> string \<Rightarrow> string \<Rightarrow> ('j, 'w, unit) cdp_op" where
  "navigate_stub env sid url =
     bind_op (emit env (Some sid) ''Page.navigate'' (jobject (ce_json env) [(''url'', jstring (ce_json env) url)]))
       (\<lambda>_ conv. case conv of (ms, c, w) \<Rightarrow> navigate_loop env sid ms c w)"

definition disable_interception :: "('j, 'w, 't) cdp_env \<Rightarrow> string \<Rightarrow> ('j, 'w, unit) cdp_op" where
  "disable_interception env sid =
     bind_op (rpc env (Some sid) ''Fetch.disable'' (jobject (ce_json env) []))
       (\<lambda>_. navigate_stub env sid ''about:blank'')"

definition evaluate_params :: "'j json_api \<Rightarrow> string \<Rightarrow> 'j" where
  "evaluate_params J script =
     jobject J [(''expression'', jstring J script), (''returnByValue'', jbool J True)]"

definition restore_script :: "('j, 'w, 't) cdp_env \<Rightarrow> storage_entry list \<Rightarrow> string" where
  "restore_script env es =
     (let data = (case ce_entries_json env es of Some text \<Rightarrow> text | None \<Rightarrow> ''[]'')
      in ''(()=>{try{localStorage.clear();for(const e of '' @ data @
         ''){localStorage.setItem(e.name,e.value);}return true;}catch(err){return String(err);}})()'')"

fun restore_origins :: "('j, 'w, 't) cdp_env \<Rightarrow> string \<Rightarrow> origin_state list \<Rightarrow> ('j, 'w, unit) cdp_op" where
  "restore_origins env sid [] = ret ()"
| "restore_origins env sid (os # rest) =
     bind_op (navigate_stub env sid (origin os @ ''/''))
       (\<lambda>_. bind_op
          (rpc env (Some sid) ''Runtime.evaluate''
             (evaluate_params (ce_json env) (restore_script env (entries_of os))))
          (\<lambda>_. restore_origins env sid rest))"

definition apply_local_storage ::
    "('j, 'w, 't) cdp_env \<Rightarrow> string \<Rightarrow> origin_state list \<Rightarrow> ('j, 'w, nat) cdp_op" where
  "apply_local_storage env sid origins =
     (if origins = [] then ret 0
      else bind_op (enable_interception env sid)
        (\<lambda>_. bind_op (restore_origins env sid origins)
           (\<lambda>_. bind_op (disable_interception env sid) (\<lambda>_. ret (length origins)))))"

definition capture_script :: string where
  "capture_script =
     ''(()=>{try{return Object.keys(localStorage).map(k=>({name:k,value:localStorage.getItem(k)}));}catch(e){return [];}})()''"

fun read_origins ::
    "('j, 'w, 't) cdp_env \<Rightarrow> string \<Rightarrow> string list \<Rightarrow> origin_state list \<Rightarrow> ('j, 'w, origin_state list) cdp_op" where
  "read_origins env sid [] captured = ret captured"
| "read_origins env sid (os # rest) captured =
     bind_op (navigate_stub env sid (os @ ''/''))
       (\<lambda>_. bind_op
          (rpc env (Some sid) ''Runtime.evaluate'' (evaluate_params (ce_json env) capture_script))
          (\<lambda>result.
             case (case Option.bind (jget (ce_json env) ''result'' result) (jget (ce_json env) ''value'') of
                     None \<Rightarrow> Inr []
                   | Some v \<Rightarrow> ce_entries env v) of
               Inl m \<Rightarrow> fail (DecodeFailed m)
             | Inr es \<Rightarrow>
                 read_origins env sid rest
                   (if es = [] then captured else captured @ [\<lparr>origin = os, entries_of = es\<rparr>])))"

definition capture_local_storage ::
    "('j, 'w, 't) cdp_env \<Rightarrow> string \<Rightarrow> string list \<Rightarrow> ('j, 'w, origin_state list) cdp_op" where
  "capture_local_storage env sid origins =
     (if origins = [] then ret []
      else bind_op (enable_interception env sid)
        (\<lambda>_. bind_op (read_origins env sid origins [])
           (\<lambda>captured. bind_op (disable_interception env sid) (\<lambda>_. ret captured))))"

text \<open>\<^verbatim>\<open>seed_profile\<close> of \<^verbatim>\<open>src/server/ws.rs\<close>, with a new client on the pipe.\<close>

definition seed_profile ::
    "('j, 'w, 't::{linorder,zero}) cdp_env \<Rightarrow> 't \<Rightarrow> bool list \<Rightarrow> ('t, origin_state, 'i) profile_payload
     \<Rightarrow> (pipe_error + 'j) list \<Rightarrow> 'w \<Rightarrow> (profile_cdp_error + unit) option \<times> ('j, 'w) conv" where
  "seed_profile env now rounds p ms w =
     bind_op (apply_cookies env (cookies p) now)
       (\<lambda>_. bind_op (attach_page_target env rounds)
          (\<lambda>sid. bind_op (apply_local_storage env sid (local_storage p)) (\<lambda>_. ret ())))
       (ms, client_new, w)"

section \<open>What an operation writes\<close>

text \<open>
  The browser as an observer: a pipe that keeps what is written and may fail. A message is observed as its method
  and the address it navigates to. \<open>emits op A S\<close>: whatever the browser answers, the operation
  writes a word of \<open>A\<close>, and a word of \<open>S\<close> when it succeeds.
\<close>

definition logged :: "('j, 'j list, 't) cdp_env \<Rightarrow> bool" where
  "logged env \<longleftrightarrow>
     json_ok (ce_json env) \<and>
     (\<forall>m w. ce_send env m w = (None, w @ [m]) \<or> (\<exists>e. ce_send env m w = (Some e, w)))"

definition observed :: "'j json_api \<Rightarrow> 'j \<Rightarrow> string \<times> string option" where
  "observed J m =
     (case msg_method J m of None \<Rightarrow> [] | Some meth \<Rightarrow> meth,
      Option.bind (Option.bind (jget J ''params'' m) (jget J ''url'')) (as_str J))"

definition emits ::
    "'j json_api \<Rightarrow> ('j, 'j list, 'a) cdp_op \<Rightarrow> (string \<times> string option) list set
     \<Rightarrow> (string \<times> string option) list set \<Rightarrow> bool" where
  "emits J op A S \<longleftrightarrow>
     (\<forall>ms c w r ms' c' w'. op (ms, c, w) = (r, ms', c', w') \<longrightarrow>
        (\<exists>new. w' = w @ new \<and> map (observed J) new \<in> A \<and>
           (\<forall>a. r = Some (Inr a) \<longrightarrow> map (observed J) new \<in> S)))"

definition seq :: "'x list set \<Rightarrow> 'x list set \<Rightarrow> 'x list set" where
  "seq A B = {x @ y | x y. x \<in> A \<and> y \<in> B}"

lemma emitsI:
  assumes "\<And>ms c w r ms' c' w'. op (ms, c, w) = (r, ms', c', w') \<Longrightarrow>
     \<exists>new. w' = w @ new \<and> map (observed J) new \<in> A \<and> (\<forall>a. r = Some (Inr a) \<longrightarrow> map (observed J) new \<in> S)"
  shows "emits J op A S"
  using assms unfolding emits_def by blast

lemma emitsD:
  assumes "emits J op A S" "op (ms, c, w) = (r, ms', c', w')"
  obtains new where "w' = w @ new" "map (observed J) new \<in> A"
    "\<And>a. r = Some (Inr a) \<Longrightarrow> map (observed J) new \<in> S"
proof -
  from assms(1) have "op (ms, c, w) = (r, ms', c', w') \<longrightarrow>
      (\<exists>new. w' = w @ new \<and> map (observed J) new \<in> A \<and> (\<forall>a. r = Some (Inr a) \<longrightarrow> map (observed J) new \<in> S))"
    unfolding emits_def by (elim allE)
  from mp [OF this assms(2)] obtain new where new: "w' = w @ new \<and> map (observed J) new \<in> A \<and>
      (\<forall>a. r = Some (Inr a) \<longrightarrow> map (observed J) new \<in> S)" ..
  show thesis
    by (rule that [OF conjunct1 [OF new] conjunct1 [OF conjunct2 [OF new]]
          mp [OF spec [OF conjunct2 [OF conjunct2 [OF new]]]]])
qed

lemma emits_mono:
  assumes "emits J op A S" "A \<subseteq> A'" "S \<subseteq> S'"
  shows "emits J op A' S'"
proof (rule emitsI)
  fix ms c w r ms' c' w'
  assume run: "op (ms, c, w) = (r, ms', c', w')"
  obtain new where "w' = w @ new" "map (observed J) new \<in> A"
    "\<And>a. r = Some (Inr a) \<Longrightarrow> map (observed J) new \<in> S"
    using emitsD [OF assms(1) run] by metis
  with assms(2,3) show "\<exists>new. w' = w @ new \<and> map (observed J) new \<in> A' \<and>
     (\<forall>a. r = Some (Inr a) \<longrightarrow> map (observed J) new \<in> S')"
    by (intro exI [of _ new]) auto
qed

lemma emits_ret: "emits J (ret a) {[]} {[]}"
  by (auto simp: emits_def ret_def)

lemma emits_fail: "emits J (fail e) {[]} S"
  by (auto simp: emits_def fail_def)

lemma emits_bind:
  assumes f: "emits J f A S" and g: "\<And>a. emits J (g a) B T"
  shows "emits J (bind_op f g) (A \<union> seq S B) (seq S T)"
proof (rule emitsI)
  fix ms c w r ms' c' w'
  assume run: "bind_op f g (ms, c, w) = (r, ms', c', w')"
  obtain r1 ms1 c1 w1 where f1: "f (ms, c, w) = (r1, ms1, c1, w1)" by (cases "f (ms, c, w)")
  obtain n1 where n1: "w1 = w @ n1" "map (observed J) n1 \<in> A"
    "\<And>a. r1 = Some (Inr a) \<Longrightarrow> map (observed J) n1 \<in> S"
    using emitsD [OF f f1] by metis
  show "\<exists>new. w' = w @ new \<and> map (observed J) new \<in> A \<union> seq S B \<and>
     (\<forall>a. r = Some (Inr a) \<longrightarrow> map (observed J) new \<in> seq S T)"
  proof (cases "\<exists>a. r1 = Some (Inr a)")
    case True
    then obtain a where a: "r1 = Some (Inr a)" by blast
    then have g1: "g a (ms1, c1, w1) = (r, ms', c', w')" using run f1 by (simp add: bind_op_def)
    obtain n2 where n2: "w' = w1 @ n2" "map (observed J) n2 \<in> B"
      "\<And>b. r = Some (Inr b) \<Longrightarrow> map (observed J) n2 \<in> T"
      using emitsD [OF g g1] by metis
    have n1S: "map (observed J) n1 \<in> S" using n1(3) a by blast
    then have "map (observed J) (n1 @ n2) \<in> seq S B"
      using n2(2) by (auto simp: seq_def)
    moreover have "\<forall>b. r = Some (Inr b) \<longrightarrow> map (observed J) (n1 @ n2) \<in> seq S T"
      using n1S n2(3) by (auto simp: seq_def)
    ultimately show ?thesis using n1(1) n2(1) by (intro exI [of _ "n1 @ n2"]) simp
  next
    case False
    then have "w' = w1" "\<not> (\<exists>b. r = Some (Inr b))"
      using run f1 by (cases r1; auto simp: bind_op_def split: sum.splits)+
    then show ?thesis using n1 by auto
  qed
qed

lemma observed_envelope:
  assumes "json_ok J"
  shows "observed J (envelope J cid meth params sid) = (meth, Option.bind (jget J ''url'' params) (as_str J))"
  using json_okD [OF assms]
  by (simp add: observed_def msg_method_def envelope_def split: option.split)

definition call_word :: "string \<Rightarrow> 'j json_api \<Rightarrow> 'j \<Rightarrow> string \<times> string option" where
  "call_word meth J params = (meth, Option.bind (jget J ''url'' params) (as_str J))"

lemma logged_send:
  assumes "logged env"
  obtains
    "client_send (ce_json env) (ce_send env) meth params sid c w =
       (Inr (next_id c), c\<lparr>next_id := next_id c + 1\<rparr>, w @ [envelope (ce_json env) (next_id c) meth params sid])"
  | e where "client_send (ce_json env) (ce_send env) meth params sid c w = (Inl e, c\<lparr>next_id := next_id c + 1\<rparr>, w)"
proof -
  have "ce_send env m w = (None, w @ [m]) \<or> (\<exists>e. ce_send env m w = (Some e, w))" for m
    using assms by (simp add: logged_def)
  from this [of "envelope (ce_json env) (next_id c) meth params sid"] that show thesis
    by (auto simp: client_send_def Let_def)
qed

lemma logged_json: "logged env \<Longrightarrow> json_ok (ce_json env)"
  by (simp add: logged_def)

lemma emits_rpc:
  assumes "logged env" "call_word meth (ce_json env) params = x"
  shows "emits (ce_json env) (rpc env sid meth params) {[], [x]} {[x]}"
proof (rule emitsI)
  fix ms c w r ms' c' w'
  assume run: "rpc env sid meth params (ms, c, w) = (r, ms', c', w')"
  show "\<exists>new. w' = w @ new \<and> map (observed (ce_json env)) new \<in> {[], [x]} \<and>
     (\<forall>a. r = Some (Inr a) \<longrightarrow> map (observed (ce_json env)) new \<in> {[x]})"
  proof (rule logged_send [OF assms(1), of meth params sid c w])
    assume "client_send (ce_json env) (ce_send env) meth params sid c w =
       (Inr (next_id c), c\<lparr>next_id := next_id c + 1\<rparr>, w @ [envelope (ce_json env) (next_id c) meth params sid])"
    then have "w' = w @ [envelope (ce_json env) (next_id c) meth params sid]"
      using run by (auto simp: rpc_def call_on_def split: prod.splits)
    then show ?thesis
      using assms(2) by (simp add: observed_envelope logged_json [OF assms(1)] call_word_def)
  next
    fix e assume "client_send (ce_json env) (ce_send env) meth params sid c w =
       (Inl e, c\<lparr>next_id := next_id c + 1\<rparr>, w)"
    then show ?thesis using run by (auto simp: rpc_def call_on_def)
  qed
qed

lemma emits_emit:
  assumes "logged env" "call_word meth (ce_json env) params = x"
  shows "emits (ce_json env) (emit env sid meth params) {[], [x]} {[x]}"
proof (rule emitsI)
  fix ms c w r ms' c' w'
  assume run: "emit env sid meth params (ms, c, w) = (r, ms', c', w')"
  show "\<exists>new. w' = w @ new \<and> map (observed (ce_json env)) new \<in> {[], [x]} \<and>
     (\<forall>a. r = Some (Inr a) \<longrightarrow> map (observed (ce_json env)) new \<in> {[x]})"
  proof (rule logged_send [OF assms(1), of meth params sid c w])
    assume "client_send (ce_json env) (ce_send env) meth params sid c w =
       (Inr (next_id c), c\<lparr>next_id := next_id c + 1\<rparr>, w @ [envelope (ce_json env) (next_id c) meth params sid])"
    then have "w' = w @ [envelope (ce_json env) (next_id c) meth params sid]"
      using run by (simp add: emit_def)
    then show ?thesis
      using assms(2) by (simp add: observed_envelope logged_json [OF assms(1)] call_word_def)
  next
    fix e assume "client_send (ce_json env) (ce_send env) meth params sid c w =
       (Inl e, c\<lparr>next_id := next_id c + 1\<rparr>, w)"
    then show ?thesis using run by (auto simp: emit_def)
  qed
qed

definition fulfilled :: "string \<times> string option" where
  "fulfilled = (''Fetch.fulfillRequest'', None)"

lemma fulfill_word: "json_ok J \<Longrightarrow> call_word ''Fetch.fulfillRequest'' J (fulfill_params J rid) = fulfilled"
  by (simp add: call_word_def fulfill_params_def json_okD fulfilled_def)

lemma navigate_loop_writes:
  assumes "logged env" "navigate_loop env sid ms c w = (r, ms', c', w')"
  shows "\<exists>new. w' = w @ new \<and> set (map (observed (ce_json env)) new) \<subseteq> {fulfilled}"
  using assms(2)
proof (induction ms arbitrary: c w)
  case (Cons x ms)
  show ?case
  proof (cases x)
    case (Inr m)
    show ?thesis
    proof (cases "msg_method (ce_json env) m = Some ''Fetch.requestPaused''")
      case True
      let ?p = "fulfill_params (ce_json env) (request_id (ce_json env) m)"
      let ?e = "envelope (ce_json env) (next_id c) ''Fetch.fulfillRequest'' ?p (Some sid)"
      show ?thesis
      proof (rule logged_send [OF assms(1), of "''Fetch.fulfillRequest''" ?p "Some sid" c w])
        assume "client_send (ce_json env) (ce_send env) ''Fetch.fulfillRequest'' ?p (Some sid) c w =
          (Inr (next_id c), c\<lparr>next_id := next_id c + 1\<rparr>, w @ [?e])"
        then have "navigate_loop env sid ms (c\<lparr>next_id := next_id c + 1\<rparr>) (w @ [?e]) = (r, ms', c', w')"
          using Cons.prems Inr True by simp
        then obtain new where "w' = (w @ [?e]) @ new" "set (map (observed (ce_json env)) new) \<subseteq> {fulfilled}"
          using Cons.IH by blast
        moreover have "observed (ce_json env) ?e = fulfilled"
          using fulfill_word [OF logged_json [OF assms(1)]]
          by (simp add: observed_envelope logged_json [OF assms(1)] call_word_def)
        ultimately show ?thesis by (intro exI [of _ "?e # new"]) simp
      next
        fix e assume "client_send (ce_json env) (ce_send env) ''Fetch.fulfillRequest'' ?p (Some sid) c w =
          (Inl e, c\<lparr>next_id := next_id c + 1\<rparr>, w)"
        then show ?thesis using Cons.prems Inr True by simp
      qed
    next
      case False
      then show ?thesis using Cons Inr by (auto split: if_splits)
    qed
  qed (use Cons.prems in auto)
qed auto

section \<open>Seeding never reaches the network\<close>

text \<open>
  What a log of observed messages must satisfy: a page is sent to an address other than
  \<open>about:blank\<close> only while requests are intercepted; and the addresses it was sent to, in order.
\<close>

fun sealed_from :: "bool \<Rightarrow> (string \<times> string option) list \<Rightarrow> bool" where
  "sealed_from on [] \<longleftrightarrow> True"
| "sealed_from on (x # xs) \<longleftrightarrow>
     (if fst x = ''Fetch.enable'' then sealed_from True xs
      else if fst x = ''Fetch.disable'' then sealed_from False xs
      else (fst x = ''Page.navigate'' \<and> snd x \<noteq> Some ''about:blank'' \<longrightarrow> on) \<and> sealed_from on xs)"

definition visits :: "(string \<times> string option) list \<Rightarrow> string option list" where
  "visits xs = map snd (filter (\<lambda>x. fst x = ''Page.navigate'') xs)"

definition steady :: "(string \<times> string option) list \<Rightarrow> bool" where
  "steady xs \<longleftrightarrow> (\<forall>x \<in> set xs. fst x \<noteq> ''Fetch.enable'' \<and> fst x \<noteq> ''Fetch.disable'')"

lemma visits_simps [simp]:
  "visits [] = []" "visits (xs @ ys) = visits xs @ visits ys"
  "visits (x # xs) = (if fst x = ''Page.navigate'' then [snd x] else []) @ visits xs"
  by (auto simp: visits_def)

lemma steady_simps [simp]:
  "steady []" "steady (xs @ ys) \<longleftrightarrow> steady xs \<and> steady ys"
  "steady (x # xs) \<longleftrightarrow> fst x \<noteq> ''Fetch.enable'' \<and> fst x \<noteq> ''Fetch.disable'' \<and> steady xs"
  by (auto simp: steady_def)

lemma sealed_append_steady: "steady xs \<Longrightarrow> sealed_from on (xs @ ys) \<longleftrightarrow> sealed_from on xs \<and> sealed_from on ys"
  by (induction xs arbitrary: on) auto

lemma sealed_on_steady: "steady xs \<Longrightarrow> sealed_from True xs"
  by (induction xs) auto

lemma sealed_blank: "steady xs \<Longrightarrow> set (visits xs) \<subseteq> {Some ''about:blank''} \<Longrightarrow> sealed_from on xs"
  by (induction xs arbitrary: on) (auto split: if_splits)

text \<open>An operation whose log is steady and that visits one of the lists \<open>V\<close>, one of \<open>W\<close> on success.\<close>

definition steps_through ::
    "('j, 'j list, 't) cdp_env \<Rightarrow> ('j, 'j list, 'a) cdp_op \<Rightarrow> string option list set
     \<Rightarrow> string option list set \<Rightarrow> bool" where
  "steps_through env op V W \<longleftrightarrow>
     emits (ce_json env) op {xs. steady xs \<and> visits xs \<in> V} {xs. steady xs \<and> visits xs \<in> W}"

lemma steps_through_mono:
  "steps_through env op V W \<Longrightarrow> V \<subseteq> V' \<Longrightarrow> W \<subseteq> W' \<Longrightarrow> steps_through env op V' W'"
  unfolding steps_through_def by (rule emits_mono) auto

lemma steps_through_ret: "steps_through env (ret a) {[]} {[]}"
  unfolding steps_through_def by (rule emits_mono [OF emits_ret]) auto

lemma steps_through_fail: "steps_through env (fail e) {[]} W"
  unfolding steps_through_def by (rule emits_mono [OF emits_fail]) auto

lemma steps_through_bind:
  assumes "steps_through env f V W" "\<And>a. steps_through env (g a) V' W'"
    and "V \<subseteq> U" "seq W V' \<subseteq> U" "seq W W' \<subseteq> Z"
  shows "steps_through env (bind_op f g) U Z"
  unfolding steps_through_def
  by (rule emits_mono [OF emits_bind [OF assms(1) [unfolded steps_through_def] assms(2) [unfolded steps_through_def]]])
     (use assms(3-5) in \<open>auto simp: seq_def; blast\<close>)+

lemma steps_through_rpc:
  assumes "logged env" "meth \<noteq> ''Fetch.enable''" "meth \<noteq> ''Fetch.disable''" "meth \<noteq> ''Page.navigate''"
  shows "steps_through env (rpc env sid meth params) {[]} {[]}"
  unfolding steps_through_def
  by (rule emits_mono [OF emits_rpc [OF assms(1) refl]]) (use assms in \<open>auto simp: call_word_def\<close>)

lemma steps_through_navigate:
  assumes "logged env"
  shows "steps_through env (navigate_stub env sid url) {[], [Some url]} {[Some url]}"
proof -
  have loop: "steps_through env (\<lambda>conv. case conv of (ms, c, w) \<Rightarrow> navigate_loop env sid ms c w) {[]} {[]}"
    unfolding steps_through_def
  proof (rule emitsI)
    fix ms c w r ms' c' w'
    assume "(case (ms, c, w) of (ms, c, w) \<Rightarrow> navigate_loop env sid ms c w) = (r, ms', c', w')"
    then have run: "navigate_loop env sid ms c w = (r, ms', c', w')" by simp
    obtain new where new: "w' = w @ new" "set (map (observed (ce_json env)) new) \<subseteq> {fulfilled}"
      using navigate_loop_writes [OF assms run] by blast
    then have "steady (map (observed (ce_json env)) new)" "visits (map (observed (ce_json env)) new) = []"
      by (auto simp: steady_def visits_def fulfilled_def filter_empty_conv)
    with new(1) show "\<exists>new. w' = w @ new \<and>
        map (observed (ce_json env)) new \<in> {xs. steady xs \<and> visits xs \<in> {[]}} \<and>
        (\<forall>a. r = Some (Inr a) \<longrightarrow> map (observed (ce_json env)) new \<in> {xs. steady xs \<and> visits xs \<in> {[]}})"
      by auto
  qed
  have "call_word ''Page.navigate'' (ce_json env) (jobject (ce_json env) [(''url'', jstring (ce_json env) url)]) =
      (''Page.navigate'', Some url)"
    using logged_json [OF assms] by (simp add: call_word_def json_okD)
  from emits_emit [OF assms this]
  have nav: "steps_through env (emit env (Some sid) ''Page.navigate''
      (jobject (ce_json env) [(''url'', jstring (ce_json env) url)])) {[], [Some url]} {[Some url]}"
    unfolding steps_through_def by (rule emits_mono) auto
  show ?thesis
    unfolding navigate_stub_def by (rule steps_through_bind [OF nav loop]) (auto simp: seq_def)
qed

lemma steps_through_restore:
  assumes "logged env"
  shows "steps_through env (restore_origins env sid os)
     {v. prefix v (map (\<lambda>s. Some (origin s @ ''/'')) os)} {map (\<lambda>s. Some (origin s @ ''/'')) os}"
proof (induction os)
  case Nil
  show ?case by (simp, rule steps_through_mono [OF steps_through_ret]) auto
next
  case (Cons s os)
  let ?vs = "map (\<lambda>s. Some (origin s @ ''/'')) os"
  have ev: "steps_through env (rpc env (Some sid) ''Runtime.evaluate'' ps) {[]} {[]}" for ps
    by (rule steps_through_rpc [OF assms]) simp_all
  have rest: "steps_through env
      (bind_op (rpc env (Some sid) ''Runtime.evaluate'' ps) (\<lambda>_. restore_origins env sid os)) {v. prefix v ?vs} {?vs}" for ps
    by (rule steps_through_bind [OF ev Cons.IH]) (auto simp: seq_def)
  show ?case
    unfolding restore_origins.simps
    by (rule steps_through_bind [OF steps_through_navigate [OF assms] rest]) (auto simp: seq_def)
qed

lemma emits_enable:
  assumes "logged env"
  shows "emits (ce_json env) (enable_interception env sid)
     {[], [(''Page.enable'', None)], [(''Page.enable'', None), (''Fetch.enable'', None)]}
     {[(''Page.enable'', None), (''Fetch.enable'', None)]}"
proof -
  have words: "call_word ''Page.enable'' (ce_json env) (jobject (ce_json env) []) = (''Page.enable'', None)"
    "call_word ''Fetch.enable'' (ce_json env) (jobject (ce_json env) [(''patterns'', ps)]) = (''Fetch.enable'', None)" for ps
    using logged_json [OF assms] by (simp_all add: call_word_def json_okD)
  show ?thesis
    unfolding enable_interception_def
    by (rule emits_mono [OF emits_bind [OF emits_rpc [OF assms words(1)]
          emits_bind [OF emits_rpc [OF assms words(2)] emits_ret]]]) (auto simp: seq_def)
qed

lemma emits_disable:
  assumes "logged env"
  shows "emits (ce_json env) (disable_interception env sid)
     ({[]} \<union> {(''Fetch.disable'', None) # xs | xs. steady xs \<and> set (visits xs) \<subseteq> {Some ''about:blank''}})
     {(''Fetch.disable'', None) # xs | xs. steady xs \<and> visits xs = [Some ''about:blank'']}"
proof -
  have word: "call_word ''Fetch.disable'' (ce_json env) (jobject (ce_json env) []) = (''Fetch.disable'', None)"
    using logged_json [OF assms] by (simp add: call_word_def json_okD)
  show ?thesis
    unfolding disable_interception_def
    by (rule emits_mono [OF emits_bind [OF emits_rpc [OF assms word]
          steps_through_navigate [OF assms, unfolded steps_through_def]]]) (auto simp: seq_def)
qed

text \<open>The addresses a restore visits, the blank page it ends on included.\<close>

definition restore_visits :: "origin_state list \<Rightarrow> string option list" where
  "restore_visits os = (if os = [] then [] else map (\<lambda>s. Some (origin s @ ''/'')) os @ [Some ''about:blank''])"

lemma sealed_phases:
  assumes "steady xs" "steady ys" "set (visits ys) \<subseteq> {Some ''about:blank''}"
  shows "sealed_from True (xs @ (''Fetch.disable'', None) # ys)"
  using assms by (simp add: sealed_on_steady sealed_append_steady sealed_blank)

lemma emits_apply_local_storage:
  assumes "logged env"
  shows "emits (ce_json env) (apply_local_storage env sid os) {xs. sealed_from False xs}
     {xs. sealed_from False xs \<and> visits xs = restore_visits os}"
proof (cases "os = []")
  case True
  then show ?thesis
    unfolding apply_local_storage_def
    by (simp, intro emits_mono [OF emits_ret]) (auto simp: restore_visits_def)
next
  case False
  show ?thesis
    unfolding apply_local_storage_def if_not_P [OF False]
    by (rule emits_mono [OF emits_bind [OF emits_enable [OF assms]
          emits_bind [OF steps_through_restore [OF assms, unfolded steps_through_def]
            emits_bind [OF emits_disable [OF assms] emits_ret]]]])
       (use False in \<open>auto simp: seq_def sealed_phases sealed_on_steady restore_visits_def\<close>)
qed

lemma steps_through_apply_cookies:
  assumes "logged env"
  shows "steps_through env (apply_cookies env cs now) {[]} {[]}"
proof -
  have "steps_through env (rpc env None ''Storage.setCookies'' ps) {[]} {[]}" for ps
    by (rule steps_through_rpc [OF assms]) simp_all
  then have "steps_through env (bind_op (rpc env None ''Storage.setCookies'' ps) (\<lambda>_. ret a)) {[]} {[]}" for ps a
    by (rule steps_through_bind [OF _ steps_through_ret]) (auto simp: seq_def)
  then show ?thesis
    by (auto simp: apply_cookies_def steps_through_ret split: prod.split)
qed

lemma steps_through_first_page:
  assumes "logged env"
  shows "steps_through env (first_page_target env rounds) {[]} {[]}"
proof (induction rounds)
  case Nil
  show ?case by (auto simp: steps_through_def emits_def)
next
  case (Cons late rounds)
  have call: "steps_through env (rpc env None ''Target.getTargets'' ps) {[]} {[]}" for ps
    by (rule steps_through_rpc [OF assms]) simp_all
  have "first_page_target env (late # rounds) = bind_op (rpc env None ''Target.getTargets'' (jobject (ce_json env) []))
     (\<lambda>targets. let page = page_target (ce_json env) targets
        in if page \<noteq> None \<or> late then ret page else first_page_target env rounds)"
    by (rule ext) simp
  then show ?case
    using steps_through_bind [OF call, of
        "\<lambda>targets. let page = page_target (ce_json env) targets
           in if page \<noteq> None \<or> late then ret page else first_page_target env rounds" "{[]}" "{[]}" "{[]}" "{[]}"]
      Cons.IH by (simp add: steps_through_ret seq_def Let_def)
qed

lemma steps_through_attach:
  assumes "logged env"
  shows "steps_through env (attach_page_target env rounds) {[]} {[]}"
proof -
  have call: "steps_through env (rpc env None meth ps) {[]} {[]}"
    if "meth \<in> {''Target.createTarget'', ''Target.attachToTarget''}" for meth ps
    by (rule steps_through_rpc [OF assms]) (use that in auto)
  have unit: "{[]} \<subseteq> {[] :: string option list}" "seq {[]} {[]} \<subseteq> {[] :: string option list}"
    by (auto simp: seq_def)
  have "steps_through env (open_blank_page env) {[]} {[]}"
    unfolding open_blank_page_def
    by (rule steps_through_bind [OF call _ unit(1) unit(2) unit(2)])
       (auto split: option.split simp: steps_through_ret steps_through_fail)
  then show ?thesis
    unfolding attach_page_target_def
    by (intro steps_through_bind [OF steps_through_first_page [OF assms] _ unit(1) unit(2) unit(2)]
          steps_through_bind [OF _ steps_through_bind [OF call _ unit(1) unit(2) unit(2)] unit(1) unit(2) unit(2)])
       (auto split: option.split simp: steps_through_ret steps_through_fail)
qed

text \<open>
  Property C8: seeding a profile never reaches the network. Whatever the browser answers, wherever the
  seeding stops and whether or not the pipe fails, no message written sends the page to an address
  other than about:blank unless interception of its requests is on at that point; and a seeding that
  succeeds has visited each stored origin once, in the stored order, and then the blank page.
\<close>

theorem seeding_stays_offline:
  assumes "logged env" "seed_profile env now rounds p ms w = (r, ms', c', w')"
  shows "\<exists>new. w' = w @ new \<and> sealed_from False (map (observed (ce_json env)) new) \<and>
     (r = Some (Inr ()) \<longrightarrow>
        visits (map (observed (ce_json env)) new) = restore_visits (local_storage p))"
proof -
  let ?op = "bind_op (apply_cookies env (cookies p) now)
       (\<lambda>_. bind_op (attach_page_target env rounds)
          (\<lambda>sid. bind_op (apply_local_storage env sid (local_storage p)) (\<lambda>_. ret ())))"
  have run: "?op (ms, client_new, w) = (r, ms', c', w')"
    using assms(2) by (simp add: seed_profile_def)
  have blank: "set (visits xs) \<subseteq> {Some ''about:blank''}" if "visits xs = []" for xs using that by simp
  have "emits (ce_json env) ?op {xs. sealed_from False xs}
     {xs. sealed_from False xs \<and> visits xs = restore_visits (local_storage p)}"
    by (rule emits_mono [OF emits_bind [OF
          steps_through_apply_cookies [OF assms(1), unfolded steps_through_def]
          emits_bind [OF steps_through_attach [OF assms(1), unfolded steps_through_def]
            emits_bind [OF emits_apply_local_storage [OF assms(1)] emits_ret]]]])
       (auto simp: seq_def sealed_append_steady sealed_blank)
  show ?thesis
  proof (rule emitsD [OF \<open>emits _ _ _ _\<close> run])
    fix new
    assume "w' = w @ new" "map (observed (ce_json env)) new \<in> {xs. sealed_from False xs}"
      "\<And>a. r = Some (Inr a) \<Longrightarrow> map (observed (ce_json env)) new \<in>
         {xs. sealed_from False xs \<and> visits xs = restore_visits (local_storage p)}"
    then show ?thesis by (intro exI [of _ new]) simp
  qed
qed

definition demo_env :: "(json, json list, int) cdp_env" where
  "demo_env =
     \<lparr>ce_json = json_values, ce_send = (\<lambda>m w. (None, w @ [m])), ce_cookies = (\<lambda>_. Inr []),
      ce_params = (\<lambda>_. JNull), ce_entries = (\<lambda>_. Inr []), ce_entries_json = (\<lambda>_. Some ''[]'')\<rparr>"

definition demo_reply :: "int \<Rightarrow> (string \<times> json) list \<Rightarrow> pipe_error + json" where
  "demo_reply n kvs = Inr (JObject [(''id'', JNum n), (''result'', JObject kvs)])"

definition demo_event :: "string \<Rightarrow> pipe_error + json" where
  "demo_event ev = Inr (JObject [(''method'', JString ev)])"

definition demo_browser :: "(pipe_error + json) list" where
  "demo_browser =
     [demo_reply 1 [(''targetInfos'', JArray [JObject [(''type'', JString ''page''), (''targetId'', JString ''t'')]])],
      demo_reply 2 [(''sessionId'', JString ''s'')],
      demo_reply 3 [], demo_reply 4 [],
      demo_event ''Fetch.requestPaused'', demo_event ''Page.loadEventFired'', demo_reply 7 [],
      demo_reply 8 [], demo_event ''Page.loadEventFired'']"

definition demo_profile :: "(int, origin_state, nat) profile_payload" where
  "demo_profile = \<lparr>cookies = [], local_storage = [\<lparr>origin = ''https://a'', entries_of = []\<rparr>], indexeddb = []\<rparr>"

lemma demo_env_logged: "logged demo_env"
  by (simp add: logged_def demo_env_def json_values_ok)

lemma demo_seeding_succeeds:
  "fst (seed_profile demo_env 0 [False] demo_profile demo_browser []) = Some (Inr ())"
  by code_simp

theorem seeding_stays_offline_witness:
  "let log = map (observed json_values) (snd (snd (snd (seed_profile demo_env 0 [False] demo_profile demo_browser []))))
   in sealed_from False log \<and> visits log = [Some ''https://a/'', Some ''about:blank'']"
proof -
  obtain r ms' c' w' where run: "seed_profile demo_env 0 [False] demo_profile demo_browser [] = (r, ms', c', w')"
    by (cases "seed_profile demo_env 0 [False] demo_profile demo_browser []")
  moreover from run have "r = Some (Inr ())" using demo_seeding_succeeds by simp
  ultimately show ?thesis
    using seeding_stays_offline [OF demo_env_logged run]
    by (simp add: demo_env_def restore_visits_def demo_profile_def)
qed

section \<open>Where an operation waits, and whose answer it takes\<close>

text \<open>
  The navigation returns only on the load event: whatever else the browser sends, it waits on, and
  \<^verbatim>\<open>seed_profile\<close> puts no limit on it.
\<close>

lemma navigation_waits_for_load:
  assumes "\<And>m w. fst (ce_send env m w) = None"
    and "list_all (\<lambda>m. msg_method (ce_json env) m \<noteq> Some ''Page.loadEventFired'') msgs"
  shows "fst (navigate_stub env sid url (map Inr msgs, c, w)) = None"
proof -
  have sent: "\<exists>c1 w1. client_send (ce_json env) (ce_send env) meth ps s c w = (Inr (next_id c), c1, w1)"
    for meth ps s c w
    using assms(1) [of "envelope (ce_json env) (next_id c) meth ps s" w]
    by (cases "ce_send env (envelope (ce_json env) (next_id c) meth ps s) w")
       (simp add: client_send_def Let_def)
  have "fst (navigate_loop env sid (map Inr msgs) c w) = None" for c w
    using assms(2)
  proof (induction msgs arbitrary: c w)
    case (Cons m msgs)
    obtain c1 w1 where "client_send (ce_json env) (ce_send env) ''Fetch.fulfillRequest''
        (fulfill_params (ce_json env) (request_id (ce_json env) m)) (Some sid) c w = (Inr (next_id c), c1, w1)"
      using sent by blast
    with Cons show ?case by simp
  qed simp
  moreover obtain c1 w1 where "client_send (ce_json env) (ce_send env) ''Page.navigate''
      (jobject (ce_json env) [(''url'', jstring (ce_json env) url)]) (Some sid) c w = (Inr (next_id c), c1, w1)"
    using sent by blast
  ultimately show ?thesis by (simp add: navigate_stub_def bind_op_def emit_def)
qed

text \<open>
  A client made new over a pipe that has carried another client's commands numbers from 1 again: the
  late reply to that client's first command is taken for the cookies, and without a cookies member
  it reads as no cookies at all.
\<close>

lemma late_reply_taken_as_cookies:
  assumes "\<And>m w. fst (ce_send env m w) = None" "msg_id (ce_json env) late = Some 1"
    and "jget (ce_json env) ''error'' late = None" "jget (ce_json env) ''result'' late = Some v"
    and "jget (ce_json env) ''cookies'' v = None" "ce_cookies env (jarray (ce_json env) []) = Inr []"
  shows "fst (capture_cookies env (Inr late # ms, client_new, w)) = Some (Inr [])"
proof -
  have "\<exists>w1. client_send (ce_json env) (ce_send env) meth ps s client_new w =
     (Inr 1, client_new\<lparr>next_id := next_id client_new + 1\<rparr>, w1)" for meth ps s
    using assms(1) [of "envelope (ce_json env) 1 meth ps s" w]
    by (cases "ce_send env (envelope (ce_json env) 1 meth ps s) w")
       (simp add: client_send_def Let_def client_new_def)
  then obtain w1 where "client_send (ce_json env) (ce_send env) ''Storage.getCookies''
      (jobject (ce_json env) []) None client_new w = (Inr 1, client_new\<lparr>next_id := next_id client_new + 1\<rparr>, w1)"
    by blast
  then show ?thesis
    using assms(2-6)
    by (simp add: capture_cookies_def bind_op_def rpc_def call_on_def await_reply_hit reply_of_def ret_def
          del: await_reply.simps)
qed

section \<open>A browser that answers\<close>

text \<open>
  What a browser has to send for the restoring to end. \<open>replies J k ms\<close>: the last message of \<open>ms\<close> answers
  the command numbered \<open>k\<close> without an error, the ones before it do not answer it. \<open>loads J p ms\<close>: the
  last message is the load event, the first, after \<open>p\<close> paused requests. \<open>answers\<close> puts them
  together for \<open>n\<close> origins from number \<open>k\<close> to number \<open>k'\<close>.
\<close>

definition replies :: "'j json_api \<Rightarrow> u64 \<Rightarrow> 'j list \<Rightarrow> bool" where
  "replies J k ms \<longleftrightarrow>
     (\<exists>noise m. ms = noise @ [m] \<and> list_all (\<lambda>x. msg_id J x \<noteq> Some k) noise \<and>
        msg_id J m = Some k \<and> jget J ''error'' m = None)"

definition loads :: "'j json_api \<Rightarrow> u64 \<Rightarrow> 'j list \<Rightarrow> bool" where
  "loads J p ms \<longleftrightarrow>
     (\<exists>before m. ms = before @ [m] \<and> list_all (\<lambda>x. msg_method J x \<noteq> Some ''Page.loadEventFired'') before \<and>
        msg_method J m = Some ''Page.loadEventFired'' \<and>
        p = of_nat (length (filter (\<lambda>x. msg_method J x = Some ''Fetch.requestPaused'') before)))"

inductive answers :: "'j json_api \<Rightarrow> u64 \<Rightarrow> nat \<Rightarrow> 'j list \<Rightarrow> u64 \<Rightarrow> bool" for J where
  all_answered: "answers J k 0 [] k"
| origin_answered:
    "loads J p a \<Longrightarrow> replies J (k + 1 + p) b \<Longrightarrow> answers J (k + 1 + p + 1) n ms k' \<Longrightarrow>
     answers J k (Suc n) (a @ b @ ms) k'"

definition cooperative :: "'j json_api \<Rightarrow> u64 \<Rightarrow> nat \<Rightarrow> 'j list \<Rightarrow> bool" where
  "cooperative J k n ms \<longleftrightarrow>
     (\<exists>a b c d e k' p. ms = a @ b @ c @ d @ e \<and> replies J k a \<and> replies J (k + 1) b \<and>
        answers J (k + 2) n c k' \<and> replies J k' d \<and> loads J p e)"

definition takes_all :: "('j, 'w, 't) cdp_env \<Rightarrow> bool" where
  "takes_all env \<longleftrightarrow> (\<forall>m w. fst (ce_send env m w) = None)"

lemma takes_all_send:
  assumes "takes_all env"
  obtains w1 where "client_send (ce_json env) (ce_send env) meth ps s c w = (Inr (next_id c), \<lparr>next_id = next_id c + 1\<rparr>, w1)"
proof -
  let ?e = "envelope (ce_json env) (next_id c) meth ps s"
  have "fst (ce_send env ?e w) = None" using assms by (simp add: takes_all_def)
  then obtain w1 where "ce_send env ?e w = (None, w1)" by (cases "ce_send env ?e w") simp
  then show thesis by (intro that [of w1], cases c) (simp add: client_send_def Let_def)
qed

lemma rpc_returns:
  assumes "takes_all env" "replies (ce_json env) (next_id c) ms"
  shows "\<exists>v w'. rpc env sid meth ps (map Inr ms @ rest, c, w) = (Some (Inr v), rest, \<lparr>next_id = next_id c + 1\<rparr>, w')"
proof -
  obtain noise m where m: "ms = noise @ [m]" "list_all (\<lambda>x. msg_id (ce_json env) x \<noteq> Some (next_id c)) noise"
    "msg_id (ce_json env) m = Some (next_id c)" "jget (ce_json env) ''error'' m = None"
    using assms(2) by (auto simp: replies_def)
  obtain w1 where "client_send (ce_json env) (ce_send env) meth ps sid c w = (Inr (next_id c), \<lparr>next_id = next_id c + 1\<rparr>, w1)"
    using takes_all_send [OF assms(1)] by blast
  then show ?thesis
    using m by (simp add: rpc_def call_on_def await_reply_skip await_reply_hit reply_of_def del: await_reply.simps)
qed

lemma navigate_loop_returns:
  assumes "takes_all env"
    and "list_all (\<lambda>x. msg_method (ce_json env) x \<noteq> Some ''Page.loadEventFired'') before"
    and "msg_method (ce_json env) m = Some ''Page.loadEventFired''"
  shows "\<exists>w'. navigate_loop env sid (map Inr before @ Inr m # rest) c w =
     (Some (Inr ()), rest, \<lparr>next_id = next_id c +
        of_nat (length (filter (\<lambda>x. msg_method (ce_json env) x = Some ''Fetch.requestPaused'') before))\<rparr>, w')"
  using assms(2)
proof (induction before arbitrary: c w)
  case Nil
  show ?case using assms(3) by (cases c) simp
next
  case (Cons x before)
  obtain w1 where "client_send (ce_json env) (ce_send env) ''Fetch.fulfillRequest''
      (fulfill_params (ce_json env) (request_id (ce_json env) x)) (Some sid) c w =
      (Inr (next_id c), \<lparr>next_id = next_id c + 1\<rparr>, w1)"
    using takes_all_send [OF assms(1)] by blast
  then show ?case
    using Cons.prems Cons.IH [of "\<lparr>next_id = next_id c + 1\<rparr>" w1] Cons.IH [of c w] by (simp add: add.assoc)
qed

lemma navigate_returns:
  assumes "takes_all env" "loads (ce_json env) p ms"
  shows "\<exists>w'. navigate_stub env sid url (map Inr ms @ rest, c, w) =
     (Some (Inr ()), rest, \<lparr>next_id = next_id c + 1 + p\<rparr>, w')"
proof -
  obtain before m where m: "ms = before @ [m]"
    "list_all (\<lambda>x. msg_method (ce_json env) x \<noteq> Some ''Page.loadEventFired'') before"
    "msg_method (ce_json env) m = Some ''Page.loadEventFired''"
    "p = of_nat (length (filter (\<lambda>x. msg_method (ce_json env) x = Some ''Fetch.requestPaused'') before))"
    using assms(2) by (auto simp: loads_def)
  obtain w1 where "client_send (ce_json env) (ce_send env) ''Page.navigate''
      (jobject (ce_json env) [(''url'', jstring (ce_json env) url)]) (Some sid) c w =
      (Inr (next_id c), \<lparr>next_id = next_id c + 1\<rparr>, w1)"
    using takes_all_send [OF assms(1)] by blast
  then show ?thesis
    using navigate_loop_returns [OF assms(1) m(2,3), of sid rest "\<lparr>next_id = next_id c + 1\<rparr>" w1] m
    by (simp add: navigate_stub_def bind_op_def emit_def)
qed

lemma restore_returns:
  assumes "takes_all env" "answers (ce_json env) k n ms k'" "length os = n" "next_id c = k"
  shows "\<exists>w'. restore_origins env sid os (map Inr ms @ rest, c, w) = (Some (Inr ()), rest, \<lparr>next_id = k'\<rparr>, w')"
  using assms(2-4)
proof (induction arbitrary: os c w)
  case (all_answered k)
  then show ?case by (cases c) (simp add: ret_def)
next
  case (origin_answered p a k b n ms k')
  then obtain s os' where os: "os = s # os'" "length os' = n" by (cases os) auto
  obtain w1 where nav: "navigate_stub env sid (origin s @ ''/'') (map Inr a @ map Inr b @ map Inr ms @ rest, c, w) =
      (Some (Inr ()), map Inr b @ map Inr ms @ rest, \<lparr>next_id = k + 1 + p\<rparr>, w1)"
    using navigate_returns [OF assms(1) origin_answered.hyps(1)] origin_answered.prems(2) by blast
  obtain v w2 where ev: "rpc env (Some sid) ''Runtime.evaluate''
      (evaluate_params (ce_json env) (restore_script env (entries_of s)))
      (map Inr b @ map Inr ms @ rest, \<lparr>next_id = k + 1 + p\<rparr>, w1) =
      (Some (Inr v), map Inr ms @ rest, \<lparr>next_id = k + 1 + p + 1\<rparr>, w2)"
    using rpc_returns [OF assms(1), of "\<lparr>next_id = k + 1 + p\<rparr>" b] origin_answered.hyps(2) by fastforce
  obtain w3 where "restore_origins env sid os' (map Inr ms @ rest, \<lparr>next_id = k + 1 + p + 1\<rparr>, w2) =
      (Some (Inr ()), rest, \<lparr>next_id = k'\<rparr>, w3)"
    using origin_answered.IH [of os' "\<lparr>next_id = k + 1 + p + 1\<rparr>" w2] os by auto
  then show ?case using os nav ev by (simp add: bind_op_def)
qed

text \<open>
  Property C30: restoring a profile's storage ends when the browser answers. With a pipe that takes every
  message and a browser that answers each command and fires the load event of each navigation, with
  any number of paused requests, other events and foreign replies in between, the restore returns
  successfully for every stored origin and has consumed exactly those messages.
\<close>

theorem restoring_completes:
  assumes "takes_all env" "os \<noteq> []" "cooperative (ce_json env) (next_id c) (length os) ms"
  shows "\<exists>c' w'. apply_local_storage env sid os (map Inr ms @ rest, c, w) =
     (Some (Inr (length os)), rest, c', w')"
proof -
  let ?J = "ce_json env" and ?k = "next_id c"
  obtain a b x d e k' p where ms: "ms = a @ b @ x @ d @ e" and parts: "replies ?J ?k a" "replies ?J (?k + 1) b"
      "answers ?J (?k + 2) (length os) x k'" "replies ?J k' d" "loads ?J p e"
    using assms(3) by (auto simp: cooperative_def)
  note rpcs = rpc_returns [OF assms(1)]
  obtain w1 v1 where s1: "rpc env (Some sid) ''Page.enable'' (jobject ?J []) (map Inr a @ map Inr (b @ x @ d @ e) @ rest, c, w) =
      (Some (Inr v1), map Inr (b @ x @ d @ e) @ rest, \<lparr>next_id = ?k + 1\<rparr>, w1)"
    using rpcs [OF parts(1)] by blast
  obtain w2 v2 where s2: "rpc env (Some sid) ''Fetch.enable'' (jobject ?J [(''patterns'', jarray ?J
        [jobject ?J [(''urlPattern'', jstring ?J ''*'')]])]) (map Inr b @ map Inr (x @ d @ e) @ rest, \<lparr>next_id = ?k + 1\<rparr>, w1) =
      (Some (Inr v2), map Inr (x @ d @ e) @ rest, \<lparr>next_id = ?k + 1 + 1\<rparr>, w2)"
    using rpcs [of "\<lparr>next_id = ?k + 1\<rparr>" b, unfolded cdp_client.select_convs, OF parts(2)] by blast
  obtain w3 where s3: "restore_origins env sid os (map Inr x @ map Inr (d @ e) @ rest, \<lparr>next_id = ?k + 1 + 1\<rparr>, w2) =
      (Some (Inr ()), map Inr (d @ e) @ rest, \<lparr>next_id = k'\<rparr>, w3)"
    using restore_returns [OF assms(1) parts(3) refl, of "\<lparr>next_id = ?k + 1 + 1\<rparr>"] by fastforce
  obtain w4 v4 where s4: "rpc env (Some sid) ''Fetch.disable'' (jobject ?J []) (map Inr d @ map Inr e @ rest, \<lparr>next_id = k'\<rparr>, w3) =
      (Some (Inr v4), map Inr e @ rest, \<lparr>next_id = k' + 1\<rparr>, w4)"
    using rpcs [of "\<lparr>next_id = k'\<rparr>" d, unfolded cdp_client.select_convs, OF parts(4)] by blast
  obtain w5 where s5: "navigate_stub env sid ''about:blank'' (map Inr e @ rest, \<lparr>next_id = k' + 1\<rparr>, w4) =
      (Some (Inr ()), rest, \<lparr>next_id = k' + 1 + 1 + p\<rparr>, w5)"
    using navigate_returns [OF assms(1) parts(5), of sid "''about:blank''" rest "\<lparr>next_id = k' + 1\<rparr>" w4] by auto
  show ?thesis
    using s1 s2 s3 s4 s5 assms(2) ms
    by (simp add: apply_local_storage_def enable_interception_def disable_interception_def bind_op_def ret_def)
qed

definition patient_messages :: "json list" where
  "patient_messages =
     [JObject [(''id'', JNum 1)], JObject [(''id'', JNum 2)], JObject [(''method'', JString ''Fetch.requestPaused'')],
      JObject [(''method'', JString ''Page.loadEventFired'')], JObject [(''id'', JNum 5)], JObject [(''id'', JNum 6)],
      JObject [(''method'', JString ''Page.loadEventFired'')]]"

lemma patient_cooperates: "cooperative json_values 1 1 patient_messages"
proof -
  let ?r = "\<lambda>n. JObject [(''id'', JNum n)]" and ?e = "\<lambda>m. JObject [(''method'', JString m)]"
  have r: "replies json_values 1 [?r 1]" "replies json_values (1 + 1) [?r 2]"
    "replies json_values (1 + 2 + 1 + 1) [?r 5]" "replies json_values (1 + 2 + 1 + 1 + 1) [?r 6]"
    by (simp_all add: replies_def msg_id_def json_values_def)
  have l: "loads json_values 1 [?e ''Fetch.requestPaused'', ?e ''Page.loadEventFired'']"
    "loads json_values 0 [?e ''Page.loadEventFired'']"
    by (auto simp: loads_def msg_method_def json_values_def intro!: exI [of _ "[?e ''Fetch.requestPaused'']"])
  have "answers json_values (1 + 2) (Suc 0) ([?e ''Fetch.requestPaused'', ?e ''Page.loadEventFired''] @ [?r 5] @ [])
      (1 + 2 + 1 + 1 + 1)"
    by (rule origin_answered [OF l(1) r(3) all_answered])
  then show ?thesis
    unfolding cooperative_def
    by (intro exI [of _ "[?r 1]"] exI [of _ "[?r 2]"] exI [of _ "[?r 6]"] exI [of _ "[?e ''Page.loadEventFired'']"]
        exI [of _ "[?e ''Fetch.requestPaused'', ?e ''Page.loadEventFired'', ?r 5]"] exI [of _ "1 + 2 + 1 + 1 + 1"] exI [of _ 0])
       (use r l in \<open>simp add: patient_messages_def\<close>)
qed

theorem restoring_completes_witness:
  "\<exists>c' w'. apply_local_storage demo_env ''s'' (local_storage demo_profile) (map Inr patient_messages, client_new, []) =
     (Some (Inr 1), [], c', w')"
proof -
  have "takes_all demo_env" by (simp add: takes_all_def demo_env_def)
  moreover have "local_storage demo_profile \<noteq> []" "length (local_storage demo_profile) = 1"
    by (simp_all add: demo_profile_def)
  moreover have "ce_json demo_env = json_values" "next_id client_new = 1"
    by (simp_all add: demo_env_def client_new_def)
  ultimately show ?thesis
    using restoring_completes [of demo_env "local_storage demo_profile" client_new patient_messages "''s''" "[]" "[]"]
      patient_cooperates by simp
qed

end
