(* ===== verification/Profile_Session.thy ===== *)
theory Profile_Session
  imports Ws Cdp_Profile
begin

text \<open>
  The tasks of \<^verbatim>\<open>src/server/ws.rs\<close> after the upgrade: a pool browser served and destroyed
  (\<^verbatim>\<open>serve_pool_session\<close>), and a profile session seeded, served, read back and deposited
  (\<^verbatim>\<open>profile_session\<close>). The pipe is the writing half of \<open>Cdp_Profile\<close> throughout; what the browser
  sends while the session seeds and while it ends is the environment's. A task that still waits has
  the result \<open>None\<close>.
\<close>

section \<open>Serving the client\<close>

text \<open>How the client's part of a session can go when the window of resumption is off.\<close>

datatype client_run = ShutDown | Bridged "bridge_event list"

definition serve_plain ::
    "('j, 'x) serve_env \<Rightarrow> nat option \<Rightarrow> client_run \<Rightarrow> 'x cdp_pipe \<Rightarrow> 'x cdp_pipe option option" where
  "serve_plain env idle run pipe =
     (case run of
        ShutDown \<Rightarrow> Some None
      | Bridged evs \<Rightarrow> bridge_reclaimable (env_memchr env) (env_write env) idle evs pipe)"

text \<open>\<open>resumable\<close> is the registry and the token when the window is on.\<close>

definition serve_profile ::
    "('j, 'x) serve_env \<Rightarrow> ('h resume_registry \<times> string \<times> 'h) option \<Rightarrow> nat option \<Rightarrow> client_run
     \<Rightarrow> round list \<Rightarrow> 'x cdp_pipe \<Rightarrow> 'x cdp_pipe option option \<times> 'h resume_registry option" where
  "serve_profile env resumable idle run rounds pipe =
     (case resumable of
        Some (registry, resume_token, handoff) \<Rightarrow>
          (let (r, registry1) = Resume.serve env resume_token handoff idle rounds registry pipe
           in (r, Some registry1))
      | None \<Rightarrow> (serve_plain env idle run pipe, None))"

section \<open>The task of a pool browser\<close>

definition pool_session ::
    "'q semaphore_api \<Rightarrow> ('j, 'x) serve_env \<Rightarrow> (string \<times> 'h) option \<Rightarrow> client_run \<Rightarrow> round list \<Rightarrow> bool
     \<Rightarrow> 'x cdp_pipe \<Rightarrow> ('s, 'q, 'p, 'n, 'h) app_state \<Rightarrow> ('s, 'q, 'p, 'n, 'h) app_state option" where
  "pool_session api env resumable run rounds held pipe st =
     (let finish = (\<lambda>st1. release_guard held (st1\<lparr>app_pool := destroy_session_end api (app_pool st1)\<rparr>))
      in case (resumable, app_resume st) of
           (Some (resume_token, handoff), Some registry) \<Rightarrow>
             (case Resume.serve env resume_token handoff (idle_timeout st) rounds registry pipe of
                (None, registry1) \<Rightarrow> None
              | (Some _, registry1) \<Rightarrow> Some (finish (st\<lparr>app_resume := Some registry1\<rparr>)))
         | _ \<Rightarrow>
             (case serve_plain env (idle_timeout st) run pipe of
                None \<Rightarrow> None
              | Some _ \<Rightarrow> Some (finish st)))"

section \<open>The task of a profile\<close>

record ('t, 'i) captured_native =
  native_indexeddb :: "'i list"
  native_local_storage :: "origin_state list"

record ('j, 'x, 't, 'i) profile_env =
  pe_cdp :: "('j, 'x cdp_pipe, 't) cdp_env"
  pe_serve :: "('j, 'x) serve_env"
  pe_idle :: "nat option"
  pe_now_secs :: 't
  pe_page_rounds :: "bool list"
  pe_seed_messages :: "(pipe_error + 'j) list"
  pe_run :: client_run
  pe_rounds :: "round list"
  pe_end_messages :: "(pipe_error + 'j) list"
  pe_native :: "('t, 'i) captured_native"

definition profile_not_loaded :: message where
  "profile_not_loaded =
     Close (Some \<lparr>code = 1011, reason = ''profile could not be loaded; connect again''\<rparr>)"

text \<open>
  What the task has decided when it returns: the payload to deposit or none, and the messages it sent
  to the client itself. The browser is destroyed in every case.
\<close>

datatype ('t, 'i) verdict = NoResult | Capture "('t, origin_state, 'i) profile_payload"

definition read_back ::
    "('j, 'x, 't, 'i) profile_env \<Rightarrow> 'x cdp_pipe \<Rightarrow> ('t, 'i) verdict option" where
  "read_back env pipe =
     (case bind_op (\<lambda>conv. case capture_cookies (pe_cdp env) conv of
                       (None, conv1) \<Rightarrow> (None, conv1)
                     | (Some (Inl e), conv1) \<Rightarrow> (Some (Inr []), conv1)
                     | (Some (Inr cs), conv1) \<Rightarrow> (Some (Inr cs), conv1))
             (\<lambda>cs conv. case emit (pe_cdp env) None ''Browser.close'' (jobject (ce_json (pe_cdp env)) []) conv of
                (_, conv1) \<Rightarrow> (Some (Inr cs), conv1))
             (pe_end_messages env, client_new, pipe) of
        (Some (Inr cs), _) \<Rightarrow>
          Some (Capture \<lparr>cookies = cs, local_storage = native_local_storage (pe_native env),
                  indexeddb = native_indexeddb (pe_native env)\<rparr>)
      | _ \<Rightarrow> None)"

definition profile_session ::
    "('j, 'x, 't::{linorder,zero}, 'i) profile_env \<Rightarrow> bool \<Rightarrow> ('h resume_registry \<times> string \<times> 'h) option
     \<Rightarrow> ('t, origin_state, 'i) profile_payload \<Rightarrow> 'x cdp_pipe option
     \<Rightarrow> ('t, 'i) verdict option \<times> message list \<times> 'h resume_registry option" where
  "profile_session env read_only resumable pl taken =
     (let reg = map_option fst resumable
      in case taken of
           None \<Rightarrow> (Some NoResult, [], reg)
         | Some pipe \<Rightarrow>
             (case seed_profile (pe_cdp env) (pe_now_secs env) (pe_page_rounds env) pl (pe_seed_messages env) pipe of
                (None, _) \<Rightarrow> (None, [], reg)
              | (Some (Inl e), _) \<Rightarrow> (Some NoResult, [profile_not_loaded], reg)
              | (Some (Inr _), _, _, pipe1) \<Rightarrow>
                  (case serve_profile (pe_serve env) resumable (pe_idle env) (pe_run env) (pe_rounds env) pipe1 of
                     (None, reg1) \<Rightarrow> (None, [], reg1)
                   | (Some reclaimed, reg1) \<Rightarrow>
                       (if read_only then (Some NoResult, [], reg1)
                        else case reclaimed of
                               None \<Rightarrow> (Some NoResult, [], reg1)
                             | Some pipe2 \<Rightarrow> (read_back env pipe2, [], reg1)))))"

text \<open>The last step, on the store as it is by then.\<close>

definition settle_token ::
    "nat \<Rightarrow> string \<Rightarrow> ('t, 'i) verdict \<Rightarrow> ('t, origin_state, 'i) profile_payload profile_store
     \<Rightarrow> ('t, origin_state, 'i) profile_payload profile_store" where
  "settle_token now token0 v ps =
     (case v of NoResult \<Rightarrow> finish_without_result token0 ps | Capture p \<Rightarrow> deposit_result now token0 p ps)"

section \<open>How a profile session ends\<close>

text \<open>The parts of a session that decide its end: was it seeded, what did serving it give back.\<close>

definition seeded_pipe ::
    "('j, 'x, 't::{linorder,zero}, 'i) profile_env \<Rightarrow> ('t, origin_state, 'i) profile_payload \<Rightarrow> 'x cdp_pipe option
     \<Rightarrow> 'x cdp_pipe option" where
  "seeded_pipe env pl taken =
     Option.bind taken (\<lambda>pipe.
       case seed_profile (pe_cdp env) (pe_now_secs env) (pe_page_rounds env) pl (pe_seed_messages env) pipe of
         (Some (Inr _), _, _, pipe1) \<Rightarrow> Some pipe1
       | _ \<Rightarrow> None)"

definition returned_pipe ::
    "('j, 'x, 't::{linorder,zero}, 'i) profile_env \<Rightarrow> ('h resume_registry \<times> string \<times> 'h) option
     \<Rightarrow> ('t, origin_state, 'i) profile_payload \<Rightarrow> 'x cdp_pipe option \<Rightarrow> 'x cdp_pipe option" where
  "returned_pipe env resumable pl taken =
     Option.bind (seeded_pipe env pl taken) (\<lambda>pipe1.
       case fst (serve_profile (pe_serve env) resumable (pe_idle env) (pe_run env) (pe_rounds env) pipe1) of
         None \<Rightarrow> None | Some r \<Rightarrow> r)"

lemma read_back_capture:
  "read_back env pipe = Some v \<Longrightarrow>
     \<exists>cs. v = Capture \<lparr>cookies = cs, local_storage = native_local_storage (pe_native env),
                indexeddb = native_indexeddb (pe_native env)\<rparr> \<and>
          fst (capture_cookies (pe_cdp env) (pe_end_messages env, client_new, pipe)) \<in>
            insert (Some (Inr cs)) (if cs = [] then {Some (Inl e) | e. True} else {})"
  by (auto simp: read_back_def bind_op_def split: prod.splits option.splits sum.splits if_splits)

lemma profile_session_cases:
  assumes "profile_session env read_only resumable pl taken = (Some v, closes, reg)"
  obtains (captured) pipe2 where "\<not> read_only" "returned_pipe env resumable pl taken = Some pipe2"
      "read_back env pipe2 = Some v" "closes = []"
  | (nothing) "v = NoResult" "read_only \<or> returned_pipe env resumable pl taken = None"
      "taken \<noteq> None \<and> seeded_pipe env pl taken = None \<longleftrightarrow> closes = [profile_not_loaded]"
      "taken = None \<or> seeded_pipe env pl taken \<noteq> None \<longrightarrow> closes = []"
  using assms
  by (auto simp: profile_session_def returned_pipe_def seeded_pipe_def Let_def
      split: option.splits prod.splits sum.splits if_splits)

lemma settle_in_flight:
  assumes "store_wf ps" "in_flight (map_of (entries ps) token0)"
  shows "map_of (entries (settle_token now token0 v ps)) token0 =
     (case v of NoResult \<Rightarrow> None | Capture p \<Rightarrow> Some \<lparr>eslot = Ready p, at = now\<rparr>)"
  using assms
  by (auto simp: settle_token_def finish_without_result_def deposit_result_def in_flight_def
      delete_conv' update_conv' split: verdict.split)


definition echo_cdp :: "(json, json list cdp_pipe, int) cdp_env" where
  "echo_cdp =
     \<lparr>ce_json = json_values, ce_send = (\<lambda>m pipe. (None, pipe\<lparr>writer := writer pipe @ [m]\<rparr>)),
      ce_cookies = (\<lambda>_. Inr []), ce_params = (\<lambda>_. JNull), ce_entries = (\<lambda>_. Inr []),
      ce_entries_json = (\<lambda>_. Some ''[]'')\<rparr>"

definition demo_session_env :: "(json, json list, int, nat) profile_env" where
  "demo_session_env =
     \<lparr>pe_cdp = echo_cdp,
      pe_serve = \<lparr>env_memchr = (\<lambda>_ _. None), env_write = (\<lambda>w _. (None, w)), env_json = json_values,
                  env_call = (\<lambda>_ _ s. (None, s))\<rparr>,
      pe_idle = None, pe_now_secs = 0, pe_page_rounds = [False], pe_seed_messages = demo_browser,
      pe_run = Bridged [FromClient IncomingEnd], pe_rounds = [],
      pe_end_messages = [demo_reply 1 [(''cookies'', JArray [])]],
      pe_native = \<lparr>native_indexeddb = [5], native_local_storage = local_storage demo_profile\<rparr>\<rparr>"

definition demo_pipe :: "json list cdp_pipe" where
  "demo_pipe = pipe_new [] 10"

definition demo_verdict :: "(int, nat) verdict" where
  "demo_verdict = Capture \<lparr>cookies = [], local_storage = local_storage demo_profile, indexeddb = [5]\<rparr>"

definition no_resume :: "(unit resume_registry \<times> string \<times> unit) option" where
  "no_resume = None"

lemma demo_session_captures:
  "profile_session demo_session_env False no_resume demo_profile (Some demo_pipe) = (Some demo_verdict, [], None)"
  by code_simp

definition flying_store :: "(int, origin_state, nat) profile_payload profile_store" where
  "flying_store = \<lparr>entries = [(''t'', \<lparr>eslot = InFlight, at = 7\<rparr>)], ttl = 1000, max_pending = 4\<rparr>"


text \<open>
  A capture that fails is deposited all the same, with no cookies; and a launch that fails leaves the
  token in use, so that neither a claim nor a pick-up can reach the profile for a day.
\<close>

lemma failed_capture_deposits_no_cookies:
  assumes "fst (capture_cookies (pe_cdp env) (pe_end_messages env, client_new, pipe)) = Some (Inl e)"
  shows "read_back env pipe = Some (Capture \<lparr>cookies = [], local_storage = native_local_storage (pe_native env),
           indexeddb = native_indexeddb (pe_native env)\<rparr>)"
  using assms by (auto simp: read_back_def bind_op_def split: prod.splits)

lemma failed_launch_strands_token:
  assumes "store_wf (profiles st)" "env_seeded env pl relay0 = Inl e"
    and "Profile_Store.claim (env_now env) token0 (profiles st) = (Some pl, ps)"
    and "serve_profile_session env query token0 relay0 held st = (resp, tasks, st')"
  shows "in_flight (map_of (entries (profiles st')) token0) \<and> tasks = [] \<and>
         fst (Profile_Store.claim later token0 (profiles st')) = None \<and>
         fst (pick_up later token0 (profiles st')) = None"
proof -
  have p: "profiles st' = ps" "tasks = []"
    using assms(2-4) by (auto simp: serve_profile_session_def release_guard_def)
  have wf: "store_wf ps"
    using store_step_wf [OF assms(1), of undefined "Claim (env_now env) token0"] assms(3) by (simp add: store_step_def)
  have fl: "map_of (entries ps) token0 = Some \<lparr>eslot = InFlight, at = env_now env\<rparr>"
    using assms(3)
    by (auto simp: Profile_Store.claim_def Let_def update_conv' split: option.splits slot.splits)
  show ?thesis
    using p wf fl claim_result [OF wf, of later token0] pick_up_result [OF wf, of later token0]
    by (simp add: in_flight_def token_sweep_def pending_payload_def ready_payload_def)
qed

section \<open>A pool browser's slot\<close>

lemma claim_browser_takes_one:
  assumes "semaphore_ok api" "claim_browser api opts env relay0 p = (Some (Inr s), stale, p')"
  shows "available_permits api (semaphore p) = Suc (available_permits api (semaphore p'))"
proof -
  obtain r p1 where a: "acquire_slot api opts (env_wake env) p = (r, p1)" by fastforce
  have r: "r = Some SlotTaken"
    using assms(2) a
    by (cases relay0; cases r; cases "the r")
       (auto simp: claim_browser_def Pool.claim_def claim_with_def split: option.splits)
  have same: "semaphore p' = semaphore p1"
    using assms(2) a r
    by (cases relay0)
       (auto simp: claim_browser_def Pool.claim_def claim_with_def claim_warm_eq hand_out_def notify_one_def Let_def
          split: option.splits sum.splits list.splits)
  show ?thesis using acquire_slot_taken [OF assms(1)] a r same by fastforce
qed

lemma pool_task_claimed:
  assumes "ws_handler ct_eq api opts env query hs st = (resp, tasks, st1)" "PoolTask s token0 held \<in> set tasks"
  obtains relay0 stale st0 p where "claim_browser api opts env relay0 (app_pool st) = (Some (Inr s), stale, p)"
    "app_pool st1 = p" "held \<longleftrightarrow> app_single_use st \<noteq> None"
proof -
  consider (served) proxy where "serve_admitted api opts env query proxy st = (resp, tasks, st1)"
    | (other) "PoolTask s token0 held \<notin> set tasks"
    using assms(1)
    by (auto simp: ws_handler_def resume_session_def split: if_splits option.splits sum.splits prod.splits)
  then show thesis
  proof cases
    case served
    then obtain held0 stx relay0 where take: "take_single_use st = (Some held0, stx)"
      and claimed: "serve_claimed api opts env relay0 held0 stx = (resp, tasks, st1)"
      using assms(2)
      by (auto simp: serve_admitted_def serve_profile_session_def Let_def
          split: prod.splits option.splits sum.splits)
    have fields: "app_pool stx = app_pool st" "held0 \<longleftrightarrow> app_single_use st \<noteq> None"
      using take by (auto simp: take_single_use_def Let_def split: option.splits prod.splits if_splits)
    obtain res stale p where c: "claim_browser api opts env relay0 (app_pool stx) = (res, stale, p)"
      by (cases "claim_browser api opts env relay0 (app_pool stx)")
    then have "res = Some (Inr s) \<and> app_pool st1 = p \<and> held0 = held"
      using claimed assms(2)
      by (auto simp: serve_claimed_def Let_def split: option.splits sum.splits if_splits prod.splits)
    then show thesis using that c fields by metis
  qed (use assms(2) in blast)
qed

text \<open>
  Property C9: a session gives back the slot it took. A request that leaves a pool session behind has
  taken one permit; when that session's task ends, however its client and its browser ended and in
  whatever state the instance is by then, one permit is given back and the replenisher is woken; and
  in a single-use instance the task holds the guard, so its end signals the shutdown.
\<close>

theorem session_returns_slot:
  assumes "semaphore_ok api" "ws_handler ct_eq api opts env query hs st = (resp, tasks, st1)"
    and "PoolTask s token0 held \<in> set tasks"
    and "pool_session api senv resumable run rounds held pipe later = Some st2"
  shows "available_permits api (semaphore (app_pool st)) = Suc (available_permits api (semaphore (app_pool st1))) \<and>
         available_permits api (semaphore (app_pool st2)) = Suc (available_permits api (semaphore (app_pool later))) \<and>
         replenish (app_pool st2) \<and>
         (held \<longleftrightarrow> app_single_use st \<noteq> None) \<and>
         (held \<longrightarrow> app_single_use st2 = map_option drop_guard (app_single_use later))"
proof -
  have "app_pool st2 = destroy_session_end api (app_pool later) \<and>
        (held \<longrightarrow> app_single_use st2 = map_option drop_guard (app_single_use later))"
    using assms(4)
    by (auto simp: pool_session_def release_guard_def Let_def split: option.splits prod.splits)
  moreover obtain relay0 stale p where
    "claim_browser api opts env relay0 (app_pool st) = (Some (Inr s), stale, p)" "app_pool st1 = p"
    "held \<longleftrightarrow> app_single_use st \<noteq> None"
    using pool_task_claimed [OF assms(2,3)] by metis
  ultimately show ?thesis
    using claim_browser_takes_one [OF assms(1)]
    by (auto simp: destroy_session_end_def notify_one_def semaphore_okD [OF assms(1)])
qed

lemma calm_tasks:
  "fst (snd (ws_handler (=) counting_semaphore demo_options calm_env (\<lambda>_. None) (\<lambda>_. None) calm_state))
   = [PoolTask 7 None True]"
  using calm_plain
  by (simp add: ws_handler_def plain_request_def requested_proxy_def calm_state_def calm_env_def threads_short_def
      serve_admitted_def take_single_use_def single_use_new_def try_spend_def start_session_relay_def
      serve_claimed_def claim_browser_def Pool.claim_def acquire_slot_def acquire_slot_begin_def pool_new_def
      counting_semaphore_def counting_acquire_def demo_options_def hand_out_def resumable_session_def
      claim_warm_eq Let_def)

definition quiet_env :: "(json, unit) serve_env" where
  "quiet_env = \<lparr>env_memchr = (\<lambda>_ _. None), env_write = (\<lambda>_ w. (None, ())), env_json = json_values,
                env_call = (\<lambda>_ _ s. (None, s))\<rparr>"

lemma quiet_session_ends:
  "\<exists>st2. pool_session counting_semaphore quiet_env None (Bridged [FromClient IncomingEnd]) [] True
     (pipe_new () 10) calm_state = Some st2"
  by (simp add: pool_session_def serve_plain_def bridge_reclaimable_def bridge_session_def bridge_start_def
      pipe_split_def pipe_new_def bridge_step_def pump_client_to_browser_def calm_state_def)

theorem session_returns_slot_witness:
  "\<exists>st2. pool_session counting_semaphore quiet_env None (Bridged [FromClient IncomingEnd]) [] True
           (pipe_new () 10) calm_state = Some st2 \<and>
         available_permits counting_semaphore (semaphore (app_pool st2)) =
           Suc (available_permits counting_semaphore (semaphore (app_pool calm_state))) \<and>
         app_single_use st2 = map_option drop_guard (app_single_use calm_state)"
proof -
  obtain resp tasks st1 where h: "ws_handler (=) counting_semaphore demo_options calm_env (\<lambda>_. None) (\<lambda>_. None) calm_state
      = (resp, tasks, st1)"
    by (cases "ws_handler (=) counting_semaphore demo_options calm_env (\<lambda>_. None) (\<lambda>_. None) calm_state")
  then have t: "PoolTask 7 None True \<in> set tasks" using calm_tasks by simp
  obtain st2 where e: "pool_session counting_semaphore quiet_env None (Bridged [FromClient IncomingEnd]) [] True
      (pipe_new () 10) calm_state = Some st2"
    using quiet_session_ends by blast
  show ?thesis using session_returns_slot [OF counting_semaphore_ok h t e] e by simp
qed

end
