(* ===== verification/Journey.thy ===== *)
theory Journey
  imports Profile_Session
begin

text \<open>
  The way of a profile through the whole instance: dropped off over HTTP (\<open>Http\<close>), taken by the session that
  names its token (\<open>Ws\<close>), loaded into a browser and read back when the session ends (\<open>Profile_Session\<close>), and picked
  up over HTTP. Between the four steps the instance does anything else; of what it does to the profile store only
  the operations on other tokens are assumed (\<open>Profile_Store.spares\<close>).
\<close>

section \<open>The steps on the instance's store\<close>

lemma dropped_off:
  assumes "profile_drop_off ct_eq encode now filled query hs (Some p) st = (r, st1)" "body r = DropOffBody k secs"
  shows "drop_off encode now filled p (profiles st) = (Some k, profiles st1)"
  using assms
  by (cases "drop_off encode now filled p (profiles st)")
    (auto simp: drop_off_answers unauthorized_def respond_def split: if_splits option.splits)

lemma take_single_use_profiles: "take_single_use st = (got, st1) \<Longrightarrow> profiles st1 = profiles st"
  by (auto simp: take_single_use_def Let_def split: option.splits prod.splits)

lemma rejected_status: "status (reject code0 w d) = code0"
  by (simp add: reject_def respond_def)

lemma profile_request_admitted:
  assumes "ws_handler ct_eq api opts env query hs st = (Some r, tasks, st1)" "status r = 101"
    and "query ''resume'' = None"
  obtains proxy where "serve_admitted api opts env query proxy st = (Some r, tasks, st1)"
  using assms
  by (auto simp: ws_handler_def unauthorized_def rejected_status requested_proxy_def respond_def
      split: if_splits option.splits sum.splits)

lemma profile_request_starts:
  assumes "ws_handler ct_eq api opts env query hs st = (Some r, tasks, st1)" "status r = 101"
    and "query ''resume'' = None" "query ''profileToken'' = Some k"
    and "fst (Profile_Store.claim (env_now env) k (profiles st)) = Some p"
  shows "profiles st1 = snd (Profile_Store.claim (env_now env) k (profiles st)) \<and>
     (\<exists>s relay0 token1 held. tasks = [ProfileTask s p k (truthy (query ''readOnly'')) token1 held] \<and>
        env_seeded env p relay0 = Inr s)"
proof -
  obtain proxy where "serve_admitted api opts env query proxy st = (Some r, tasks, st1)"
    using profile_request_admitted [OF assms(1-3)] .
  then obtain held stx relay0 where t: "take_single_use st = (Some held, stx)"
    and s: "serve_profile_session env query k relay0 held stx = (Some r, tasks, st1)"
    using assms(2,4)
    by (auto simp: serve_admitted_def rejected_status proxy_start_refused_def
        split: prod.splits option.splits sum.splits proxy_error.splits)
  obtain ps where c: "Profile_Store.claim (env_now env) k (profiles stx) = (Some p, ps)"
    using assms(5) take_single_use_profiles [OF t]
    by (cases "Profile_Store.claim (env_now env) k (profiles st)") simp
  then show ?thesis
    using s assms(2) take_single_use_profiles [OF t]
    by (cases "env_seeded env p relay0") (auto simp: serve_profile_session_def Let_def rejected_status)
qed

lemma absent_stays:
  assumes "store_wf ps" "map_of (entries ps) k = None" "list_all (spares encode (ttl ps) k e) ops"
  shows "map_of (entries (store_run encode ops ps)) k = None"
  using assms
proof (induction ops arbitrary: ps)
  case (Cons op ops)
  have "map_of (entries (store_step encode op ps)) k = None"
    using Cons.prems by (cases op) (auto simp: store_step_token token_step_def token_sweep_def in_flight_def)
  then show ?case
    using Cons.IH [of "store_step encode op ps"] Cons.prems store_step_wf [OF Cons.prems(1)]
    by (simp add: store_run_def)
qed (simp add: store_run_def)

lemma settle_wf: "store_wf ps \<Longrightarrow> store_wf (settle_token now k v ps) \<and> ttl (settle_token now k v ps) = ttl ps"
proof (cases v)
  case NoResult
  assume "store_wf ps"
  then show ?thesis
    using NoResult store_step_wf [of ps of_bytes "Finish k"] store_step_fields(1) [of of_bytes "Finish k" ps]
    by (simp add: settle_token_def store_step_def)
next
  case (Capture c)
  assume "store_wf ps"
  then show ?thesis
    using Capture store_step_wf [of ps of_bytes "Deposit now k c"] store_step_fields(1) [of of_bytes "Deposit now k c" ps]
    by (simp add: settle_token_def store_step_def)
qed

text \<open>Picking up: the profile once, then nothing.\<close>

lemma pick_up_found:
  assumes "store_wf (profiles st)" "check_auth ct_eq st query hs" "now - t < ttl (profiles st)"
    and "map_of (entries (profiles st)) k = Some \<lparr>eslot = Ready c, at = t\<rparr>"
    and "profile_pick_up ct_eq now k query hs st = (r, st1)"
  shows "r = respond 200 (ProfileBody c) \<and> store_wf (profiles st1) \<and> map_of (entries (profiles st1)) k = None"
proof -
  have sw: "token_sweep (ttl (profiles st)) now (map_of (entries (profiles st)) k) = Some \<lparr>eslot = Ready c, at = t\<rparr>"
    using assms(3,4) by (simp add: token_sweep_def live_def)
  obtain out ps where p: "pick_up now k (profiles st) = (out, ps)" by (meson surj_pair)
  have "out = Some c"
    using pick_up_result [OF assms(1), of now k] sw p by (simp add: ready_payload_def)
  moreover have "map_of (entries ps) k = None" "store_wf ps"
    using store_step_token [OF assms(1), of of_bytes "PickUp now k" k] store_step_wf [OF assms(1), of of_bytes "PickUp now k"] sw p
    by (simp_all add: store_step_def token_step_def ready_payload_def)
  ultimately show ?thesis
    using assms(2,5) p by (simp add: pick_up_answers) auto
qed

lemma pick_up_missing:
  assumes "store_wf (profiles st)" "map_of (entries (profiles st)) k = None"
    and "profile_pick_up ct_eq now k query hs st = (r, st1)"
  shows "r = (if check_auth ct_eq st query hs then respond 404 (ErrorOnly ''no captured profile for token'') else unauthorized)
     \<and> store_wf (profiles st1) \<and> map_of (entries (profiles st1)) k = None"
proof -
  obtain out ps where p: "pick_up now k (profiles st) = (out, ps)" by (meson surj_pair)
  have "out = None"
    using pick_up_result [OF assms(1), of now k] assms(2) p by (simp add: ready_payload_def token_sweep_def)
  moreover have "map_of (entries ps) k = None" "store_wf ps"
    using store_step_token [OF assms(1), of of_bytes "PickUp now k" k] store_step_wf [OF assms(1), of of_bytes "PickUp now k"]
      assms(2) p
    by (simp_all add: store_step_def token_step_def ready_payload_def token_sweep_def)
  ultimately show ?thesis
    using assms p by (auto simp: pick_up_answers split: if_splits)
qed

section \<open>The journey\<close>

text \<open>What is left after the session has settled its token and others went on.\<close>

lemma settled_entry:
  fixes v :: "('t, 'i) verdict"
  assumes "store_wf ps" "map_of (entries ps) k = Some \<lparr>eslot = InFlight, at = t1\<rparr>"
    and "list_all (spares encode (ttl ps) k \<lparr>eslot = InFlight, at = t1\<rparr>) ops2"
    and "list_all (spares encode (ttl ps) k \<lparr>eslot = Ready p, at = t2\<rparr>) ops3"
  defines "ps1 \<equiv> store_run encode ops3 (settle_token t2 k v (store_run encode ops2 ps))"
  shows "store_wf ps1 \<and> ttl ps1 = ttl ps \<and>
     map_of (entries ps1) k = (case v of NoResult \<Rightarrow> None | Capture c \<Rightarrow> Some \<lparr>eslot = Ready c, at = t2\<rparr>)"
proof -
  let ?in = "store_run encode ops2 ps"
  let ?set = "settle_token t2 k v ?in"
  have mid: "store_wf ?in" "map_of (entries ?in) k = Some \<lparr>eslot = InFlight, at = t1\<rparr>"
    using assms(1) spared_entry_stays [OF assms(1-3)] by (simp_all add: store_run_wf)
  have wf: "store_wf ?set" "ttl ?set = ttl ps" using settle_wf [OF mid(1)] by simp_all
  have set: "map_of (entries ?set) k = (case v of NoResult \<Rightarrow> None | Capture c \<Rightarrow> Some \<lparr>eslot = Ready c, at = t2\<rparr>)"
    by (rule settle_in_flight [OF mid(1)]) (simp add: mid(2) in_flight_def)
  have any: "spares encode (ttl ps) k \<lparr>eslot = Ready c, at = t2\<rparr> = spares encode (ttl ps) k \<lparr>eslot = Ready p, at = t2\<rparr>" for c
    by (rule ext, rename_tac op, case_tac op) (simp_all add: live_def)
  have "map_of (entries ps1) k = (case v of NoResult \<Rightarrow> None | Capture c \<Rightarrow> Some \<lparr>eslot = Ready c, at = t2\<rparr>)"
  proof (cases v)
    case NoResult
    then show ?thesis
      using absent_stays [OF wf(1), of k encode "\<lparr>eslot = Ready p, at = t2\<rparr>" ops3] set assms(4) wf(2) by (simp add: ps1_def)
  next
    case (Capture c)
    then show ?thesis
      using spared_entry_stays [OF wf(1), of k "\<lparr>eslot = Ready c, at = t2\<rparr>" encode ops3] set assms(4) any [of c] wf(2)
      by (simp add: ps1_def)
  qed
  then show ?thesis using wf by (simp add: ps1_def store_run_wf)
qed

text \<open>
  Property C5: a profile travels through the instance. Dropped off over HTTP, it is the profile that the session naming its
  token loads: an upgraded request has launched a browser for exactly that profile and left exactly one task, the profile's.
  When the task ends, the pick-up over HTTP returns what the session captured, once, and "not found" when it captured nothing: because
  it was read-only, could not be loaded, or did not give its browser back. Between the four steps anything may happen on other
  tokens, within the times to live.
\<close>

theorem profile_travels:
  assumes "store_wf (profiles st0)"
    and drop: "profile_drop_off ct_eq encode t0 filled query0 hs0 (Some p) st0 = (r0, st1)" "body r0 = DropOffBody k secs"
    and before: "profiles st2 = store_run encode ops1 (profiles st1)"
      "list_all (spares encode (ttl (profiles st0)) k \<lparr>eslot = Pending p, at = t0\<rparr>) ops1"
    and upgrade: "ws_handler ct_eq api opts env query1 hs1 st2 = (Some r1, tasks, st3)" "status r1 = 101"
      "query1 ''resume'' = None" "query1 ''profileToken'' = Some k" "env_now env - t0 < ttl (profiles st0)"
    and session: "profile_session penv (truthy (query1 ''readOnly'')) resumable p taken = (Some v, closes, reg)"
    and meanwhile: "list_all (spares encode (ttl (profiles st0)) k \<lparr>eslot = InFlight, at = env_now env\<rparr>) ops2"
      "list_all (spares encode (ttl (profiles st0)) k \<lparr>eslot = Ready p, at = t2\<rparr>) ops3"
      "profiles st4 = store_run encode ops3 (settle_token t2 k v (store_run encode ops2 (profiles st3)))"
    and pick: "profile_pick_up ct_eq t3 k query2 hs2 st4 = (r2, st5)" "check_auth ct_eq st4 query2 hs2"
      "t3 - t2 < ttl (profiles st0)"
  shows "(\<exists>s relay0 token1 held. tasks = [ProfileTask s p k (truthy (query1 ''readOnly'')) token1 held] \<and>
            env_seeded env p relay0 = Inr s) \<and>
         r2 = (case v of Capture c \<Rightarrow> respond 200 (ProfileBody c)
                 | NoResult \<Rightarrow> respond 404 (ErrorOnly ''no captured profile for token'')) \<and>
         (v = NoResult \<longleftrightarrow> truthy (query1 ''readOnly'') \<or> returned_pipe penv resumable p taken = None) \<and>
         status (fst (profile_pick_up ct_eq t4 k query3 hs3 st5)) \<in> {401, 404}"
proof -
  note d = dropped_off [OF drop]
  have st1: "store_wf (profiles st1)" "map_of (entries (profiles st1)) k = Some \<lparr>eslot = Pending p, at = t0\<rparr>"
    "ttl (profiles st1) = ttl (profiles st0)"
    using drop_off_entry [OF d] drop_off_wf [OF assms(1) d] by simp_all
  have st2: "store_wf (profiles st2)" "map_of (entries (profiles st2)) k = Some \<lparr>eslot = Pending p, at = t0\<rparr>"
    "ttl (profiles st2) = ttl (profiles st0)"
    using st1 before spared_entry_stays [OF st1(1,2), of encode ops1] by (simp_all add: store_run_wf)
  note c = claim_after [OF st2(1,2), of "env_now env"]
  have tasks: "profiles st3 = snd (Profile_Store.claim (env_now env) k (profiles st2)) \<and>
     (\<exists>s relay0 token1 held. tasks = [ProfileTask s p k (truthy (query1 ''readOnly'')) token1 held] \<and>
        env_seeded env p relay0 = Inr s)"
    by (rule profile_request_starts [OF upgrade(1-4)]) (use c st2(3) upgrade(5) in simp)
  then have st3: "store_wf (profiles st3)" "map_of (entries (profiles st3)) k = Some \<lparr>eslot = InFlight, at = env_now env\<rparr>"
    "ttl (profiles st3) = ttl (profiles st0)"
    using c st2(3) upgrade(5) by simp_all
  have st4: "store_wf (profiles st4)" "ttl (profiles st4) = ttl (profiles st0)"
    "map_of (entries (profiles st4)) k = (case v of NoResult \<Rightarrow> None | Capture c \<Rightarrow> Some \<lparr>eslot = Ready c, at = t2\<rparr>)"
    using settled_entry [OF st3(1,2), of encode ops2 p t2 ops3 v] st3(3) meanwhile by simp_all
  have answer: "r2 = (case v of Capture c \<Rightarrow> respond 200 (ProfileBody c)
        | NoResult \<Rightarrow> respond 404 (ErrorOnly ''no captured profile for token'')) \<and>
      store_wf (profiles st5) \<and> map_of (entries (profiles st5)) k = None"
    using pick_up_found [OF st4(1) pick(2) _ _ pick(1)] pick_up_missing [OF st4(1) _ pick(1)] st4(2,3) pick(2,3)
    by (cases v) simp_all
  have "status (fst (profile_pick_up ct_eq t4 k query3 hs3 st5)) \<in> {401, 404}"
    using pick_up_missing [of st5 k ct_eq t4 query3 hs3] answer
    by (cases "profile_pick_up ct_eq t4 k query3 hs3 st5") (simp add: unauthorized_def respond_def)
  moreover have "v = NoResult \<longleftrightarrow> truthy (query1 ''readOnly'') \<or> returned_pipe penv resumable p taken = None"
    using session
  proof (cases rule: profile_session_cases)
    case (captured pipe2)
    then show ?thesis using read_back_capture [OF captured(3)] by auto
  qed simp
  ultimately show ?thesis using tasks answer by blast
qed

section \<open>Beside the pool\<close>

text \<open>
  The pool has no say in a request with a profile token. Whatever the state of the pool, full or closed for the shutdown, the
  answer and the task are the same, and the pool stays as it is; so a draining instance still starts profile sessions, while
  its pressure report gives draining as the reason why it would refuse them.
\<close>

lemma take_single_use_pool:
  "take_single_use (st\<lparr>app_pool := p\<rparr>) = (case take_single_use st of (got, st1) \<Rightarrow> (got, st1\<lparr>app_pool := p\<rparr>))"
  by (simp add: take_single_use_def Let_def split: option.split prod.split)

lemma serve_profile_pool:
  "serve_profile_session env query k relay0 held (st\<lparr>app_pool := p\<rparr>) =
     (case serve_profile_session env query k relay0 held st of (r, tasks, st1) \<Rightarrow> (r, tasks, st1\<lparr>app_pool := p\<rparr>))"
  by (simp add: serve_profile_session_def resumable_session_def release_guard_def Let_def split: option.split prod.split sum.split)

lemma profile_sessions_bypass_pool:
  assumes "query ''resume'' = None" "query ''profileToken'' = Some k"
    and "ws_handler ct_eq api opts env query hs st = (r, tasks, st1)"
  shows "ws_handler ct_eq api opts env query hs (st\<lparr>app_pool := p\<rparr>) = (r, tasks, st1\<lparr>app_pool := p\<rparr>)"
proof -
  have admitted: "serve_admitted api opts env query proxy (st\<lparr>app_pool := p\<rparr>) =
      (case serve_admitted api opts env query proxy st of (r, tasks, st1) \<Rightarrow> (r, tasks, st1\<lparr>app_pool := p\<rparr>))" for proxy
    using assms(2)
    by (simp add: serve_admitted_def take_single_use_pool serve_profile_pool release_guard_def split_beta split: option.split sum.split)
  have "check_auth ct_eq (st\<lparr>app_pool := p\<rparr>) query hs = check_auth ct_eq st query hs"
    "requested_proxy (st\<lparr>app_pool := p\<rparr>) hs = requested_proxy st hs"
    by (simp_all add: check_auth_def requested_proxy_def split: option.split)
  then show ?thesis
    using assms(1,3) by (auto simp: ws_handler_def admitted split: if_splits sum.splits)
qed

section \<open>A journey\<close>

definition travel_state :: "(nat, nat \<times> bool, (int, origin_state, nat) profile_payload, nat, unit) app_state" where
  "travel_state =
     \<lparr>app_pool = pool_new counting_semaphore demo_options,
      app_factory = factory_new demo_config ''chrome'' demo_tiers None None None, app_token = None,
      cpu_load = 10, memory_load = 20, max_cpu_percent = 95, max_memory_percent = 95, external_address = None,
      max_message_bytes = 1000, app_tiers = demo_tiers, capacity_source = ''config'',
      profiles = store_new 100 4, idle_timeout = None, calibrating = False,
      app_single_use = None, app_resume = None, session_proxy = Inr default_relay_options\<rparr>"

definition travel_env :: "(nat, (int, origin_state, nat) profile_payload, nat) ws_env" where
  "travel_env =
     \<lparr>env_threads = None, env_relay = (\<lambda>_ _. Inl Timeout), env_wake = Dropped, env_alive = (\<lambda>_. True),
      env_launch = (\<lambda>r. Inr 7), env_seeded = (\<lambda>_ _. Inr 7), env_transport = (\<lambda>_. True), env_now = 70,
      env_random = Inl ''none'', env_show = show_nat, env_header_ok = (\<lambda>_. True)\<rparr>"

definition travel_query :: query_map where
  "travel_query q = (if q = ''profileToken'' then Some ''k'' else None)"

definition dropped_state :: "(nat, nat \<times> bool, (int, origin_state, nat) profile_payload, nat, unit) app_state" where
  "dropped_state = snd (profile_drop_off (=) of_bytes 60 (Some (as_bytes ''k'')) (\<lambda>_. None) (\<lambda>_. None) (Some demo_profile) travel_state)"

lemma travel_auth: "app_token st = None \<Longrightarrow> check_auth (=) st query (\<lambda>_. None)"
  by (simp add: check_auth_def request_authorized_def authorized_def tokenless_origin_allowed_def)

lemma dropped_state_eq:
  "profile_drop_off (=) of_bytes 60 (Some (as_bytes ''k'')) (\<lambda>_. None) (\<lambda>_. None) (Some demo_profile) travel_state =
     (respond 200 (DropOffBody ''k'' (profile_ttl div 1000)), dropped_state)"
  "profiles dropped_state = \<lparr>entries = [(''k'', \<lparr>eslot = Pending demo_profile, at = 60\<rparr>)], ttl = 100, max_pending = 4\<rparr>"
  using travel_auth [of travel_state]
  by (simp_all add: dropped_state_def drop_off_answers travel_state_def drop_off_def sweep_def store_new_def mint_token_def)

lemma travel_upgrades:
  "\<exists>st3. ws_handler (=) counting_semaphore demo_options travel_env travel_query (\<lambda>_. None) dropped_state =
     (Some upgraded, [ProfileTask 7 demo_profile ''k'' False None False], st3)"
proof -
  have st: "dropped_state = travel_state\<lparr>profiles := profiles dropped_state\<rparr>"
    using travel_auth [of travel_state] by (simp add: dropped_state_def drop_off_answers travel_state_def Let_def split: prod.split)
  have "Profile_Store.claim 70 ''k'' (profiles dropped_state) =
      (Some demo_profile, \<lparr>entries = [(''k'', \<lparr>eslot = InFlight, at = 70\<rparr>)], ttl = 100, max_pending = 4\<rparr>)"
    by (simp add: dropped_state_eq(2) Profile_Store.claim_def sweep_def live_def)
  moreover have "check_auth (=) dropped_state travel_query (\<lambda>_. None)"
    by (rule travel_auth) (subst st, simp add: travel_state_def)
  ultimately show ?thesis
    by (subst (asm) st, subst st)
      (simp add: ws_handler_def travel_query_def requested_proxy_def travel_state_def travel_env_def threads_short_def
        serve_admitted_def take_single_use_def start_session_relay_def serve_profile_session_def resumable_session_def
        with_proxy_applied_def with_resume_header_def truthy_def)
qed

theorem profile_travels_witness:
  "\<exists>st3 st5. ws_handler (=) counting_semaphore demo_options travel_env travel_query (\<lambda>_. None) dropped_state =
       (Some upgraded, [ProfileTask 7 demo_profile ''k'' False None False], st3) \<and>
     profile_pick_up (=) 90 ''k'' (\<lambda>_. None) (\<lambda>_. None)
         (travel_state\<lparr>profiles := settle_token 80 ''k'' demo_verdict (profiles st3)\<rparr>) =
       (respond 200 (ProfileBody \<lparr>cookies = [], local_storage = local_storage demo_profile, indexeddb = [5]\<rparr>), st5)"
proof -
  obtain st3 where w: "ws_handler (=) counting_semaphore demo_options travel_env travel_query (\<lambda>_. None) dropped_state =
     (Some upgraded, [ProfileTask 7 demo_profile ''k'' False None False], st3)"
    using travel_upgrades by blast
  let ?st4 = "travel_state\<lparr>profiles := settle_token 80 ''k'' demo_verdict (profiles st3)\<rparr>"
  obtain r5 st5 where p: "profile_pick_up (=) 90 ''k'' (\<lambda>_. None) (\<lambda>_. None) ?st4 = (r5, st5)"
    by (meson surj_pair)
  have "r5 = (case demo_verdict of Capture c \<Rightarrow> respond 200 (ProfileBody c)
                 | NoResult \<Rightarrow> respond 404 (ErrorOnly ''no captured profile for token''))"
    using profile_travels [OF _ dropped_state_eq(1) _ _ _ w, of "''k''" "profile_ttl div 1000" "[]" demo_session_env no_resume
        "Some demo_pipe" demo_verdict "[]" None "[]" 80 "[]" ?st4, OF _ _ _ _ _ _ _ _ _ _ _ _ p]
      demo_session_captures travel_auth [of ?st4]
    by (simp add: travel_state_def store_wf_def store_new_def respond_def store_run_def upgraded_def travel_query_def
        travel_env_def truthy_def)
  then show ?thesis using w p by (auto simp: demo_verdict_def)
qed

end
