(* ===== verification/Local_Storage.thy ===== *)
theory Local_Storage
  imports Cdp_Profile "HOL-Library.Char_ord" "HOL-Library.List_Lexorder"
begin

text \<open>
  \<^verbatim>\<open>src/profile/localstorage.rs\<close>: the local storage of every origin, read from a dead browser's LevelDB
  or SQLite store. The two database engines and the decompressors are crates: the records they yield
  and what they decompress are arguments. A Rust string is the list of its UTF-8 bytes.
\<close>

section \<open>Text encodings\<close>

text \<open>\<^verbatim>\<open>String::from_utf16\<close>: an unpaired surrogate is an error.\<close>

definition is_high :: "nat \<Rightarrow> bool" where "is_high u \<longleftrightarrow> 0xD800 \<le> u \<and> u < 0xDC00"
definition is_low :: "nat \<Rightarrow> bool" where "is_low u \<longleftrightarrow> 0xDC00 \<le> u \<and> u < 0xE000"

fun code_points :: "nat list \<Rightarrow> nat list option" where
  "code_points [] = Some []"
| "code_points [u] = (if is_high u \<or> is_low u then None else Some [u])"
| "code_points (u # v # us) =
     (if is_high u then
        (if is_low v then map_option ((#) (0x10000 + (u - 0xD800) * 0x400 + (v - 0xDC00))) (code_points us)
         else None)
      else if is_low u then None
      else map_option ((#) u) (code_points (v # us)))"

fun units_le :: "bytes \<Rightarrow> nat list" where
  "units_le (a # b # bs) = (unat a + 256 * unat b) # units_le bs"
| "units_le _ = []"

definition decode_string :: "bytes \<Rightarrow> string option" where
  "decode_string encoded =
     (case encoded of
        [] \<Rightarrow> None
      | encoding # bs \<Rightarrow>
          (if encoding = 0 then
             (if odd (length bs) then None
              else map_option (\<lambda>cs. concat (map utf8_encode cs)) (code_points (units_le bs)))
           else if encoding = 1 then Some (concat (map (\<lambda>b. utf8_encode (unat b)) bs))
           else None))"

section \<open>Records\<close>

definition parse_data_key :: "bytes \<Rightarrow> (string \<times> string) option" where
  "parse_data_key key =
     (case key of
        [] \<Rightarrow> None
      | c # rest \<Rightarrow>
          (if c \<noteq> 0x5F \<or> 0 \<notin> set rest then None
           else
             (let origin0 = of_bytes (takeWhile (\<lambda>b. b \<noteq> 0) rest)
              in if \<not> utf8_valid origin0 \<or> CHR ''^'' \<in> set origin0 then None
                 else map_option (Pair origin0) (decode_string (tl (dropWhile (\<lambda>b. b \<noteq> 0) rest))))))"

definition origin_from_storage_key :: "bytes \<Rightarrow> string option" where
  "origin_from_storage_key storage_key =
     (let serialized = of_bytes storage_key
      in if \<not> utf8_valid serialized \<or> CHR ''^'' \<in> set serialized then None
         else Some (case strip_suffix serialized ''/'' of Some s \<Rightarrow> s | None \<Rightarrow> serialized))"

text \<open>The two decompressors are arguments.\<close>

definition decompress :: "(bytes \<Rightarrow> bytes option) \<Rightarrow> (bytes \<Rightarrow> bytes option) \<Rightarrow> int \<Rightarrow> bytes \<Rightarrow> bytes option" where
  "decompress zstd snappy compression v =
     (if compression = 0 then Some v
      else if compression = 1 then zstd v
      else if compression = 2 then snappy v
      else None)"

section \<open>Grouping by origin\<close>

text \<open>The ordered map from origins to entries: insertion at the key's place.\<close>

fun push_entry :: "string \<Rightarrow> storage_entry \<Rightarrow> (string \<times> storage_entry list) list \<Rightarrow> (string \<times> storage_entry list) list" where
  "push_entry k v [] = [(k, [v])]"
| "push_entry k v ((k', vs) # m) =
     (if k = k' then (k', vs @ [v]) # m
      else if k < k' then (k, [v]) # (k', vs) # m
      else (k', vs) # push_entry k v m)"

definition group_entries :: "(string \<times> storage_entry) list \<Rightarrow> origin_state list" where
  "group_entries recs =
     map (\<lambda>(k, vs). \<lparr>origin = k, entries_of = vs\<rparr>) (fold (\<lambda>(k, v). push_entry k v) recs [])"

definition leveldb_record :: "bytes \<times> bytes \<Rightarrow> (string \<times> storage_entry) option" where
  "leveldb_record r =
     Option.bind (parse_data_key (fst r)) (\<lambda>(origin0, name0).
       map_option (\<lambda>v. (origin0, \<lparr>entry_name = name0, entry_value = v\<rparr>)) (decode_string (snd r)))"

text \<open>\<open>None\<close> when the store is absent or cannot be opened.\<close>

definition read_local_storage :: "(bytes \<times> bytes) list option \<Rightarrow> origin_state list" where
  "read_local_storage recs =
     (case recs of None \<Rightarrow> [] | Some rs \<Rightarrow> group_entries (List.map_filter leveldb_record rs))"

record sqlite_row =
  row_storage_key :: bytes
  row_key :: bytes
  row_compression :: int
  row_value :: bytes

definition sqlite_record ::
    "(bytes \<Rightarrow> bytes option) \<Rightarrow> (bytes \<Rightarrow> bytes option) \<Rightarrow> sqlite_row \<Rightarrow> (string \<times> storage_entry) option" where
  "sqlite_record zstd snappy r =
     Option.bind (origin_from_storage_key (row_storage_key r)) (\<lambda>origin0.
     Option.bind (decompress zstd snappy (row_compression r) (row_value r)) (\<lambda>raw.
     Option.bind (decode_string (row_key r)) (\<lambda>name0.
       map_option (\<lambda>v. (origin0, \<lparr>entry_name = name0, entry_value = v\<rparr>)) (decode_string raw))))"

text \<open>The rows of the query, the first failing one ending the reading with an error.\<close>

definition read_sqlite ::
    "(bytes \<Rightarrow> bytes option) \<Rightarrow> (bytes \<Rightarrow> bytes option) \<Rightarrow> string + (string + sqlite_row) list
     \<Rightarrow> string + origin_state list" where
  "read_sqlite zstd snappy opened =
     (case opened of
        Inl e \<Rightarrow> Inl e
      | Inr rows \<Rightarrow>
          (case List.find isl rows of
             Some bad \<Rightarrow> Inl (projl bad)
           | None \<Rightarrow> Inr (group_entries (List.map_filter (sqlite_record zstd snappy) (map projr rows)))))"

definition read_local_storage_sqlite ::
    "(bytes \<Rightarrow> bytes option) \<Rightarrow> (bytes \<Rightarrow> bytes option) \<Rightarrow> string + (string + sqlite_row) list
     \<Rightarrow> origin_state list" where
  "read_local_storage_sqlite zstd snappy opened =
     (case read_sqlite zstd snappy opened of Inl e \<Rightarrow> [] | Inr os \<Rightarrow> os)"

text \<open>The SQLite store is read when its file is there, the LevelDB store otherwise.\<close>

definition read_profile_local_storage ::
    "(bytes \<Rightarrow> bytes option) \<Rightarrow> (bytes \<Rightarrow> bytes option) \<Rightarrow> (string + (string + sqlite_row) list) option
     \<Rightarrow> (bytes \<times> bytes) list option \<Rightarrow> origin_state list" where
  "read_profile_local_storage zstd snappy sqlite leveldb =
     (case sqlite of
        Some opened \<Rightarrow> read_local_storage_sqlite zstd snappy opened
      | None \<Rightarrow> read_local_storage leveldb)"

section \<open>Decoding inverts encoding\<close>

definition scalar :: "nat \<Rightarrow> bool" where
  "scalar c \<longleftrightarrow> c < 0xD800 \<or> 0xE000 \<le> c \<and> c < 0x110000"

text \<open>The encodings as Chrome writes them.\<close>

definition utf16_units :: "nat \<Rightarrow> nat list" where
  "utf16_units c =
     (if c < 0x10000 then [c] else [0xD800 + (c - 0x10000) div 0x400, 0xDC00 + (c - 0x10000) mod 0x400])"

definition utf16_bytes :: "nat list \<Rightarrow> bytes" where
  "utf16_bytes cs = concat (map (\<lambda>u. [of_nat (u mod 256), of_nat (u div 256)]) (concat (map utf16_units cs)))"

definition encode_utf16 :: "nat list \<Rightarrow> bytes" where
  "encode_utf16 cs = 0 # utf16_bytes cs"

definition encode_latin1 :: "nat list \<Rightarrow> bytes" where
  "encode_latin1 cs = 1 # map of_nat cs"

lemma units_le_inverse:
  "\<forall>u \<in> set us. u < 65536 \<Longrightarrow> units_le (concat (map (\<lambda>u. [of_nat (u mod 256), of_nat (u div 256)]) us)) = us"
proof (induction us)
  case (Cons u us)
  have b: "unat (of_nat k :: u8) = k" if "k < 256" for k
    using that by (simp add: unat_of_nat take_bit_nat_eq_self)
  have "u div 256 < 256" using Cons.prems by (simp add: less_mult_imp_div_less)
  then show ?case using Cons b by simp
qed simp

lemma code_points_scalar:
  assumes "scalar c"
  shows "code_points (utf16_units c @ us) = map_option ((#) c) (code_points us)"
proof (cases "c < 0x10000")
  case True
  then have "\<not> is_high c" "\<not> is_low c" using assms by (auto simp: scalar_def is_high_def is_low_def)
  then show ?thesis using True by (cases us) (simp_all add: utf16_units_def)
next
  case False
  define d where "d = c - 0x10000"
  have d: "c = 0x10000 + d" "d < 0x100000" using assms False by (auto simp: scalar_def d_def)
  have "d div 0x400 < 0x400" using d(2) by (simp add: less_mult_imp_div_less)
  then have "is_high (0xD800 + d div 0x400)" "is_low (0xDC00 + d mod 0x400)"
    by (simp_all add: is_high_def is_low_def)
  moreover have "0x10000 + d div 0x400 * 0x400 + d mod 0x400 = c" using d(1) by (simp add: mult.commute)
  ultimately show ?thesis using False by (simp add: utf16_units_def d_def)
qed

lemma code_points_text: "\<forall>c \<in> set cs. scalar c \<Longrightarrow> code_points (concat (map utf16_units cs)) = Some cs"
  by (induction cs) (simp_all add: code_points_scalar)

lemma decode_latin1:
  assumes "\<forall>c \<in> set cs. c < 256"
  shows "decode_string (encode_latin1 cs) = Some (concat (map utf8_encode cs))"
proof -
  have "concat (map (\<lambda>b. utf8_encode (unat b)) (map of_nat cs :: u8 list)) = concat (map utf8_encode cs)"
    using assms by (induction cs) (simp_all add: unat_of_nat take_bit_nat_eq_self)
  then show ?thesis by (simp only: decode_string_def encode_latin1_def) simp
qed

text \<open>
  The stored text is read back as it was written. Any text (a sequence of Unicode scalar
  values) decodes from Chrome's UTF-16 form to its UTF-8 form, and any text of the first 256 characters
  also from the Latin-1 form; a record with an unknown encoding byte, an odd number of UTF-16 bytes or
  no encoding byte at all is not text.
\<close>

theorem stored_text_round_trip:
  assumes "\<forall>c \<in> set cs. scalar c"
  shows "decode_string (encode_utf16 cs) = Some (concat (map utf8_encode cs)) \<and>
     ((\<forall>c \<in> set cs. c < 256) \<longrightarrow> decode_string (encode_latin1 cs) = Some (concat (map utf8_encode cs))) \<and>
     decode_string [] = None \<and> (\<forall>e bs. 1 < e \<longrightarrow> decode_string (e # bs) = None) \<and>
     (\<forall>bs. odd (length bs) \<longrightarrow> decode_string (0 # bs) = None)"
proof -
  have small: "u < 65536" if "u \<in> set (utf16_units c)" "scalar c" for u c
    using that by (auto simp: utf16_units_def scalar_def less_mult_imp_div_less split: if_splits)
  have "even (length (concat (map (\<lambda>u. [of_nat (u mod 256), of_nat (u div 256)]) us)))" for us :: "nat list"
    by (induction us) auto
  then have "even (length (utf16_bytes cs))" by (simp only: utf16_bytes_def)
  moreover have "units_le (utf16_bytes cs) = concat (map utf16_units cs)"
    unfolding utf16_bytes_def using small assms by (intro units_le_inverse) auto
  ultimately show ?thesis
    using code_points_text [OF assms] decode_latin1 [of cs]
    by (auto simp: decode_string_def [of "encode_utf16 cs"] decode_string_def [of "[]"] decode_string_def [of "_ # _"]
        encode_utf16_def encode_latin1_def)
qed

theorem stored_text_round_trip_witness:
  "decode_string (encode_utf16 [97, 233, 128512]) = Some (utf8_encode 97 @ utf8_encode 233 @ utf8_encode 128512) \<and>
   length (utf8_encode 97 @ utf8_encode 233 @ utf8_encode 128512) = 7"
proof -
  have "\<forall>c \<in> set [97, 233, 128512]. scalar c" by (simp add: scalar_def)
  from stored_text_round_trip [OF this] show ?thesis by (simp add: utf8_encode_def)
qed

section \<open>Every origin, once, in order\<close>

lemma push_entry_keys: "fst ` set (push_entry k v m) = insert k (fst ` set m)"
  by (induction k v m rule: push_entry.induct) auto

lemma push_entry_sorted: "sorted_wrt (<) (map fst m) \<Longrightarrow> sorted_wrt (<) (map fst (push_entry k v m))"
proof (induction k v m rule: push_entry.induct)
  case (2 k v k' vs m)
  show ?case
  proof (cases k k' rule: linorder_cases)
    case greater
    then have "\<forall>x \<in> fst ` set (push_entry k v m). k' < x"
      using 2(2) by (auto simp: push_entry_keys)
    then show ?thesis using greater 2 by auto
  qed (use 2 in \<open>auto dest: less_trans\<close>)
qed simp

lemma push_entry_lookup:
  "sorted_wrt (<) (map fst m) \<Longrightarrow>
   map_of (push_entry k v m) = (map_of m)(k \<mapsto> (case map_of m k of None \<Rightarrow> [] | Some vs \<Rightarrow> vs) @ [v])"
proof (induction k v m rule: push_entry.induct)
  case (2 k v k' vs m)
  show ?case
  proof (cases k k' rule: linorder_cases)
    case less
    then have "k \<notin> fst ` set m" using 2(2) by (auto dest: less_asym)
    then have "map_of m k = None" by (simp add: map_of_eq_None_iff)
    then show ?thesis using less by auto
  qed (use 2 in auto)
qed simp

lemma group_fold:
  assumes "sorted_wrt (<) (map fst m)"
  shows "sorted_wrt (<) (map fst (fold (\<lambda>(k, v). push_entry k v) recs m)) \<and>
     (\<forall>k. map_of (fold (\<lambda>(k, v). push_entry k v) recs m) k =
        (case (case map_of m k of None \<Rightarrow> [] | Some vs \<Rightarrow> vs) @ map snd (filter (\<lambda>r. fst r = k) recs) of
           [] \<Rightarrow> map_of m k | vs \<Rightarrow> Some vs))"
  using assms
proof (induction recs arbitrary: m)
  case (Cons r recs)
  obtain k v where r: "r = (k, v)" by (cases r)
  show ?case
    using Cons.IH [OF push_entry_sorted [OF Cons.prems], of k v] Cons.prems r
    by (auto simp: push_entry_lookup split: option.splits list.splits)
qed (auto split: option.splits list.splits)

lemma data_key_no_caret: "parse_data_key key = Some (o', n) \<Longrightarrow> CHR ''^'' \<notin> set o'"
  unfolding parse_data_key_def Let_def
  by (simp only: split: list.split_asm if_split_asm) (simp_all del: set_takeWhileD, blast?)

lemma record_no_caret: "leveldb_record r = Some (k, e) \<Longrightarrow> CHR ''^'' \<notin> set k"
  by (auto simp: leveldb_record_def bind_eq_Some_conv dest: data_key_no_caret)

lemma readable_no_caret: "k \<in> fst ` set (List.map_filter leveldb_record recs) \<Longrightarrow> CHR ''^'' \<notin> set k"
  by (induction recs) (auto simp: List.map_filter_simps dest: record_no_caret split: option.splits)

text \<open>
  Property C33: every first-party origin is read, once, in order. From a LevelDB store that opens, the
  result has one element per origin with a readable record, the origins strictly ascending, and each
  element holds exactly the origin's readable records in the order of the store; partitioned keys,
  which carry a caret, never appear.
\<close>

theorem origins_read_once:
  assumes "os = read_local_storage (Some recs)" "readable = List.map_filter leveldb_record recs"
  shows "sorted_wrt (<) (map origin os) \<and> set (map origin os) = fst ` set readable \<and>
     (\<forall>s \<in> set os. entries_of s = map snd (filter (\<lambda>r. fst r = origin s) readable) \<and>
        CHR ''^'' \<notin> set (origin s))"
proof -
  let ?m = "fold (\<lambda>(k, v). push_entry k v) readable []"
  have m: "sorted_wrt (<) (map fst ?m)"
    "map_of ?m k = (case map snd (filter (\<lambda>r. fst r = k) readable) of [] \<Rightarrow> None | vs \<Rightarrow> Some vs)" for k
    using group_fold [of "[]" readable] by (auto split: list.splits)
  have os: "os = map (\<lambda>(k, vs). \<lparr>origin = k, entries_of = vs\<rparr>) ?m"
    by (simp add: assms read_local_storage_def group_entries_def)
  have origins: "map origin os = map fst ?m" by (simp add: os split_beta comp_def)
  have dist: "distinct (map fst ?m)" using m(1) by (simp add: strict_sorted_iff)
  have keys: "fst ` set ?m = fst ` set readable"
  proof -
    have "k \<in> fst ` set ?m \<longleftrightarrow> map_of ?m k \<noteq> None" for k by (simp add: map_of_eq_None_iff)
    also have "\<dots> k \<longleftrightarrow> k \<in> fst ` set readable" for k
    proof -
      have "filter (\<lambda>r. fst r = k) readable = [] \<longleftrightarrow> k \<notin> fst ` set readable"
        by (auto simp: filter_empty_conv)
      then show ?thesis
        by (cases "map snd (filter (\<lambda>r. fst r = k) readable)") (auto simp: m(2))
    qed
    finally show ?thesis by blast
  qed
  have caret: "CHR ''^'' \<notin> set k" if "k \<in> fst ` set readable" for k
    using that readable_no_caret by (simp add: assms(2))
  have "entries_of s = map snd (filter (\<lambda>r. fst r = origin s) readable) \<and> CHR ''^'' \<notin> set (origin s)"
    if s: "s \<in> set os" for s
  proof -
    obtain k vs where kv: "(k, vs) \<in> set ?m" "s = \<lparr>origin = k, entries_of = vs\<rparr>" using s os by auto
    then have "map_of ?m k = Some vs" using dist by simp
    then have "vs = map snd (filter (\<lambda>r. fst r = k) readable)" by (auto simp: m(2) split: list.splits)
    moreover have "k \<in> fst ` set readable" using kv(1) keys by force
    ultimately show ?thesis using kv(2) caret by simp
  qed
  then show ?thesis using m(1) origins keys by (simp only: list.set_map) blast
qed

theorem origins_read_once_witness:
  "map origin (read_local_storage (Some
     [(as_bytes ''_https://b'' @ [0, 1] @ as_bytes ''k'', [1] @ as_bytes ''v''),
      (as_bytes ''_https://a'' @ [0, 1] @ as_bytes ''x'', [1] @ as_bytes ''y''),
      (as_bytes ''VERSION'', [1]),
      (as_bytes ''_https://b'' @ [0, 1] @ as_bytes ''l'', [1])])) = [''https://a'', ''https://b'']"
proof -
  let ?recs = "[(as_bytes ''_https://b'' @ [0, 1] @ as_bytes ''k'', [1] @ as_bytes ''v''),
      (as_bytes ''_https://a'' @ [0, 1] @ as_bytes ''x'', [1] @ as_bytes ''y''),
      (as_bytes ''VERSION'', [1]),
      (as_bytes ''_https://b'' @ [0, 1] @ as_bytes ''l'', [1])]"
  have "fst ` set (List.map_filter leveldb_record ?recs) = {''https://a'', ''https://b''}" by code_simp
  then have "sorted_wrt (<) (map origin (read_local_storage (Some ?recs)))"
    "set (map origin (read_local_storage (Some ?recs))) = set [''https://a'', ''https://b'']"
    using origins_read_once [OF refl refl, of ?recs] by simp_all
  moreover have "sorted_wrt (<) [''https://a'', ''https://b'']" by simp
  ultimately show ?thesis by (rule strict_sorted_equal [rotated 1])
qed

end
