(* ===== verification/File_System.thy ===== *)
theory File_System
  imports Head "HOL-Library.Sublist"
begin

text \<open>
  The file system as far as the profile code uses it. A tree that is written to is a map from
  absolute paths (lists of names) to entries; the operations are those of Rust's standard library. Where
  the operating system may refuse, its answer is an argument. A run that would go through a symbolic
  link stops with \<open>FollowsLink\<close>: where it continues is not modelled. A tree that is only read is a
  \<open>node\<close>, whose links carry what they point at.
\<close>

section \<open>Paths\<close>

type_synonym path = "string list"

datatype component = RootDir | CurDir | ParentDir | Normal string

text \<open>
  \<^verbatim>\<open>Path::components\<close> on Unix: empty parts are skipped, and so is a single dot unless the path begins with
  it.
\<close>

definition part_component :: "string \<Rightarrow> component list" where
  "part_component p =
     (if p = [] \<or> p = ''.'' then [] else if p = ''..'' then [ParentDir] else [Normal p])"

definition is_absolute :: "string \<Rightarrow> bool" where
  "is_absolute s \<longleftrightarrow> starts_with s ''/''"

definition components :: "string \<Rightarrow> component list" where
  "components s =
     (let parts = split_on s (CHR ''/'')
      in (if is_absolute s then [RootDir] else if hd parts = ''.'' then [CurDir] else []) @
         concat (map part_component parts))"

section \<open>A tree that is written to\<close>

datatype fs_entry = DirE | FileE bytes | LinkE

datatype fs_error = NotFound | AlreadyExists | NotADirectory | OtherFs string

type_synonym fs = "path \<Rightarrow> fs_entry option"

datatype outcome = Ok | Failed fs_error | FollowsLink

text \<open>What the operating system refuses: to create an entry, to write beyond some bytes of a file.\<close>

record disk =
  refuses_create :: "path \<Rightarrow> fs_error option"
  refuses_write :: "path \<Rightarrow> (nat \<times> fs_error) option"

text \<open>\<^verbatim>\<open>create_dir_all\<close> below the path \<open>d\<close>, which is there already.\<close>

fun mkdirs :: "disk \<Rightarrow> path \<Rightarrow> path \<Rightarrow> fs \<Rightarrow> outcome \<times> fs" where
  "mkdirs dk d [] fs = (Ok, fs)"
| "mkdirs dk d (x # xs) fs =
     (case fs (d @ [x]) of
        Some DirE \<Rightarrow> mkdirs dk (d @ [x]) xs fs
      | Some (FileE b) \<Rightarrow> (Failed (if xs = [] then AlreadyExists else NotADirectory), fs)
      | Some LinkE \<Rightarrow> (FollowsLink, fs)
      | None \<Rightarrow>
          (case refuses_create dk (d @ [x]) of
             Some e \<Rightarrow> (Failed e, fs)
           | None \<Rightarrow> mkdirs dk (d @ [x]) xs (fs(d @ [x] \<mapsto> DirE))))"

definition create_dir_all :: "disk \<Rightarrow> path \<Rightarrow> fs \<Rightarrow> outcome \<times> fs" where
  "create_dir_all dk p fs = mkdirs dk [] p fs"

text \<open>Walking to the directory of a file.\<close>

fun reach :: "fs \<Rightarrow> path \<Rightarrow> path \<Rightarrow> outcome" where
  "reach fs d [] = Ok"
| "reach fs d (x # xs) =
     (case fs (d @ [x]) of
        Some DirE \<Rightarrow> reach fs (d @ [x]) xs
      | Some (FileE b) \<Rightarrow> Failed NotADirectory
      | Some LinkE \<Rightarrow> FollowsLink
      | None \<Rightarrow> Failed NotFound)"

text \<open>\<open>O_CREAT | O_EXCL | O_NOFOLLOW\<close>, then \<^verbatim>\<open>write_all\<close>: an entry that exists, a link included, is an error.\<close>

definition create_new :: "disk \<Rightarrow> path \<Rightarrow> bytes \<Rightarrow> fs \<Rightarrow> outcome \<times> fs" where
  "create_new dk p bs fs =
     (case reach fs [] (butlast p) of
        Ok \<Rightarrow>
          (case fs p of
             Some e \<Rightarrow> (Failed AlreadyExists, fs)
           | None \<Rightarrow>
               (case refuses_create dk p of
                  Some e \<Rightarrow> (Failed e, fs)
                | None \<Rightarrow>
                    (case refuses_write dk p of
                       Some (n, e) \<Rightarrow> (Failed e, fs(p \<mapsto> FileE (take n bs)))
                     | None \<Rightarrow> (Ok, fs(p \<mapsto> FileE bs)))))
      | stopped \<Rightarrow> (stopped, fs))"

section \<open>What writing changes\<close>

text \<open>
  \<open>grows root fs fs'\<close>: entries are only added, only strictly below \<open>root\<close>, and no link is added.
\<close>

definition grows :: "path \<Rightarrow> fs \<Rightarrow> fs \<Rightarrow> bool" where
  "grows root fs fs' \<longleftrightarrow>
     (\<forall>p. fs' p \<noteq> fs p \<longrightarrow> fs p = None \<and> strict_prefix root p \<and> fs' p \<noteq> Some LinkE)"

definition real_dir :: "fs \<Rightarrow> path \<Rightarrow> bool" where
  "real_dir fs root \<longleftrightarrow> (\<forall>q. prefix q root \<longrightarrow> fs q = Some DirE)"

definition no_links :: "fs \<Rightarrow> path \<Rightarrow> bool" where
  "no_links fs root \<longleftrightarrow> (\<forall>p. prefix root p \<longrightarrow> fs p \<noteq> Some LinkE)"

lemma grows_refl [simp]: "grows root fs fs"
  by (simp add: grows_def)

lemma grows_trans: "grows root a b \<Longrightarrow> grows root b c \<Longrightarrow> grows root a c"
  unfolding grows_def by metis

lemma grows_keeps: "grows root fs fs' \<Longrightarrow> fs p = Some e \<Longrightarrow> fs' p = Some e"
  by (metis grows_def option.distinct(1))

lemma grows_real_dir: "grows root fs fs' \<Longrightarrow> real_dir fs root \<Longrightarrow> real_dir fs' root"
  by (simp add: real_dir_def grows_keeps)

lemma grows_no_links: "grows root fs fs' \<Longrightarrow> no_links fs root \<Longrightarrow> no_links fs' root"
  by (metis grows_def no_links_def)

lemma grows_update: "fs p = None \<Longrightarrow> strict_prefix root p \<Longrightarrow> e \<noteq> LinkE \<Longrightarrow> grows root fs (fs(p \<mapsto> e))"
  by (auto simp: grows_def)

lemma mkdirs_grows:
  assumes "prefix root d" "mkdirs dk d xs fs = (r, fs')"
  shows "grows root fs fs'"
  using assms
proof (induction dk d xs fs rule: mkdirs.induct)
  case (2 dk d x xs fs)
  have below: "prefix root (d @ [x])" "strict_prefix root (d @ [x])"
    using 2(3) by (auto simp: prefix_def strict_prefix_def)
  show ?case
  proof (cases "fs (d @ [x])")
    case None
    show ?thesis
    proof (cases "refuses_create dk (d @ [x])")
      case None
      then have "mkdirs dk (d @ [x]) xs (fs(d @ [x] \<mapsto> DirE)) = (r, fs')"
        using 2(4) \<open>fs (d @ [x]) = None\<close> by simp
      then have "grows root (fs(d @ [x] \<mapsto> DirE)) fs'"
        by (rule 2(1) [OF \<open>fs (d @ [x]) = None\<close> None below(1)])
      then show ?thesis
        using grows_trans [OF grows_update [of fs "d @ [x]" root DirE]] \<open>fs (d @ [x]) = None\<close> below(2) by simp
    qed (use 2(4) None in simp)
  next
    case (Some e)
    then show ?thesis using 2(2) [OF Some _ below(1)] 2(4) by (cases e) auto
  qed
qed simp

text \<open>Below a directory that is there, only what is below it matters.\<close>

lemma mkdirs_prefix: "real_dir fs (d @ xs) \<Longrightarrow> mkdirs dk d (xs @ ys) fs = mkdirs dk (d @ xs) ys fs"
proof (induction xs arbitrary: d)
  case (Cons x xs)
  have "fs (d @ [x]) = Some DirE" using Cons.prems by (auto simp: real_dir_def)
  then show ?case using Cons.IH [of "d @ [x]"] Cons.prems by simp
qed simp

lemma mkdirs_result:
  assumes "mkdirs dk d xs fs = (r, fs')"
  shows "(r = FollowsLink \<longrightarrow> (\<exists>q. prefix q xs \<and> fs (d @ q) = Some LinkE)) \<and>
         (r = Ok \<longrightarrow> (\<forall>q. prefix q xs \<and> q \<noteq> [] \<longrightarrow> fs' (d @ q) = Some DirE))"
  using assms
proof (induction dk d xs fs rule: mkdirs.induct)
  case (2 dk d x xs fs)
  have grow: "fs' (d @ [x]) = Some DirE" if "mkdirs dk (d @ [x]) xs g = (r, fs')" "g (d @ [x]) = Some DirE" for g
    using mkdirs_grows [of "[]" "d @ [x]" dk xs g r fs'] that by (auto intro: grows_keeps)
  have step: "(r = FollowsLink \<longrightarrow> (\<exists>q. prefix q (x # xs) \<and> fs (d @ q) = Some LinkE)) \<and>
      (r = Ok \<longrightarrow> (\<forall>q. prefix q (x # xs) \<and> q \<noteq> [] \<longrightarrow> fs' (d @ q) = Some DirE))"
    if IH: "(r = FollowsLink \<longrightarrow> (\<exists>q. prefix q xs \<and> g ((d @ [x]) @ q) = Some LinkE)) \<and>
        (r = Ok \<longrightarrow> (\<forall>q. prefix q xs \<and> q \<noteq> [] \<longrightarrow> fs' ((d @ [x]) @ q) = Some DirE))"
      and run: "mkdirs dk (d @ [x]) xs g = (r, fs')" "g (d @ [x]) = Some DirE"
      and same: "\<And>p. g p = Some LinkE \<Longrightarrow> fs p = Some LinkE" for g
  proof (intro conjI impI allI)
    assume "r = FollowsLink"
    then obtain q where "prefix q xs" "g ((d @ [x]) @ q) = Some LinkE" using IH by blast
    then have "prefix (x # q) (x # xs)" "fs (d @ x # q) = Some LinkE" using same by auto
    then show "\<exists>q. prefix q (x # xs) \<and> fs (d @ q) = Some LinkE" by blast
  next
    fix q assume "r = Ok" "prefix q (x # xs) \<and> q \<noteq> []"
    then show "fs' (d @ q) = Some DirE"
      using IH grow [OF run] by (cases q; cases "tl q = []") (auto simp: prefix_Cons)
  qed
  show ?case
  proof (cases "fs (d @ [x])")
    case None
    show ?thesis
    proof (cases "refuses_create dk (d @ [x])")
      case None
      then have run: "mkdirs dk (d @ [x]) xs (fs(d @ [x] \<mapsto> DirE)) = (r, fs')"
        using 2(3) \<open>fs (d @ [x]) = None\<close> by simp
      show ?thesis
        by (rule step [OF 2(1) [OF \<open>fs (d @ [x]) = None\<close> None run] run]) (auto split: if_splits)
    qed (use 2(3) None in auto)
  next
    case (Some e)
    show ?thesis
    proof (cases e)
      case DirE
      then have run: "mkdirs dk (d @ [x]) xs fs = (r, fs')" using 2(3) Some by simp
      show ?thesis by (rule step [OF 2(2) [OF Some DirE run] run]) (use Some DirE in auto)
    next
      case LinkE
      then show ?thesis using 2(3) Some by (auto intro: exI [of _ "[x]"])
    qed (use 2(3) Some in auto)
  qed
qed simp

lemma reach_ok: "(\<And>q. prefix q xs \<Longrightarrow> q \<noteq> [] \<Longrightarrow> fs (d @ q) = Some DirE) \<Longrightarrow> reach fs d xs = Ok"
proof (induction xs arbitrary: d)
  case (Cons x xs)
  have "fs (d @ [x]) = Some DirE" using Cons.prems [of "[x]"] by simp
  moreover have "reach fs (d @ [x]) xs = Ok"
    using Cons.prems [of "x # q" for q] by (intro Cons.IH) auto
  ultimately show ?case by simp
qed simp

lemma reach_follows:
  "reach fs d xs = FollowsLink \<Longrightarrow> \<exists>q. prefix q xs \<and> fs (d @ q) = Some LinkE"
proof (induction xs arbitrary: d)
  case (Cons x xs)
  then show ?case
  proof (cases "fs (d @ [x])")
    case (Some e)
    then show ?thesis
    proof (cases e)
      case DirE
      then obtain q where "prefix q xs" "fs ((d @ [x]) @ q) = Some LinkE"
        using Cons.IH [of "d @ [x]"] Cons.prems Some by auto
      then show ?thesis by (intro exI [of _ "x # q"]) simp
    next
      case LinkE
      then show ?thesis using Some by (intro exI [of _ "[x]"]) simp
    qed (use Cons.prems Some in simp)
  qed simp
qed simp

lemma create_new_result:
  assumes "create_new dk p bs fs = (r, fs')"
  shows "strict_prefix root p \<Longrightarrow> grows root fs fs'"
    and "r = Ok \<Longrightarrow> fs' p = Some (FileE bs)"
    and "r = FollowsLink \<Longrightarrow> \<exists>q. prefix q p \<and> fs q = Some LinkE"
proof -
  show "grows root fs fs'" if "strict_prefix root p"
    using assms that grows_update [of fs p root]
    by (auto simp: create_new_def split: outcome.splits option.splits prod.splits)
  show "fs' p = Some (FileE bs)" if "r = Ok"
    using assms that by (auto simp: create_new_def split: outcome.splits option.splits)
  show "\<exists>q. prefix q p \<and> fs q = Some LinkE" if "r = FollowsLink"
  proof -
    have "reach fs [] (butlast p) = FollowsLink"
      using assms that by (auto simp: create_new_def split: outcome.splits option.splits)
    from reach_follows [OF this] obtain q where "prefix q (butlast p)" "fs q = Some LinkE" by auto
    then show ?thesis using prefixeq_butlast [of p] prefix_order.trans by blast
  qed
qed

section \<open>A tree that is only read\<close>

text \<open>A link is what it points at, \<open>None\<close> when it dangles. A directory lists its entries in reading order.\<close>

datatype node = FileN bytes | LinkN "node option" | DirN "(string \<times> node) list"

text \<open>Following the links of the path, as \<^verbatim>\<open>is_dir\<close> and \<^verbatim>\<open>read_dir\<close> do.\<close>

function resolve :: "path \<Rightarrow> node \<Rightarrow> node option" where
  "resolve p (LinkN None) = None"
| "resolve p (LinkN (Some n)) = resolve p n"
| "resolve [] (FileN b) = Some (FileN b)"
| "resolve [] (DirN es) = Some (DirN es)"
| "resolve (x # xs) (FileN b) = None"
| "resolve (x # xs) (DirN es) = (case map_of es x of None \<Rightarrow> None | Some m \<Rightarrow> resolve xs m)"
  by pat_completeness auto
termination by (relation "measures [\<lambda>(p, n). length p, \<lambda>(p, n). size n]") auto

text \<open>Without following any.\<close>

fun entry_at :: "path \<Rightarrow> node \<Rightarrow> node option" where
  "entry_at [] n = Some n"
| "entry_at (x # xs) (DirN es) = (case map_of es x of None \<Rightarrow> None | Some m \<Rightarrow> entry_at xs m)"
| "entry_at (x # xs) n = None"

text \<open>The entry that a node is when its links are left out.\<close>

fun plain_entry :: "node \<Rightarrow> fs_entry option" where
  "plain_entry (FileN b) = Some (FileE b)"
| "plain_entry (DirN es) = Some DirE"
| "plain_entry (LinkN t) = None"

section \<open>Copying, removing and renaming\<close>

text \<open>\<^verbatim>\<open>fs::copy\<close> of a file's contents: the target is created or truncated, and a link is followed.\<close>

definition copy_over :: "disk \<Rightarrow> path \<Rightarrow> bytes \<Rightarrow> fs \<Rightarrow> outcome \<times> fs" where
  "copy_over dk p bs fs =
     (case reach fs [] (butlast p) of
        Ok \<Rightarrow>
          (case fs p of
             Some LinkE \<Rightarrow> (FollowsLink, fs)
           | Some DirE \<Rightarrow> (Failed (OtherFs ''is a directory''), fs)
           | old \<Rightarrow>
               (case (if old = None then refuses_create dk p else None) of
                  Some e \<Rightarrow> (Failed e, fs)
                | None \<Rightarrow>
                    (case refuses_write dk p of
                       Some (n, e) \<Rightarrow> (Failed e, fs(p \<mapsto> FileE (take n bs)))
                     | None \<Rightarrow> (Ok, fs(p \<mapsto> FileE bs)))))
      | stopped \<Rightarrow> (stopped, fs))"

text \<open>
  A removal that the operating system stops: which entries survive it, and its error. \<^verbatim>\<open>remove_dir_all\<close>
  removes a link itself and refuses a file.
\<close>

type_synonym removal = "((path \<Rightarrow> bool) \<times> fs_error) option"

definition remove_below :: "removal \<Rightarrow> path \<Rightarrow> fs \<Rightarrow> outcome \<times> fs" where
  "remove_below rm p fs =
     (case rm of
        None \<Rightarrow> (Ok, \<lambda>q. if prefix p q then None else fs q)
      | Some (survives, e) \<Rightarrow> (Failed e, \<lambda>q. if prefix p q \<and> \<not> survives q then None else fs q))"

definition remove_file :: "fs_error option \<Rightarrow> path \<Rightarrow> fs \<Rightarrow> outcome \<times> fs" where
  "remove_file refused p fs =
     (case refused of None \<Rightarrow> (Ok, fs(p := None)) | Some e \<Rightarrow> (Failed e, fs))"

definition remove_dir_all :: "removal \<Rightarrow> path \<Rightarrow> fs \<Rightarrow> outcome \<times> fs" where
  "remove_dir_all rm p fs =
     (case reach fs [] (butlast p) of
        Ok \<Rightarrow>
          (case fs p of
             None \<Rightarrow> (Failed NotFound, fs)
           | Some LinkE \<Rightarrow> remove_file (map_option snd rm) p fs
           | Some (FileE b) \<Rightarrow> (Failed NotADirectory, fs)
           | Some DirE \<Rightarrow> remove_below rm p fs)
      | stopped \<Rightarrow> (stopped, fs))"

text \<open>Moving a directory to a path where nothing is.\<close>

definition rename_dir :: "fs_error option \<Rightarrow> path \<Rightarrow> path \<Rightarrow> fs \<Rightarrow> outcome \<times> fs" where
  "rename_dir refused from to fs =
     (case refused of
        Some e \<Rightarrow> (Failed e, fs)
      | None \<Rightarrow>
          (case fs from of
             None \<Rightarrow> (Failed NotFound, fs)
           | Some _ \<Rightarrow>
               (Ok, \<lambda>q. if prefix to q then fs (from @ drop (length to) q)
                        else if prefix from q then None else fs q)))"

lemma remove_below_outside: "remove_below rm p fs = (r, fs') \<Longrightarrow> \<not> prefix p q \<Longrightarrow> fs' q = fs q"
  by (auto simp: remove_below_def split: option.splits)

lemma remove_dir_all_outside:
  assumes "remove_dir_all rm p fs = (r, fs')"
  shows "\<not> prefix p q \<Longrightarrow> fs' q = fs q" "fs' q = fs q \<or> fs' q = None"
  using assms
  by (auto simp: remove_dir_all_def remove_below_def remove_file_def
      split: outcome.splits option.splits fs_entry.splits if_splits prod.splits)

end
