(* ===== verification/Manifest.thy ===== *)
theory Manifest
  imports File_System
begin

text \<open>
  \<^verbatim>\<open>src/profile/manifest.rs\<close>: the native stores of a profile as a list of relative paths and contents.
  Packing reads a dead browser's directory; extracting writes into a new session's, under the rule that
  no entry leaves it.
\<close>

section \<open>Definitions\<close>

record manifest_entry =
  me_path :: string
  me_bytes :: bytes

datatype extract_result = Extracted nat | UnsafePath string | ExtractIo fs_error | ThroughLink

text \<open>The stores' paths below the user data directory.\<close>

definition native_stores :: "path list" where
  "native_stores = [[''Default'', ''IndexedDB''], [''Default'', ''Service Worker'']]"

definition path_string :: "path \<Rightarrow> string" where
  "path_string p = from_utf8_lossy (as_bytes (str_join ''/'' p))"

text \<open>
  \<open>unreadable\<close> is the error that reading the entry at a path gives, if any. The first error ends the
  packing.
\<close>

function pack_walk :: "(path \<Rightarrow> fs_error option) \<Rightarrow> path \<Rightarrow> node \<Rightarrow> fs_error + manifest_entry list"
  and pack_entries :: "(path \<Rightarrow> fs_error option) \<Rightarrow> path \<Rightarrow> (string \<times> node) list \<Rightarrow> fs_error + manifest_entry list"
where
  "pack_walk unreadable p (FileN b) =
     (case unreadable p of Some e \<Rightarrow> Inl e | None \<Rightarrow> Inr [\<lparr>me_path = path_string p, me_bytes = b\<rparr>])"
| "pack_walk unreadable p (LinkN t) = Inr []"
| "pack_walk unreadable p (DirN es) =
     (case unreadable p of Some e \<Rightarrow> Inl e | None \<Rightarrow> pack_entries unreadable p es)"
| "pack_entries unreadable p [] = Inr []"
| "pack_entries unreadable p ((x, n) # es) =
     res_bind (pack_walk unreadable (p @ [x]) n)
       (\<lambda>xs. res_bind (pack_entries unreadable p es) (\<lambda>ys. Inr (xs @ ys)))"
  by pat_completeness auto
termination
  by (relation "measure (case_sum (\<lambda>(u, p, n). size n) (\<lambda>(u, p, es). size_list (size_prod (\<lambda>_. 0) size) es))") auto

text \<open>\<^verbatim>\<open>is_dir\<close> follows links.\<close>

fun pack_stores :: "(path \<Rightarrow> fs_error option) \<Rightarrow> node \<Rightarrow> path list \<Rightarrow> fs_error + manifest_entry list" where
  "pack_stores unreadable root [] = Inr []"
| "pack_stores unreadable root (store # stores) =
     res_bind
       (case resolve store root of
          Some (DirN es) \<Rightarrow> pack_walk unreadable store (DirN es)
        | _ \<Rightarrow> Inr [])
       (\<lambda>xs. res_bind (pack_stores unreadable root stores) (\<lambda>ys. Inr (xs @ ys)))"

definition pack_native :: "(path \<Rightarrow> fs_error option) \<Rightarrow> node \<Rightarrow> fs_error + manifest_entry list" where
  "pack_native unreadable root = pack_stores unreadable root native_stores"

fun join_normal :: "component list \<Rightarrow> path option" where
  "join_normal [] = Some []"
| "join_normal (Normal part # cs) = map_option (\<lambda>p. part # p) (join_normal cs)"
| "join_normal (_ # cs) = None"

definition safe_join :: "path \<Rightarrow> string \<Rightarrow> path option" where
  "safe_join root rel =
     (if is_absolute rel then None
      else case join_normal (components rel) of
             None \<Rightarrow> None
           | Some parts \<Rightarrow> if parts = [] then None else Some (root @ parts))"

definition write_no_follow :: "disk \<Rightarrow> path \<Rightarrow> bytes \<Rightarrow> fs \<Rightarrow> outcome \<times> fs" where
  [simp]: "write_no_follow dk p bs fs = create_new dk p bs fs"

text \<open>One entry: its parent directories, then the file.\<close>

definition write_entry :: "disk \<Rightarrow> path \<Rightarrow> bytes \<Rightarrow> fs \<Rightarrow> outcome \<times> fs" where
  "write_entry dk target bs fs =
     (case create_dir_all dk (butlast target) fs of
        (Ok, fs1) \<Rightarrow> write_no_follow dk target bs fs1
      | (stopped, fs1) \<Rightarrow> (stopped, fs1))"

fun extract_entries :: "disk \<Rightarrow> path \<Rightarrow> manifest_entry list \<Rightarrow> nat \<Rightarrow> fs \<Rightarrow> extract_result \<times> fs" where
  "extract_entries dk root [] written fs = (Extracted written, fs)"
| "extract_entries dk root (e # es) written fs =
     (case safe_join root (me_path e) of
        None \<Rightarrow> (UnsafePath (me_path e), fs)
      | Some target \<Rightarrow>
          (case write_entry dk target (me_bytes e) fs of
             (Ok, fs1) \<Rightarrow> extract_entries dk root es (written + 1) fs1
           | (Failed err, fs1) \<Rightarrow> (ExtractIo err, fs1)
           | (FollowsLink, fs1) \<Rightarrow> (ThroughLink, fs1)))"

definition extract_into :: "disk \<Rightarrow> manifest_entry list \<Rightarrow> path \<Rightarrow> fs \<Rightarrow> extract_result \<times> fs" where
  "extract_into dk entries root fs =
     (case create_dir_all dk root fs of
        (Ok, fs1) \<Rightarrow> extract_entries dk root entries 0 fs1
      | (Failed err, fs1) \<Rightarrow> (ExtractIo err, fs1)
      | (FollowsLink, fs1) \<Rightarrow> (ThroughLink, fs1))"

section \<open>Extraction stays inside\<close>

lemma safe_join_inside: "safe_join root rel = Some p \<Longrightarrow> \<exists>parts. parts \<noteq> [] \<and> p = root @ parts"
  by (auto simp: safe_join_def split: if_splits option.splits)

lemma write_entry_result:
  assumes "write_entry dk (root @ parts) bs fs = (r, fs')" "parts \<noteq> []" "real_dir fs root"
  shows "grows root fs fs'"
    and "r = Ok \<Longrightarrow> fs' (root @ parts) = Some (FileE bs)"
    and "r = FollowsLink \<Longrightarrow> \<not> no_links fs root"
proof -
  have last: "butlast (root @ parts) = root @ butlast parts" "strict_prefix root (root @ parts)"
    using assms(2) by (auto simp: butlast_append strict_prefix_def)
  obtain r1 fs1 where m: "mkdirs dk [] (root @ butlast parts) fs = (r1, fs1)"
    by (cases "mkdirs dk [] (root @ butlast parts) fs")
  then have m': "mkdirs dk root (butlast parts) fs = (r1, fs1)"
    using mkdirs_prefix [of fs "[]" root] assms(3) by simp
  have g1: "grows root fs fs1" by (rule mkdirs_grows [OF _ m']) simp
  have case1: "r1 = Ok \<Longrightarrow> create_new dk (root @ parts) bs fs1 = (r, fs')" "r1 \<noteq> Ok \<Longrightarrow> r = r1 \<and> fs' = fs1"
    using assms(1) m last(1)
    by (auto simp: write_entry_def create_dir_all_def split: outcome.splits)
  show "grows root fs fs'"
    using case1 g1 create_new_result(1) [OF _ last(2)] grows_trans by (cases "r1 = Ok") blast+
  show "fs' (root @ parts) = Some (FileE bs)" if "r = Ok"
    using case1 that create_new_result(2) by (cases "r1 = Ok") blast+
  show "\<not> no_links fs root" if follow: "r = FollowsLink"
  proof (cases "r1 = Ok")
    case True
    then obtain q where q: "prefix q (root @ parts)" "fs1 q = Some LinkE"
      using create_new_result(3) [OF case1(1) [OF True] follow] by blast
    have "prefix root q"
    proof (rule ccontr)
      assume "\<not> prefix root q"
      then have "prefix q root" using q(1) by (metis prefix_append prefix_def prefix_same_cases)
      then show False using grows_real_dir [OF g1 assms(3)] q(2) by (simp add: real_dir_def)
    qed
    then show ?thesis using q(2) grows_no_links [OF g1] by (auto simp: no_links_def)
  next
    case False
    then have "r1 = FollowsLink" using case1 that by simp
    then obtain q where "fs (root @ q) = Some LinkE" using mkdirs_result [OF m'] by blast
    moreover have "prefix root (root @ q)" by simp
    ultimately show ?thesis unfolding no_links_def by blast
  qed
qed

lemma extract_entries_result:
  assumes "extract_entries dk root es n fs = (r, fs')" "real_dir fs root" "no_links fs root"
  shows "r \<noteq> ThroughLink \<and> grows root fs fs' \<and>
     (\<forall>k. r = Extracted k \<longrightarrow> k = n + length es \<and>
        (\<forall>e \<in> set es. \<exists>p. safe_join root (me_path e) = Some p \<and> fs' p = Some (FileE (me_bytes e)))) \<and>
     (\<forall>s. r = UnsafePath s \<longrightarrow> safe_join root s = None \<and> s \<in> me_path ` set es)"
  using assms
proof (induction es arbitrary: n fs)
  case (Cons e es)
  show ?case
  proof (cases "safe_join root (me_path e)")
    case None
    then show ?thesis using Cons.prems by auto
  next
    case (Some p)
    then obtain parts where p: "p = root @ parts" "parts \<noteq> []" using safe_join_inside by blast
    obtain r1 fs1 where w: "write_entry dk p (me_bytes e) fs = (r1, fs1)" by (cases "write_entry dk p (me_bytes e) fs")
    note wr = write_entry_result [OF w [unfolded p(1)] p(2) Cons.prems(2)]
    have inv: "real_dir fs1 root" "no_links fs1 root"
      using grows_real_dir [OF wr(1) Cons.prems(2)] grows_no_links [OF wr(1) Cons.prems(3)] by simp_all
    show ?thesis
    proof (cases r1)
      case Ok
      then have rest: "extract_entries dk root es (n + 1) fs1 = (r, fs')" using Cons.prems(1) Some w by simp
      note IH = Cons.IH [OF rest inv]
      have "fs' p = Some (FileE (me_bytes e))" using IH wr(2) Ok p(1) by (auto intro: grows_keeps)
      then show ?thesis using IH wr(1) Some grows_trans by auto
    qed (use Cons.prems Some w wr in auto)
  qed
qed auto

lemma extract_into_result:
  assumes "real_dir fs root" "no_links fs root" "extract_into dk entries root fs = (r, fs')"
  shows "r \<noteq> ThroughLink \<and> grows root fs fs' \<and>
     (\<forall>k. r = Extracted k \<longrightarrow> k = length entries \<and>
        (\<forall>e \<in> set entries. \<exists>p. safe_join root (me_path e) = Some p \<and> fs' p = Some (FileE (me_bytes e)))) \<and>
     (\<forall>s. r = UnsafePath s \<longrightarrow> safe_join root s = None \<and> s \<in> me_path ` set entries)"
proof -
  have "create_dir_all dk root fs = (Ok, fs)"
    using mkdirs_prefix [of fs "[]" root dk "[]"] assms(1) by (simp add: create_dir_all_def)
  then have run: "extract_entries dk root entries 0 fs = (r, fs')"
    using assms(3) by (simp add: extract_into_def)
  show ?thesis using extract_entries_result [OF run assms(1,2)] by simp
qed


section \<open>What packing collects\<close>

function files :: "path \<Rightarrow> node \<Rightarrow> (path \<times> bytes) list"
  and files_of :: "path \<Rightarrow> (string \<times> node) list \<Rightarrow> (path \<times> bytes) list" where
  "files p (FileN b) = [(p, b)]"
| "files p (LinkN t) = []"
| "files p (DirN es) = files_of p es"
| "files_of p [] = []"
| "files_of p ((x, n) # es) = files (p @ [x]) n @ files_of p es"
  by pat_completeness auto
termination
  by (relation "measure (case_sum (\<lambda>(p, n). size n) (\<lambda>(p, es). size_list (size_prod (\<lambda>_. 0) size) es))") auto

definition to_entry :: "path \<times> bytes \<Rightarrow> manifest_entry" where
  "to_entry e = \<lparr>me_path = path_string (fst e), me_bytes = snd e\<rparr>"

lemma pack_walk_files:
  "pack_walk (\<lambda>_. None) p n = Inr (map to_entry (files p n))"
  "pack_entries (\<lambda>_. None) p es = Inr (map to_entry (files_of p es))"
  by (induction p n and p es rule: files_files_of.induct) (simp_all add: to_entry_def)

definition plain_name :: "string \<Rightarrow> bool" where
  "plain_name x \<longleftrightarrow>
     x \<noteq> [] \<and> x \<noteq> ''.'' \<and> x \<noteq> ''..'' \<and> CHR ''/'' \<notin> set x \<and> (\<forall>c \<in> set x. of_char c < (128 :: nat))"

text \<open>Every directory lists plain names, each once.\<close>

definition tidy :: "node \<Rightarrow> bool" where
  "tidy n \<longleftrightarrow>
     (\<forall>p es. entry_at p n = Some (DirN es) \<longrightarrow> distinct (map fst es) \<and> (\<forall>x \<in> fst ` set es. plain_name x))"

lemma tidy_child: "tidy (DirN es) \<Longrightarrow> (x, n) \<in> set es \<Longrightarrow> tidy n"
  unfolding tidy_def
proof (intro allI impI)
  fix p ds
  assume t: "\<forall>p ds. entry_at p (DirN es) = Some (DirN ds) \<longrightarrow> distinct (map fst ds) \<and> (\<forall>x \<in> fst ` set ds. plain_name x)"
    and m: "(x, n) \<in> set es" and e: "entry_at p n = Some (DirN ds)"
  have "distinct (map fst es)" using t [rule_format, of "[]" es] by simp
  then have "entry_at (x # p) (DirN es) = Some (DirN ds)" using m e by simp
  then show "distinct (map fst ds) \<and> (\<forall>x \<in> fst ` set ds. plain_name x)" using t by blast
qed

lemma tidy_dir: "tidy (DirN es) \<Longrightarrow> distinct (map fst es) \<and> (\<forall>x \<in> fst ` set es. plain_name x)"
  unfolding tidy_def by (metis entry_at.simps(1))

lemma files_of_set: "set (files_of p es) = (\<Union>(x, n) \<in> set es. set (files (p @ [x]) n))"
  by (induction es) auto

lemma files_entry:
  assumes "tidy n"
  shows "(q, b) \<in> set (files p n) \<longleftrightarrow> (\<exists>r. q = p @ r \<and> entry_at r n = Some (FileN b))"
  using assms
proof (induction n arbitrary: p rule: node.induct)
  case (FileN c)
  have "entry_at r (FileN c) = Some (FileN b) \<longleftrightarrow> r = [] \<and> c = b" for r by (cases r) auto
  then show ?case by auto
next
  case (LinkN t)
  have "entry_at r (LinkN t) \<noteq> Some (FileN b)" for r by (cases r) auto
  then show ?case by simp
next
  case (DirN es)
  have d: "distinct (map fst es)" using tidy_dir [OF DirN.prems] by simp
  have sub: "(q, b) \<in> set (files (p @ [x]) n) \<longleftrightarrow> (\<exists>r. q = p @ x # r \<and> entry_at r n = Some (FileN b))"
    if "(x, n) \<in> set es" for x n
    using DirN.IH [OF that, of n "p @ [x]"] tidy_child [OF DirN.prems that] by simp
  have "(q, b) \<in> set (files p (DirN es)) \<longleftrightarrow>
      (\<exists>x n r. (x, n) \<in> set es \<and> q = p @ x # r \<and> entry_at r n = Some (FileN b))"
    using sub by (auto simp: files_of_set; blast)
  also have "\<dots> \<longleftrightarrow> (\<exists>r. q = p @ r \<and> entry_at r (DirN es) = Some (FileN b))"
  proof
    assume "\<exists>r. q = p @ r \<and> entry_at r (DirN es) = Some (FileN b)"
    then obtain r where r: "q = p @ r" "entry_at r (DirN es) = Some (FileN b)" by blast
    then obtain x xs where x: "r = x # xs" by (cases r) auto
    then show "\<exists>x n r. (x, n) \<in> set es \<and> q = p @ x # r \<and> entry_at r n = Some (FileN b)"
      using r by (auto split: option.splits dest: map_of_SomeD)
  next
    assume "\<exists>x n r. (x, n) \<in> set es \<and> q = p @ x # r \<and> entry_at r n = Some (FileN b)"
    then obtain x n r where "(x, n) \<in> set es" "q = p @ x # r" "entry_at r n = Some (FileN b)" by blast
    then show "\<exists>r. q = p @ r \<and> entry_at r (DirN es) = Some (FileN b)"
      using d by (intro exI [of _ "x # r"]) simp
  qed
  finally show ?case .
qed

lemma files_distinct: "tidy n \<Longrightarrow> distinct (map fst (files p n))"
proof (induction n arbitrary: p rule: node.induct)
  case (DirN es)
  have d: "distinct (map fst es)" using tidy_dir [OF DirN.prems] by simp
  have child: "tidy n" if "(x, n) \<in> set es" for x n by (rule tidy_child [OF DirN.prems that])
  have "distinct (map fst (files_of p ds))" if "set ds \<subseteq> set es" "distinct (map fst ds)" for ds
    using that
  proof (induction ds)
    case (Cons e ds)
    obtain x n where e: "e = (x, n)" by (cases e)
    have "distinct (map fst (files (p @ [x]) n))"
      using DirN.IH [of "(x, n)" n] Cons.prems(1) e child by (auto intro: DirN.IH)
    moreover have "fst ` set (files (p @ [x]) n) \<inter> fst ` set (files_of p ds) = {}"
    proof (intro equals0I, elim IntE imageE)
      fix q a c assume a: "q = fst a" "a \<in> set (files (p @ [x]) n)" and c: "q = fst c" "c \<in> set (files_of p ds)"
      obtain r where r: "q = (p @ [x]) @ r"
        using a files_entry [OF child, of x n q "snd a" "p @ [x]"] Cons.prems(1) e by (cases a) auto
      obtain y m where m: "(y, m) \<in> set ds" "c \<in> set (files (p @ [y]) m)" using c(2) by (auto simp: files_of_set)
      then obtain r' where "q = (p @ [y]) @ r'"
        using c(1) files_entry [OF child, of y m q "snd c" "p @ [y]"] Cons.prems(1) by (cases c) auto
      then have "y = x" using r by simp
      then show False using Cons.prems(2) e m(1) by force
    qed
    ultimately show ?case using Cons e by simp
  qed simp
  then show ?case using d by simp
qed simp_all

section \<open>Paths survive the manifest\<close>

lemma lossy_ascii: "\<forall>c \<in> set s. of_char c < (128 :: nat) \<Longrightarrow> from_utf8_lossy (as_bytes s) = s"
proof -
  have "\<forall>a \<in> set xs. a < 128 \<Longrightarrow> lossy_codes xs = xs" for xs by (induction xs) auto
  moreover assume "\<forall>c \<in> set s. of_char c < (128 :: nat)"
  ultimately have "lossy_codes (map of_char s) = map of_char s" by simp
  then show ?thesis by (simp add: from_utf8_lossy_def as_bytes_def comp_def)
qed

lemma join_ascii:
  "\<forall>x \<in> set p. \<forall>c \<in> set x. of_char c < (128 :: nat) \<Longrightarrow> \<forall>c \<in> set (str_join ''/'' p). of_char c < (128 :: nat)"
  by (induction "''/''" p rule: str_join.induct) auto

lemma join_normal_map: "join_normal (map Normal p) = Some p"
  by (induction p) auto

lemma safe_join_path_string:
  assumes "p \<noteq> []" "\<forall>x \<in> set p. plain_name x"
  shows "safe_join root (path_string p) = Some (root @ p)"
proof -
  obtain x xs where p: "p = x # xs" using assms(1) by (cases p) auto
  have plain: "x \<noteq> []" "x \<noteq> ''.''" "CHR ''/'' \<notin> set x" using assms(2) p by (auto simp: plain_name_def)
  have str: "path_string p = str_join ''/'' p"
    unfolding path_string_def using assms(2) by (intro lossy_ascii join_ascii) (auto simp: plain_name_def)
  have first: "\<exists>s. str_join ''/'' p = x @ s" using p by (cases xs) auto
  have "\<not> is_absolute (str_join ''/'' p)"
    using first plain by (cases x) (auto simp: is_absolute_def starts_with_def)
  moreover have "split_on (str_join ''/'' p) (CHR ''/'') = p"
    using assms by (intro split_on_join) (auto simp: plain_name_def)
  moreover have "concat (map part_component p) = map Normal p"
    using assms(2) by (induction p) (auto simp: part_component_def plain_name_def)
  moreover have "hd p \<noteq> ''.''" using plain p by simp
  ultimately have "components (path_string p) = map Normal p" "\<not> is_absolute (path_string p)"
    using str by (simp_all add: components_def Let_def)
  then show ?thesis using assms(1) by (simp add: safe_join_def join_normal_map)
qed

section \<open>Packing and extracting\<close>

definition willing :: disk where
  "willing = \<lparr>refuses_create = (\<lambda>_. None), refuses_write = (\<lambda>_. None)\<rparr>"

text \<open>The directory that holds exactly the files \<open>fs0\<close> and the directories on the way to them.\<close>

definition holds :: "path \<Rightarrow> fs \<Rightarrow> (path \<times> bytes) list \<Rightarrow> bool" where
  "holds root fs es \<longleftrightarrow>
     (\<forall>q. q \<noteq> [] \<longrightarrow> fs (root @ q) =
        (case map_of es q of
           Some b \<Rightarrow> Some (FileE b)
         | None \<Rightarrow> if \<exists>e \<in> set es. strict_prefix q (fst e) then Some DirE else None))"

lemma mkdirs_willing:
  assumes "\<And>q. prefix q xs \<Longrightarrow> q \<noteq> [] \<Longrightarrow> fs (d @ q) \<in> {None, Some DirE}"
  shows "\<exists>fs'. mkdirs willing d xs fs = (Ok, fs') \<and>
     (\<forall>p. fs' p = (if \<exists>q. q \<noteq> [] \<and> prefix q xs \<and> p = d @ q then Some DirE else fs p))"
  using assms
proof (induction xs arbitrary: d fs)
  case (Cons x xs)
  let ?g = "fs(d @ [x] \<mapsto> DirE)"
  have here: "fs (d @ [x]) \<in> {None, Some DirE}" by (rule Cons.prems) simp_all
  then have run: "mkdirs willing d (x # xs) fs = mkdirs willing (d @ [x]) xs ?g"
    by (auto simp: willing_def fun_upd_idem)
  have below: "?g ((d @ [x]) @ q) \<in> {None, Some DirE}" if "prefix q xs" "q \<noteq> []" for q
    using Cons.prems [of "x # q"] that by auto
  have "\<exists>fs'. mkdirs willing (d @ [x]) xs ?g = (Ok, fs') \<and>
      (\<forall>p. fs' p = (if \<exists>q. q \<noteq> [] \<and> prefix q xs \<and> p = (d @ [x]) @ q then Some DirE else ?g p))"
    by (rule Cons.IH) (rule below)
  then obtain fs' where fs': "mkdirs willing (d @ [x]) xs ?g = (Ok, fs')"
    "\<forall>p. fs' p = (if \<exists>q. q \<noteq> [] \<and> prefix q xs \<and> p = (d @ [x]) @ q then Some DirE else ?g p)"
    by (elim exE conjE)
  have "(\<exists>q. q \<noteq> [] \<and> prefix q (x # xs) \<and> p = d @ q) \<longleftrightarrow>
      p = d @ [x] \<or> (\<exists>q. q \<noteq> [] \<and> prefix q xs \<and> p = (d @ [x]) @ q)" for p
    by (auto simp: prefix_Cons)
  then show ?case using run fs' by (intro exI [of _ fs']) auto
qed auto

lemma not_prefix_butlast: "p \<noteq> [] \<Longrightarrow> \<not> prefix p (butlast p)"
  by (metis append_butlast_last_id not_Cons_self2 prefix_order.antisym prefixeq_butlast append_self_conv)

lemma holds_added:
  assumes "holds root fs es" "p \<noteq> []" "\<And>q. prefix q p \<Longrightarrow> map_of es q = None"
    and "\<And>x. fs1 x = (if \<exists>q. q \<noteq> [] \<and> prefix q (butlast p) \<and> x = root @ q then Some DirE else fs x)"
  shows "holds root (fs1(root @ p \<mapsto> FileE bs)) (es @ [(p, bs)])"
  unfolding holds_def
proof (intro allI impI)
  fix q :: path assume q: "q \<noteq> []"
  have notp: "\<not> prefix p (butlast p)" using assms(2) by (rule not_prefix_butlast)
  have strict: "prefix q (butlast p) \<longleftrightarrow> strict_prefix q p"
    using assms(2) notp by (metis append_butlast_last_id prefix_snoc strict_prefix_def prefix_order.eq_iff)
  show "(fs1(root @ p \<mapsto> FileE bs)) (root @ q) = (case map_of (es @ [(p, bs)]) q of
         Some b \<Rightarrow> Some (FileE b)
       | None \<Rightarrow> if \<exists>e \<in> set (es @ [(p, bs)]). strict_prefix q (fst e) then Some DirE else None)"
    using assms(1,4) q strict assms(3) [of q] assms(3) [of p]
    by (auto simp: holds_def map_add_def split: option.splits)
qed

lemma write_entry_willing:
  assumes "real_dir fs root" "holds root fs es" "p \<noteq> []"
    and "\<And>q b. (q, b) \<in> set es \<Longrightarrow> \<not> prefix q p \<and> \<not> prefix p q"
  shows "\<exists>fs'. write_entry willing (root @ p) bs fs = (Ok, fs') \<and> real_dir fs' root \<and> holds root fs' (es @ [(p, bs)])"
proof -
  have none: "map_of es q = None" if "prefix q p" for q
    using assms(4) that by (auto simp: map_of_eq_None_iff)
  have way: "fs (root @ q) \<in> {None, Some DirE}" if "prefix q (butlast p)" "q \<noteq> []" for q
  proof -
    have "prefix q p" using that(1) prefixeq_butlast [of p] by (rule prefix_order.trans)
    then show ?thesis
      using assms(2) [unfolded holds_def, rule_format, OF that(2)] none [of q] by simp
  qed
  obtain fs1 where fs1: "mkdirs willing root (butlast p) fs = (Ok, fs1)"
    "\<And>x. fs1 x = (if \<exists>q. q \<noteq> [] \<and> prefix q (butlast p) \<and> x = root @ q then Some DirE else fs x)"
    using mkdirs_willing [of "butlast p" fs root, OF way] by blast
  have run1: "create_dir_all willing (butlast (root @ p)) fs = (Ok, fs1)"
    using fs1(1) mkdirs_prefix [of fs "[]" root willing "butlast p"] assms(1,3)
    by (simp add: create_dir_all_def butlast_append)
  have notp: "\<not> prefix p (butlast p)" using assms(3) by (rule not_prefix_butlast)
  have free: "fs1 (root @ p) = None"
    using fs1(2) [of "root @ p"] assms(2,3,4) none [of p] notp
    by (auto simp: holds_def strict_prefix_def split: option.splits)
  have reach: "reach fs1 [] (butlast (root @ p)) = Ok"
  proof (rule reach_ok)
    fix q assume q: "prefix q (butlast (root @ p))" "q \<noteq> []"
    then have "prefix q root \<or> (\<exists>r. q = root @ r \<and> prefix r (butlast p))"
      using assms(3) by (auto simp: butlast_append prefix_append)
    then consider "prefix q root" | r where "q = root @ r" "r \<noteq> []" "prefix r (butlast p)"
      by (metis append_Nil2 prefix_order.order_refl)
    then show "fs1 ([] @ q) = Some DirE"
      using fs1(2) assms(1) by cases (auto simp: real_dir_def)
  qed
  let ?fs = "fs1(root @ p \<mapsto> FileE bs)"
  have "write_entry willing (root @ p) bs fs = (Ok, ?fs)"
    using run1 reach free by (simp add: write_entry_def create_new_def willing_def)
  moreover have "real_dir ?fs root"
    using assms(1,3) fs1(2) by (auto simp: real_dir_def prefix_def)
  moreover have "holds root ?fs (es @ [(p, bs)])"
    by (rule holds_added [OF assms(2,3) none fs1(2)])
  ultimately show ?thesis by blast
qed

lemma extract_willing:
  assumes "real_dir fs root" "holds root fs old" "distinct (map fst (old @ es))"
    and "\<And>q b. (q, b) \<in> set es \<Longrightarrow> q \<noteq> [] \<and> (\<forall>x \<in> set q. plain_name x)"
    and "\<And>q b p c. (q, b) \<in> set (old @ es) \<Longrightarrow> (p, c) \<in> set (old @ es) \<Longrightarrow> prefix q p \<Longrightarrow> q = p"
  shows "\<exists>fs'. extract_entries willing root (map to_entry es) n fs = (Extracted (n + length es), fs') \<and>
     holds root fs' (old @ es)"
  using assms
proof (induction es arbitrary: old n fs)
  case (Cons e es)
  obtain p b where e: "e = (p, b)" by (cases e)
  have p: "p \<noteq> []" "\<forall>x \<in> set p. plain_name x" using Cons.prems(4) e by auto
  have apart: "\<not> prefix q p \<and> \<not> prefix p q" if "(q, c) \<in> set old" for q c
  proof -
    have "q \<noteq> p" using Cons.prems(3) that e by force
    then show ?thesis using Cons.prems(5) [of q c p b] Cons.prems(5) [of p b q c] that e by auto
  qed
  obtain fs1 where w: "write_entry willing (root @ p) b fs = (Ok, fs1)" "real_dir fs1 root" "holds root fs1 (old @ [(p, b)])"
    using write_entry_willing [OF Cons.prems(1,2) p(1), of b] apart by blast
  have "\<exists>fs'. extract_entries willing root (map to_entry es) (n + 1) fs1 = (Extracted (n + 1 + length es), fs') \<and>
     holds root fs' ((old @ [(p, b)]) @ es)"
    by (rule Cons.IH [OF w(2,3)]) (use Cons.prems e in auto)
  moreover have "to_entry e = \<lparr>me_path = path_string p, me_bytes = b\<rparr>" using e by (simp add: to_entry_def)
  ultimately show ?case
    using w(1) e safe_join_path_string [OF p, of root] by simp
qed simp

lemma entry_at_append: "entry_at (p @ q) n = Option.bind (entry_at p n) (entry_at q)"
  by (induction p n rule: entry_at.induct) (auto split: option.splits)

lemma tidy_entry: "tidy n \<Longrightarrow> entry_at p n = Some m \<Longrightarrow> tidy m"
  unfolding tidy_def by (metis bind.bind_lunit entry_at_append)

lemma entry_plain: "tidy n \<Longrightarrow> entry_at p n = Some m \<Longrightarrow> \<forall>x \<in> set p. plain_name x"
proof (induction p arbitrary: n)
  case (Cons x p)
  then obtain es k where es: "n = DirN es" "map_of es x = Some k" "entry_at p k = Some m"
    by (cases n) (auto split: option.splits)
  have "plain_name x" using tidy_dir Cons.prems(1) es map_of_SomeD by force
  moreover have "tidy k" using tidy_entry [OF Cons.prems(1), of "[x]" k] es by simp
  ultimately show ?case using Cons.IH es by simp
qed simp

lemma entry_resolve: "entry_at p n = Some (DirN es) \<Longrightarrow> resolve p n = Some (DirN es)"
  by (induction p n rule: entry_at.induct) (auto split: option.splits)

definition real_stores :: "node \<Rightarrow> bool" where
  "real_stores root \<longleftrightarrow>
     (\<forall>store \<in> set native_stores. \<forall>es. resolve store root = Some (DirN es) \<longrightarrow> entry_at store root = Some (DirN es))"

definition store_files :: "node \<Rightarrow> path \<Rightarrow> (path \<times> bytes) list" where
  "store_files root store = (case resolve store root of Some (DirN es) \<Rightarrow> files store (DirN es) | _ \<Rightarrow> [])"

lemma pack_native_files: "pack_native (\<lambda>_. None) root = Inr (map to_entry (concat (map (store_files root) native_stores)))"
proof -
  have "pack_stores (\<lambda>_. None) root stores = Inr (map to_entry (concat (map (store_files root) stores)))" for stores
    by (induction stores) (auto simp: store_files_def pack_walk_files split: option.split node.split)
  then show ?thesis by (simp add: pack_native_def)
qed

text \<open>A file of a native store.\<close>

definition stored :: "node \<Rightarrow> path \<Rightarrow> bytes \<Rightarrow> bool" where
  "stored root p b \<longleftrightarrow> (\<exists>store \<in> set native_stores. strict_prefix store p) \<and> entry_at p root = Some (FileN b)"

lemma store_files_entry:
  assumes "tidy root" "real_stores root" "store \<in> set native_stores"
  shows "(p, b) \<in> set (store_files root store) \<longleftrightarrow> strict_prefix store p \<and> entry_at p root = Some (FileN b)"
proof (cases "\<exists>es. entry_at store root = Some (DirN es)")
  case True
  then obtain es where es: "entry_at store root = Some (DirN es)" by blast
  then have "(p, b) \<in> set (store_files root store) \<longleftrightarrow> (\<exists>r. p = store @ r \<and> entry_at r (DirN es) = Some (FileN b))"
    using files_entry [OF tidy_entry [OF assms(1) es], of p b store] entry_resolve [OF es] by (simp add: store_files_def)
  also have "\<dots> \<longleftrightarrow> strict_prefix store p \<and> entry_at p root = Some (FileN b)"
    using es by (auto simp: entry_at_append strict_prefix_def prefix_def)
  finally show ?thesis .
next
  case False
  then have "store_files root store = []"
    using assms(2,3) by (auto simp: store_files_def real_stores_def split: option.splits node.splits)
  moreover have False if p: "strict_prefix store p" "entry_at p root = Some (FileN b)"
  proof -
    obtain r where r: "p = store @ r" "r \<noteq> []" using p(1) by (auto simp: strict_prefix_def prefix_def)
    obtain m where m: "entry_at store root = Some m" "entry_at r m = Some (FileN b)"
      using p(2) r(1) by (auto simp: entry_at_append bind_eq_Some_conv)
    then show False using r(2) False by (cases m; cases r) auto
  qed
  ultimately show ?thesis by auto
qed

lemma collected:
  assumes "tidy root" "real_stores root"
  defines "all \<equiv> concat (map (store_files root) native_stores)"
  shows "(p, b) \<in> set all \<longleftrightarrow> stored root p b" and "distinct (map fst all)"
proof -
  note entry = store_files_entry [OF assms(1,2)]
  show "(p, b) \<in> set all \<longleftrightarrow> stored root p b"
    using entry by (auto simp: all_def stored_def)
  have one: "distinct (map fst (store_files root store))" if store: "store \<in> set native_stores" for store
  proof (cases "\<exists>es. resolve store root = Some (DirN es)")
    case True
    then obtain es where es: "resolve store root = Some (DirN es)" by blast
    then have "entry_at store root = Some (DirN es)" using assms(2) store by (simp add: real_stores_def)
    from files_distinct [OF tidy_entry [OF assms(1) this]] show ?thesis using es by (simp add: store_files_def)
  qed (auto simp: store_files_def split: option.split node.split)
  let ?a = "[''Default'', ''IndexedDB'']" and ?b = "[''Default'', ''Service Worker'']"
  have "fst ` set (store_files root ?a) \<inter> fst ` set (store_files root ?b) = {}"
  proof (intro equals0I, elim IntE imageE)
    fix q x y assume q: "q = fst x" "x \<in> set (store_files root ?a)" "q = fst y" "y \<in> set (store_files root ?b)"
    have "?a \<in> set native_stores" "?b \<in> set native_stores" by (simp_all add: native_stores_def)
    note entry [OF this(1), of "fst x" "snd x"] entry [OF this(2), of "fst y" "snd y"]
    then have "strict_prefix ?a q" "strict_prefix ?b q" using q by simp_all
    then show False by (auto simp: strict_prefix_def prefix_def)
  qed
  then show "distinct (map fst all)"
    using one by (simp add: all_def native_stores_def)
qed

text \<open>
  Property C26: a profile's native stores survive the round trip. Packing the directory of a dead
  browser (readable, with ordinary names, its store directories not links) and extracting the manifest
  into an empty new directory succeeds, and the new directory then holds exactly the regular files of
  the stores, at the same paths, with the same contents.
\<close>

theorem pack_extract_round_trip:
  assumes "tidy tree" "real_stores tree" "real_dir fs root" "\<And>p. strict_prefix root p \<Longrightarrow> fs p = None"
  shows "\<exists>entries fs'. pack_native (\<lambda>_. None) tree = Inr entries \<and>
     extract_into willing entries root fs = (Extracted (length entries), fs') \<and>
     (\<forall>p b. p \<noteq> [] \<longrightarrow> (fs' (root @ p) = Some (FileE b) \<longleftrightarrow> stored tree p b))"
proof -
  let ?all = "concat (map (store_files tree) native_stores)"
  note entry = collected(1) [OF assms(1,2)] and dist = collected(2) [OF assms(1,2)]
  have "holds root fs []" using assms(4) by (auto simp: holds_def strict_prefix_def)
  moreover have "q \<noteq> [] \<and> (\<forall>x \<in> set q. plain_name x)" if "(q, b) \<in> set ?all" for q b
  proof -
    have q: "stored tree q b" using that entry by simp
    then have "q \<noteq> []" by (auto simp: stored_def)
    then show ?thesis using q entry_plain [OF assms(1)] by (auto simp: stored_def)
  qed
  moreover have "q = p" if pq: "(q, b) \<in> set ([] @ ?all)" "(p, c) \<in> set ([] @ ?all)" "prefix q p" for q b p c
  proof -
    have "entry_at q tree = Some (FileN b)" "entry_at p tree = Some (FileN c)"
      using pq entry by (auto simp: stored_def)
    moreover obtain r where "p = q @ r" using pq(3) by (auto simp: prefix_def)
    ultimately show ?thesis by (cases r) (auto simp: entry_at_append)
  qed
  ultimately obtain fs' where fs': "extract_entries willing root (map to_entry ?all) 0 fs = (Extracted (0 + length ?all), fs')"
    "holds root fs' ([] @ ?all)"
    using extract_willing [OF assms(3), of "[]" ?all 0] dist by auto
  have "create_dir_all willing root fs = (Ok, fs)"
    using mkdirs_prefix [of fs "[]" root willing "[]"] assms(3) by (simp add: create_dir_all_def)
  then have "extract_into willing (map to_entry ?all) root fs = (Extracted (length (map to_entry ?all)), fs')"
    using fs'(1) by (simp add: extract_into_def)
  moreover have "fs' (root @ p) = Some (FileE b) \<longleftrightarrow> stored tree p b" if "p \<noteq> []" for p b
  proof -
    have "map_of ?all p = Some b \<longleftrightarrow> stored tree p b" using entry dist by simp
    then show ?thesis using fs'(2) that by (auto simp: holds_def split: option.splits)
  qed
  ultimately show ?thesis using pack_native_files [of tree] by blast
qed

definition bare_fs :: fs where
  "bare_fs = [[] \<mapsto> DirE, [''udd''] \<mapsto> DirE]"

lemma bare_fs_root: "real_dir bare_fs [''udd'']" "no_links bare_fs [''udd'']"
  "strict_prefix [''udd''] p \<Longrightarrow> bare_fs p = None"
  by (auto simp: real_dir_def no_links_def bare_fs_def prefix_Cons)

lemma traversal_refused:
  "extract_into willing [\<lparr>me_path = ''a/b'', me_bytes = [1]\<rparr>, \<lparr>me_path = ''x/../../etc'', me_bytes = [2]\<rparr>] [''udd''] bare_fs =
     (UnsafePath ''x/../../etc'', bare_fs([''udd'', ''a''] \<mapsto> DirE, [''udd'', ''a'', ''b''] \<mapsto> FileE [1]))"
  by (simp add: extract_into_def create_dir_all_def bare_fs_def safe_join_def components_def is_absolute_def
      starts_with_def part_component_def write_entry_def create_new_def willing_def)


definition small_tree :: node where
  "small_tree = DirN [(''Default'', DirN [(''IndexedDB'', DirN [(''f'', FileN [7]), (''l'', LinkN None)])])]"

lemma small_tree_ok: "tidy small_tree" "real_stores small_tree"
proof -
  have "p = [] \<and> es = [(''Default'', DirN [(''IndexedDB'', DirN [(''f'', FileN [7]), (''l'', LinkN None)])])] \<or>
      p = [''Default''] \<and> es = [(''IndexedDB'', DirN [(''f'', FileN [7]), (''l'', LinkN None)])] \<or>
      p = [''Default'', ''IndexedDB''] \<and> es = [(''f'', FileN [7]), (''l'', LinkN None)]"
    if "entry_at p small_tree = Some (DirN es)" for p es
    using that
    by (cases p; cases "tl p"; cases "tl (tl p)"; cases "tl (tl (tl p))")
       (auto simp: small_tree_def split: if_splits)
  then show "tidy small_tree"
    by (fastforce simp: tidy_def plain_name_def)
  show "real_stores small_tree"
    by (simp add: real_stores_def native_stores_def small_tree_def)
qed

theorem pack_extract_round_trip_witness:
  "\<exists>entries fs'. pack_native (\<lambda>_. None) small_tree = Inr entries \<and>
     extract_into willing entries [''udd''] bare_fs = (Extracted (length entries), fs') \<and>
     fs' [''udd'', ''Default'', ''IndexedDB'', ''f''] = Some (FileE [7])"
proof -
  have "stored small_tree [''Default'', ''IndexedDB'', ''f''] [7]"
    by (simp add: stored_def native_stores_def small_tree_def)
  then show ?thesis
    using pack_extract_round_trip [OF small_tree_ok bare_fs_root(1) bare_fs_root(3)] by fastforce
qed

section \<open>Links and dots\<close>

text \<open>
  A store directory that is itself a link is followed: packing collects the files of wherever it
  points. And a single dot inside a path is not refused but dropped.
\<close>

lemma linked_store_is_packed:
  "pack_native (\<lambda>_. None) (DirN [(''Default'', DirN [(''IndexedDB'', LinkN (Some (DirN [(''shadow'', FileN bs)])))])]) =
     Inr [\<lparr>me_path = ''Default/IndexedDB/shadow'', me_bytes = bs\<rparr>]"
proof -
  have "path_string [''Default'', ''IndexedDB'', ''shadow''] = ''Default/IndexedDB/shadow''"
    unfolding path_string_def by (subst lossy_ascii) simp_all
  then show ?thesis by (simp add: pack_native_def native_stores_def)
qed

lemma dot_is_dropped: "safe_join root ''a/./b'' = safe_join root ''a/b''"
  by (simp add: safe_join_def components_def is_absolute_def starts_with_def part_component_def)

end
