(* ===== verification/Retry.thy ===== *)
theory Retry
  imports Prelude
begin

text \<open>
  A loop that tries a number of times with growing pauses. The removal of a session's directory and of a
  control group leaf are of this form: attempt \<open>n\<close> runs on a state; when it is to be tried again and attempts are
  left, the pause before the next one is \<open>100 * n\<close> milliseconds.
\<close>

locale retry_loop =
  fixes loop :: "nat \<Rightarrow> 's \<Rightarrow> 'r \<times> nat list \<times> 's"
    and attempt :: "nat \<Rightarrow> 's \<Rightarrow> 'r \<times> 's"
    and again :: "'r \<Rightarrow> bool"
    and verdict :: "'r \<Rightarrow> 'r"
    and bound :: nat
  assumes loop_step: "n \<le> bound \<Longrightarrow> attempt n s = (r, s1) \<Longrightarrow>
      loop n s = (if again r \<and> n < bound
                  then (case loop (n + 1) s1 of (r2, pauses, s2) \<Rightarrow> (r2, 100 * n # pauses, s2))
                  else (verdict r, [], s1))"
begin

text \<open>
  What the loop returns is the verdict on its last attempt, which is the last one allowed if it was to be tried again;
  what every attempt keeps, the loop keeps.
\<close>

lemma loop_result:
  assumes "loop n s = (r, pauses, s')" "n \<le> bound" "I s" "\<And>n s r s1. I s \<Longrightarrow> attempt n s = (r, s1) \<Longrightarrow> I s1"
  shows "\<exists>k r0 s0. n + k \<le> bound \<and> pauses = map (\<lambda>i. 100 * i) [n ..< n + k] \<and> I s0 \<and>
     attempt (n + k) s0 = (r0, s') \<and> r = verdict r0 \<and> (again r0 \<longrightarrow> n + k = bound)"
  using assms(1-3)
proof (induction "bound - n" arbitrary: n s pauses)
  case 0
  obtain r0 s1 where a: "attempt n s = (r0, s1)" by (meson surj_pair)
  then show ?case using 0 loop_step [OF 0(3) a] by (intro exI [of _ 0] exI [of _ r0] exI [of _ s]) auto
next
  case (Suc m)
  obtain r0 s1 where a: "attempt n s = (r0, s1)" by (meson surj_pair)
  note step = loop_step [OF Suc(4) a]
  show ?case
  proof (cases "again r0 \<and> n < bound")
    case False
    then show ?thesis using Suc a step by (intro exI [of _ 0] exI [of _ r0] exI [of _ s]) auto
  next
    case True
    then obtain more where l: "loop (n + 1) s1 = (r, more, s')" "pauses = 100 * n # more"
      using Suc(3) step by (auto split: prod.splits)
    have "m = bound - (n + 1)" "n + 1 \<le> bound" "I s1" using Suc(2,5) True assms(4) [OF _ a] by auto
    from Suc(1) [OF this(1) l(1) this(2,3)] obtain k r1 s0 where k: "n + 1 + k \<le> bound"
      "more = map (\<lambda>i. 100 * i) [n + 1 ..< n + 1 + k]" "I s0" "attempt (n + 1 + k) s0 = (r1, s')" "r = verdict r1"
      "again r1 \<longrightarrow> n + 1 + k = bound" by blast
    have "pauses = map (\<lambda>i. 100 * i) [n ..< n + Suc k]" using l(2) k(2) by (simp add: upt_conv_Cons)
    then show ?thesis using k by (intro exI [of _ "Suc k"] exI [of _ r1] exI [of _ s0]) simp
  qed
qed

end

end
