(* ===== verification/Template.thy ===== *)
theory Template
  imports Manifest Factory Retry
begin

text \<open>
  \<^verbatim>\<open>src/template.rs\<close>, \<^verbatim>\<open>src/session_dirs.rs\<close> and the store copying of \<^verbatim>\<open>src/profile.rs\<close>: the directory of a
  session, cloned from a sealed template or created empty, and its removal. The tree that is copied is
  read as a \<open>node\<close>; what the operating system refuses and the reflink library are arguments.
\<close>

section \<open>Cloning a tree\<close>

text \<open>
  What a copy meets: errors of reading, of writing, and the reflink call, which may succeed, fail
  without a trace or leave a file behind.
\<close>

record copy_env =
  unreadable_at :: "path \<Rightarrow> fs_error option"
  copy_disk :: disk
  reflink_file :: "path \<Rightarrow> bytes \<Rightarrow> fs \<Rightarrow> bool \<times> fs"

definition copy_file :: "copy_env \<Rightarrow> bool \<Rightarrow> path \<Rightarrow> bytes \<Rightarrow> path \<Rightarrow> fs \<Rightarrow> outcome \<times> fs" where
  "copy_file env reflink from b to fs =
     (let (cloned, fs1) = (if reflink then reflink_file env to b fs else (False, fs))
      in if cloned then (Ok, fs1)
         else case unreadable_at env from of
                Some e \<Rightarrow> (Failed e, fs1)
              | None \<Rightarrow> copy_over (copy_disk env) to b fs1)"

text \<open>An entry that is a link is neither a directory nor a file.\<close>

function copy_tree :: "copy_env \<Rightarrow> bool \<Rightarrow> path \<Rightarrow> (string \<times> node) list \<Rightarrow> path \<Rightarrow> fs \<Rightarrow> outcome \<times> fs"
  and copy_entries :: "copy_env \<Rightarrow> bool \<Rightarrow> path \<Rightarrow> (string \<times> node) list \<Rightarrow> path \<Rightarrow> fs \<Rightarrow> outcome \<times> fs"
where
  "copy_tree env reflink from es to fs =
     (case create_dir_all (copy_disk env) to fs of
        (Ok, fs1) \<Rightarrow>
          (case unreadable_at env from of
             Some e \<Rightarrow> (Failed e, fs1)
           | None \<Rightarrow> copy_entries env reflink from es to fs1)
      | (stopped, fs1) \<Rightarrow> (stopped, fs1))"
| "copy_entries env reflink from [] to fs = (Ok, fs)"
| "copy_entries env reflink from ((x, LinkN t) # es) to fs = copy_entries env reflink from es to fs"
| "copy_entries env reflink from ((x, FileN b) # es) to fs =
     (case copy_file env reflink (from @ [x]) b (to @ [x]) fs of
        (Ok, fs1) \<Rightarrow> copy_entries env reflink from es to fs1
      | (stopped, fs1) \<Rightarrow> (stopped, fs1))"
| "copy_entries env reflink from ((x, DirN ds) # es) to fs =
     (case copy_tree env reflink (from @ [x]) ds (to @ [x]) fs of
        (Ok, fs1) \<Rightarrow> copy_entries env reflink from es to fs1
      | (stopped, fs1) \<Rightarrow> (stopped, fs1))"
  by pat_completeness auto
termination
  by (relation "measure (case_sum (\<lambda>(env, r, p, es, to, fs). 1 + size_list (size_prod (\<lambda>_. 0) size) es)
        (\<lambda>(env, r, p, es, to, fs). size_list (size_prod (\<lambda>_. 0) size) es))") auto

text \<open>Copying a directory that is found by its path: reading anything else fails.\<close>

definition copy_nothing :: "copy_env \<Rightarrow> fs_error \<Rightarrow> path \<Rightarrow> fs \<Rightarrow> outcome \<times> fs" where
  "copy_nothing env e to fs =
     (case create_dir_all (copy_disk env) to fs of
        (Ok, fs1) \<Rightarrow> (Failed e, fs1)
      | (stopped, fs1) \<Rightarrow> (stopped, fs1))"

definition copy_dir :: "copy_env \<Rightarrow> bool \<Rightarrow> node option \<Rightarrow> path \<Rightarrow> fs \<Rightarrow> outcome \<times> fs" where
  "copy_dir env reflink src to fs =
     (case src of
        None \<Rightarrow> copy_nothing env NotFound to fs
      | Some (DirN es) \<Rightarrow> copy_tree env reflink [] es to fs
      | Some _ \<Rightarrow> copy_nothing env NotADirectory to fs)"

definition clone_template :: "copy_env \<Rightarrow> profile_tier \<Rightarrow> node option \<Rightarrow> path \<Rightarrow> fs \<Rightarrow> outcome \<times> fs" where
  "clone_template env tier template dest fs =
     (case create_dir_all (copy_disk env) (butlast dest) fs of
        (Ok, fs1) \<Rightarrow> copy_dir env (tier = Reflink) template dest fs1
      | (stopped, fs1) \<Rightarrow> (stopped, fs1))"

definition template_path :: "path \<Rightarrow> string \<Rightarrow> path" where
  "template_path data_dir key = data_dir @ [''templates'', key]"

text \<open>The native stores of \<^verbatim>\<open>src/profile.rs\<close>: those that are directories are copied, the others skipped.\<close>

fun copy_stores :: "copy_env \<Rightarrow> bool \<Rightarrow> path list \<Rightarrow> node \<Rightarrow> path \<Rightarrow> fs \<Rightarrow> outcome \<times> fs" where
  "copy_stores env reflink [] from_root to_root fs = (Ok, fs)"
| "copy_stores env reflink (rel # rels) from_root to_root fs =
     (case resolve rel from_root of
        Some (DirN es) \<Rightarrow>
          (case copy_tree env reflink rel es (to_root @ rel) fs of
             (Ok, fs1) \<Rightarrow> copy_stores env reflink rels from_root to_root fs1
           | (stopped, fs1) \<Rightarrow> (stopped, fs1))
      | _ \<Rightarrow> copy_stores env reflink rels from_root to_root fs)"

definition copy_present_stores :: "copy_env \<Rightarrow> profile_tier \<Rightarrow> node \<Rightarrow> path \<Rightarrow> fs \<Rightarrow> outcome \<times> fs" where
  "copy_present_stores env tier from_root to_root fs =
     copy_stores env (tier = Reflink) native_stores from_root to_root fs"

definition snapshot_native :: "copy_env \<Rightarrow> profile_tier \<Rightarrow> node \<Rightarrow> path \<Rightarrow> fs \<Rightarrow> outcome \<times> fs" where
  "snapshot_native env tier udd dest fs = copy_present_stores env tier udd dest fs"

definition seed_native :: "copy_env \<Rightarrow> profile_tier \<Rightarrow> node \<Rightarrow> path \<Rightarrow> fs \<Rightarrow> outcome \<times> fs" where
  "seed_native env tier src udd fs = copy_present_stores env tier src udd fs"

section \<open>Sealing\<close>

text \<open>\<open>rms\<close> is what stops the removal at each path.\<close>

definition remove_if_present :: "(path \<Rightarrow> removal) \<Rightarrow> path \<Rightarrow> fs \<Rightarrow> outcome \<times> fs" where
  "remove_if_present rms p fs =
     (case reach fs [] (butlast p) of
        Ok \<Rightarrow>
          (case fs p of
             None \<Rightarrow> (Ok, fs)
           | Some DirE \<Rightarrow> remove_below (rms p) p fs
           | Some _ \<Rightarrow> remove_file (map_option snd (rms p)) p fs)
      | Failed NotFound \<Rightarrow> (Ok, fs)
      | stopped \<Rightarrow> (stopped, fs))"

fun remove_each :: "(path \<Rightarrow> removal) \<Rightarrow> path list \<Rightarrow> fs \<Rightarrow> outcome \<times> fs" where
  "remove_each rms [] fs = (Ok, fs)"
| "remove_each rms (p # ps) fs =
     (case remove_if_present rms p fs of
        (Ok, fs1) \<Rightarrow> remove_each rms ps fs1
      | (stopped, fs1) \<Rightarrow> (stopped, fs1))"

definition instance_markers :: "path \<Rightarrow> path list" where
  "instance_markers profile_dir =
     map (\<lambda>x. profile_dir @ [x]) [''SingletonLock'', ''SingletonSocket'', ''SingletonCookie''] @
     concat (map (\<lambda>rel. [profile_dir @ [''Default'', rel], profile_dir @ [rel]])
       [''RunningChromeVersion'', ''GPUCache'', ''ShaderCache'', ''GrShaderCache''])"

definition strip_for_seal :: "(path \<Rightarrow> removal) \<Rightarrow> path \<Rightarrow> fs \<Rightarrow> outcome \<times> fs" where
  "strip_for_seal rms profile_dir fs = remove_each rms (instance_markers profile_dir) fs"

section \<open>Session directories\<close>

record session_dirs =
  sd_root :: path
  sd_user_data_dir :: path

definition session_root :: "path \<Rightarrow> string \<Rightarrow> path" where
  "session_root data_dir id0 = data_dir @ [''sessions'', id0]"

definition provision_plain :: "disk \<Rightarrow> path \<Rightarrow> string \<Rightarrow> fs \<Rightarrow> (outcome + session_dirs) \<times> fs" where
  "provision_plain dk data_dir id0 fs =
     (let root = session_root data_dir id0; udd = root @ [''user-data-dir'']
      in case create_dir_all dk udd fs of
           (Ok, fs1) \<Rightarrow> (Inr \<lparr>sd_root = root, sd_user_data_dir = udd\<rparr>, fs1)
         | (stopped, fs1) \<Rightarrow> (Inl stopped, fs1))"

text \<open>
  The removal of a session's tree, with at most \<open>attempts\<close> tries: what remains to be reported and the
  pauses between the tries in milliseconds.
\<close>

definition attempts :: nat where "attempts = 5"

function teardown_from :: "nat \<Rightarrow> (nat \<Rightarrow> removal) \<Rightarrow> path \<Rightarrow> fs \<Rightarrow> outcome \<times> nat list \<times> fs" where
  "teardown_from attempt rms root fs =
     (case remove_dir_all (rms attempt) root fs of
        (Failed e, fs1) \<Rightarrow>
          (if e = NotFound then (Ok, [], fs1)
           else if attempt < attempts
           then (case teardown_from (attempt + 1) rms root fs1 of
                   (r, pauses, fs2) \<Rightarrow> (r, 100 * attempt # pauses, fs2))
           else (Failed e, [], fs1))
      | (r, fs1) \<Rightarrow> (r, [], fs1))"
  by pat_completeness auto
termination by (relation "measure (\<lambda>(attempt, rms, root, fs). attempts - attempt)") auto

declare teardown_from.simps [simp del]

definition dirs_teardown :: "(nat \<Rightarrow> removal) \<Rightarrow> session_dirs \<Rightarrow> fs \<Rightarrow> outcome \<times> nat list \<times> fs" where
  "dirs_teardown rms d fs = teardown_from 1 rms (sd_root d) fs"

text \<open>
  At start-up: the listing of the sessions directory, \<open>Inl\<close> an error of reading on, and the count of
  the trees that are gone.
\<close>

fun remove_entries :: "(string \<Rightarrow> removal) \<Rightarrow> path \<Rightarrow> (fs_error + string) list \<Rightarrow> nat \<Rightarrow> fs
    \<Rightarrow> (fs_error + nat) \<times> fs" where
  "remove_entries rms sessions [] removed fs = (Inr removed, fs)"
| "remove_entries rms sessions (Inl e # es) removed fs = (Inl e, fs)"
| "remove_entries rms sessions (Inr x # es) removed fs =
     (case remove_dir_all (rms x) (sessions @ [x]) fs of
        (Ok, fs1) \<Rightarrow> remove_entries rms sessions es (removed + 1) fs1
      | (_, fs1) \<Rightarrow> remove_entries rms sessions es removed fs1)"

definition clean_stale ::
    "(string \<Rightarrow> removal) \<Rightarrow> path \<Rightarrow> fs_error + (fs_error + string) list \<Rightarrow> fs \<Rightarrow> (fs_error + nat) \<times> fs" where
  "clean_stale rms data_dir listing fs =
     (case listing of
        Inl e \<Rightarrow> (if e = NotFound then Inr 0 else Inl e, fs)
      | Inr es \<Rightarrow> remove_entries rms (data_dir @ [''sessions'']) es 0 fs)"

section \<open>Copying stays inside\<close>

text \<open>What the reflink library documents: only the target changes, and it is a file with the contents on success.\<close>

definition reflink_ok :: "(path \<Rightarrow> bytes \<Rightarrow> fs \<Rightarrow> bool \<times> fs) \<Rightarrow> bool" where
  "reflink_ok rl \<longleftrightarrow>
     (\<forall>p b fs cloned fs'. rl p b fs = (cloned, fs') \<and> fs p \<noteq> Some LinkE \<longrightarrow>
        (\<forall>q. q \<noteq> p \<longrightarrow> fs' q = fs q) \<and> fs' p \<noteq> Some LinkE \<and> (fs' p = Some DirE \<longleftrightarrow> fs p = Some DirE) \<and>
        (cloned \<longrightarrow> fs' p = Some (FileE b)))"

definition within :: "path \<Rightarrow> fs \<Rightarrow> fs \<Rightarrow> bool" where
  "within root fs fs' \<longleftrightarrow>
     (\<forall>p. \<not> strict_prefix root p \<longrightarrow> fs' p = fs p) \<and> (\<forall>p. fs' p = Some LinkE \<longrightarrow> fs p = Some LinkE) \<and>
     (\<forall>p. fs p = Some DirE \<longrightarrow> fs' p = Some DirE)"

lemma within_refl [simp]: "within root fs fs"
  by (simp add: within_def)

lemma within_trans: "within root a b \<Longrightarrow> within root b c \<Longrightarrow> within root a c"
  unfolding within_def by metis

lemma within_one:
  assumes "\<And>q. q \<noteq> p \<Longrightarrow> fs' q = fs q" "fs' p \<noteq> Some LinkE" "fs p = Some DirE \<Longrightarrow> fs' p = Some DirE"
    and "strict_prefix root p"
  shows "within root fs fs'"
  unfolding within_def
proof (intro conjI allI impI)
  fix q
  show "\<not> strict_prefix root q \<Longrightarrow> fs' q = fs q" using assms(1,4) by (cases "q = p") simp_all
  show "fs' q = Some LinkE \<Longrightarrow> fs q = Some LinkE" using assms(1,2) by (cases "q = p") simp_all
  show "fs q = Some DirE \<Longrightarrow> fs' q = Some DirE" using assms(1,3) by (cases "q = p") simp_all
qed

lemma grows_within: "grows root fs fs' \<Longrightarrow> within root fs fs'"
  unfolding within_def by (metis grows_def grows_keeps)

lemma within_real_dir: "within root fs fs' \<Longrightarrow> real_dir fs root \<Longrightarrow> real_dir fs' root"
  by (simp add: within_def real_dir_def)

lemma within_no_links: "within root fs fs' \<Longrightarrow> no_links fs root \<Longrightarrow> no_links fs' root"
  by (auto simp: within_def no_links_def)

lemma no_link_on_the_way:
  assumes "real_dir fs root" "no_links fs root" "prefix root p" "prefix q p"
  shows "fs q \<noteq> Some LinkE"
proof (cases "prefix root q")
  case False
  then have "prefix q root" using assms(3,4) prefix_same_cases by blast
  then show ?thesis using assms(1) by (simp add: real_dir_def)
qed (use assms(2) in \<open>simp add: no_links_def\<close>)

lemma create_dir_all_below:
  assumes "real_dir fs root" "no_links fs root" "prefix root p" "create_dir_all dk p fs = (r, fs')"
  shows "r \<noteq> FollowsLink \<and> grows root fs fs' \<and> (r = Ok \<longrightarrow> real_dir fs' p)"
proof -
  obtain ys where p: "p = root @ ys" using assms(3) by (auto simp: prefix_def)
  have m: "mkdirs dk root ys fs = (r, fs')"
    using assms(4) mkdirs_prefix [of fs "[]" root dk ys] assms(1) by (simp add: create_dir_all_def p)
  have "r \<noteq> FollowsLink"
  proof
    assume "r = FollowsLink"
    then obtain q where "fs (root @ q) = Some LinkE" using mkdirs_result [OF m] by blast
    then show False using assms(2) by (auto simp: no_links_def)
  qed
  moreover have "grows root fs fs'" by (rule mkdirs_grows [OF _ m]) simp
  moreover have "real_dir fs' p" if "r = Ok"
    unfolding real_dir_def
  proof (intro allI impI)
    fix q assume "prefix q p"
    then consider "prefix q root" | x where "q = root @ x" "x \<noteq> []" "prefix x ys"
      unfolding p by (cases "q = root") (auto simp: prefix_append)
    then show "fs' q = Some DirE"
      using grows_real_dir [OF \<open>grows root fs fs'\<close> assms(1)] mkdirs_result [OF m] that
      by cases (auto simp: real_dir_def)
  qed
  ultimately show ?thesis by blast
qed

lemma copy_over_below:
  assumes "real_dir fs root" "no_links fs root" "strict_prefix root p" "copy_over dk p b fs = (r, fs')"
  shows "r \<noteq> FollowsLink \<and> within root fs fs' \<and> (\<forall>q. q \<noteq> p \<longrightarrow> fs' q = fs q) \<and>
     (r = Ok \<longrightarrow> fs' p = Some (FileE b))"
proof -
  have pre: "prefix root p" using assms(3) by (simp add: strict_prefix_def)
  have link: "fs p \<noteq> Some LinkE" using no_link_on_the_way [OF assms(1,2) pre] by blast
  have "reach fs [] (butlast p) \<noteq> FollowsLink"
  proof
    assume "reach fs [] (butlast p) = FollowsLink"
    from reach_follows [OF this] obtain q where "prefix q (butlast p)" "fs q = Some LinkE" by auto
    then show False
      using no_link_on_the_way [OF assms(1,2) pre, of q] prefixeq_butlast [of p] prefix_order.trans by blast
  qed
  moreover have "within root fs (fs(p \<mapsto> FileE c))" if "fs p \<noteq> Some DirE" for c
    using that assms(3) by (intro within_one [of p]) simp_all
  ultimately show ?thesis
    using assms(4) link
    by (auto simp: copy_over_def split: outcome.splits option.splits fs_entry.splits if_splits)
qed

lemma copy_file_below:
  assumes "reflink_ok (reflink_file env)" "real_dir fs root" "no_links fs root" "strict_prefix root p"
    and "copy_file env reflink src b p fs = (r, fs')"
  shows "r \<noteq> FollowsLink \<and> within root fs fs' \<and> (\<forall>q. q \<noteq> p \<longrightarrow> fs' q = fs q) \<and>
     (r = Ok \<longrightarrow> fs' p = Some (FileE b))"
proof -
  obtain cloned fs1 where c: "(if reflink then reflink_file env p b fs else (False, fs)) = (cloned, fs1)"
    by (meson surj_pair)
  have pre: "prefix root p" using assms(4) by (simp add: strict_prefix_def)
  have link: "fs p \<noteq> Some LinkE" using no_link_on_the_way [OF assms(2,3) pre] by blast
  have one: "(\<forall>q. q \<noteq> p \<longrightarrow> fs1 q = fs q) \<and> fs1 p \<noteq> Some LinkE \<and> (fs1 p = Some DirE \<longleftrightarrow> fs p = Some DirE) \<and>
      (cloned \<longrightarrow> fs1 p = Some (FileE b))"
  proof (cases reflink)
    case True
    then have "reflink_file env p b fs = (cloned, fs1) \<and> fs p \<noteq> Some LinkE" using c link by simp
    then show ?thesis using assms(1) [unfolded reflink_ok_def, rule_format, of p b fs cloned fs1] by blast
  qed (use c link in auto)
  then have w: "within root fs fs1" using assms(4) by (intro within_one [of p]) simp_all
  show ?thesis
  proof (cases cloned)
    case True
    then show ?thesis using assms(5) c one w by (simp add: copy_file_def)
  next
    case False
    then have rest: "(case unreadable_at env src of Some e \<Rightarrow> (Failed e, fs1)
        | None \<Rightarrow> copy_over (copy_disk env) p b fs1) = (r, fs')"
      using assms(5) c by (simp add: copy_file_def)
    show ?thesis
    proof (cases "unreadable_at env src")
      case None
      then have "copy_over (copy_disk env) p b fs1 = (r, fs')" using rest by simp
      from copy_over_below [OF within_real_dir [OF w assms(2)] within_no_links [OF w assms(3)] assms(4) this]
      show ?thesis using one within_trans [OF w] by auto
    qed (use rest one w in auto)
  qed
qed

lemma copy_confined:
  assumes "reflink_ok (reflink_file env)"
  shows "copy_tree env reflink src es to fs = (r, fs') \<Longrightarrow> real_dir fs root \<Longrightarrow> no_links fs root \<Longrightarrow> prefix root to \<Longrightarrow>
      r \<noteq> FollowsLink \<and> within root fs fs'"
    and "copy_entries env reflink src es to fs = (r, fs') \<Longrightarrow> real_dir fs root \<Longrightarrow> no_links fs root \<Longrightarrow> prefix root to \<Longrightarrow>
      r \<noteq> FollowsLink \<and> within root fs fs'"
  using assms
proof (induction env reflink src es to fs and env reflink src es to fs arbitrary: r fs' and r fs'
    rule: copy_tree_copy_entries.induct)
  case (1 env reflink src es to fs)
  obtain r1 fs1 where c: "create_dir_all (copy_disk env) to fs = (r1, fs1)" by (meson surj_pair)
  note b = create_dir_all_below [OF 1(3,4,5) c]
  then have w: "within root fs fs1" by (simp add: grows_within)
  show ?case
  proof (cases "r1 = Ok \<and> unreadable_at env src = None")
    case True
    then have "copy_entries env reflink src es to fs1 = (r, fs')" using 1(2) c by simp
    from 1(1) [OF c [symmetric] _ _ this within_real_dir [OF w 1(3)] within_no_links [OF w 1(4)] 1(5,6)] True w
    show ?thesis using within_trans by auto
  next
    case False
    then show ?thesis using 1(2) c b w by (auto split: outcome.splits option.splits)
  qed
next
  case (4 env reflink src x b es to fs)
  obtain r1 fs1 where c: "copy_file env reflink (src @ [x]) b (to @ [x]) fs = (r1, fs1)" by (meson surj_pair)
  have "strict_prefix root (to @ [x])" using 4(5) by (auto simp: strict_prefix_def prefix_def)
  note w = copy_file_below [OF 4(6,3,4) this c]
  show ?case
  proof (cases "r1 = Ok")
    case True
    then have "copy_entries env reflink src es to fs1 = (r, fs')" using 4(2) c by simp
    from 4(1) [OF c [symmetric] True this within_real_dir [OF _ 4(3)] within_no_links [OF _ 4(4)] 4(5,6)] w
    show ?thesis using within_trans by blast
  next
    case False
    then show ?thesis using 4(2) c w by (auto split: outcome.splits)
  qed
next
  case (5 env reflink src x ds es to fs)
  obtain r1 fs1 where c: "copy_tree env reflink (src @ [x]) ds (to @ [x]) fs = (r1, fs1)" by (meson surj_pair)
  have "prefix root (to @ [x])" using 5(6) by (auto simp: prefix_def)
  note w = 5(1) [OF c 5(4,5) this 5(7)]
  show ?case
  proof (cases "r1 = Ok")
    case True
    then have "copy_entries env reflink src es to fs1 = (r, fs')" using 5(3) c by simp
    from 5(2) [OF c [symmetric] True this within_real_dir [OF _ 5(4)] within_no_links [OF _ 5(5)] 5(6,7)] w
    show ?thesis using within_trans by blast
  next
    case False
    then show ?thesis using 5(3) c w by (auto split: outcome.splits)
  qed
qed simp_all

section \<open>A copy is exact\<close>

text \<open>Every directory lists each name once. The copy of a tree, entry by entry, without its links.\<close>

definition listed_once :: "node \<Rightarrow> bool" where
  "listed_once n \<longleftrightarrow> (\<forall>p es. entry_at p n = Some (DirN es) \<longrightarrow> distinct (map fst es))"

definition copied :: "node \<Rightarrow> fs" where
  "copied n q = Option.bind (entry_at q n) plain_entry"

lemma listed_once_child: "listed_once (DirN es) \<Longrightarrow> distinct (map fst es) \<and> (\<forall>(x, n) \<in> set es. listed_once n)"
proof (intro conjI ballI)
  assume l: "listed_once (DirN es)"
  show d: "distinct (map fst es)" using l [unfolded listed_once_def, rule_format, of "[]" es] by simp
  fix e assume e: "e \<in> set es"
  obtain x n where x: "e = (x, n)" by (cases e)
  have "distinct (map fst ds)" if "entry_at p n = Some (DirN ds)" for p ds
    using l [unfolded listed_once_def, rule_format, of "x # p" ds] d e x that by simp
  then show "case e of (x, n) \<Rightarrow> listed_once n" by (simp add: x listed_once_def)
qed

lemma copied_child: "distinct (map fst es) \<Longrightarrow> (x, n) \<in> set es \<Longrightarrow> copied (DirN es) (x # q) = copied n q"
  by (simp add: copied_def)

lemma copied_other: "x \<notin> fst ` set es \<Longrightarrow> copied (DirN es) (x # q) = None"
  by (simp add: copied_def map_of_eq_None_iff [symmetric])

lemma copied_here [simp]: "copied (DirN es) [] = Some DirE"
  by (simp add: copied_def)

lemma copied_link [simp]: "copied (LinkN t) q = None"
  by (cases q) (simp_all add: copied_def)

lemma copied_file: "copied (FileN b) q = (if q = [] then Some (FileE b) else None)"
  by (cases q) (simp_all add: copied_def)

lemma create_last:
  assumes "real_dir fs d" "fs (d @ [x]) \<in> {None, Some DirE}" "create_dir_all dk (d @ [x]) fs = (Ok, fs')"
  shows "fs' = fs(d @ [x] \<mapsto> DirE)"
proof -
  have "mkdirs dk d [x] fs = (Ok, fs')"
    using assms(3) mkdirs_prefix [of fs "[]" d dk "[x]"] assms(1) by (simp add: create_dir_all_def)
  then show ?thesis
    using assms(2) by (auto split: option.splits fs_entry.splits simp: fun_upd_idem)
qed

text \<open>The entries \<open>es\<close> are below \<open>to\<close> as they are in the source, links left out, and nothing else has changed.\<close>

definition copied_exactly :: "path \<Rightarrow> (string \<times> node) list \<Rightarrow> fs \<Rightarrow> fs \<Rightarrow> bool" where
  "copied_exactly to es fs fs' \<longleftrightarrow>
     (\<forall>(x, n) \<in> set es. \<forall>q. fs' (to @ x # q) = copied n q) \<and>
     (\<forall>p. (\<forall>x \<in> fst ` set es. \<not> prefix (to @ [x]) p) \<longrightarrow> fs' p = fs p)"

lemma exact_cons:
  assumes rest: "copied_exactly to es fs1 fs'" and "x \<notin> fst ` set es"
    and new: "\<And>q. fs1 (to @ x # q) = copied n q" and same: "\<And>p. \<not> prefix (to @ [x]) p \<Longrightarrow> fs1 p = fs p"
  shows "copied_exactly to ((x, n) # es) fs fs'"
proof -
  have "fs' (to @ x # q) = copied n q" for q
  proof -
    have "\<forall>y \<in> fst ` set es. \<not> prefix (to @ [y]) (to @ x # q)" using assms(2) by auto
    then have "fs' (to @ x # q) = fs1 (to @ x # q)" using rest unfolding copied_exactly_def by blast
    then show ?thesis using new by simp
  qed
  moreover have "fs' p = fs p" if "\<forall>y \<in> fst ` set ((x, n) # es). \<not> prefix (to @ [y]) p" for p
    using rest same that by (simp add: copied_exactly_def)
  ultimately show ?thesis using rest by (auto simp: copied_exactly_def)
qed

lemma exact_dir:
  assumes ex: "copied_exactly to es (fs(to \<mapsto> DirE)) fs'" and once: "listed_once (DirN es)"
    and none: "\<And>q. q \<noteq> [] \<Longrightarrow> fs (to @ q) = None"
  shows "(\<forall>q. fs' (to @ q) = copied (DirN es) q) \<and> (\<forall>p. \<not> prefix to p \<longrightarrow> fs' p = fs p)"
proof -
  have "fs' (to @ q) = copied (DirN es) q" for q
  proof (cases q)
    case Nil
    then show ?thesis using ex by (simp add: copied_exactly_def)
  next
    case (Cons y r)
    show ?thesis
    proof (cases "y \<in> fst ` set es")
      case True
      then obtain n where "(y, n) \<in> set es" by auto
      then show ?thesis using ex listed_once_child [OF once] copied_child Cons by (fastforce simp: copied_exactly_def)
    next
      case False
      then have "\<forall>x \<in> fst ` set es. \<not> prefix (to @ [x]) (to @ q)" by (auto simp: Cons)
      then have "fs' (to @ q) = (fs(to \<mapsto> DirE)) (to @ q)" using ex unfolding copied_exactly_def by blast
      then show ?thesis using False none Cons by (simp add: copied_other)
    qed
  qed
  moreover have "fs' p = fs p" if "\<not> prefix to p" for p
  proof -
    have "\<forall>x \<in> fst ` set es. \<not> prefix (to @ [x]) p" using that by (auto simp: prefix_def)
    then have "fs' p = (fs(to \<mapsto> DirE)) p" using ex unfolding copied_exactly_def by blast
    then show ?thesis using that by auto
  qed
  ultimately show ?thesis by blast
qed

lemma copy_exact:
  assumes "reflink_ok (reflink_file env)"
  shows "copy_tree env reflink src es to fs = (Ok, fs') \<Longrightarrow> listed_once (DirN es) \<Longrightarrow> to = d @ [x] \<Longrightarrow> real_dir fs d \<Longrightarrow>
      fs to \<in> {None, Some DirE} \<Longrightarrow> (\<And>q. q \<noteq> [] \<Longrightarrow> fs (to @ q) = None) \<Longrightarrow>
      (\<forall>q. fs' (to @ q) = copied (DirN es) q) \<and> (\<forall>p. \<not> prefix to p \<longrightarrow> fs' p = fs p)"
    and "copy_entries env reflink src es to fs = (Ok, fs') \<Longrightarrow> real_dir fs to \<Longrightarrow> no_links fs to \<Longrightarrow>
      distinct (map fst es) \<Longrightarrow> \<forall>(x, n) \<in> set es. listed_once n \<Longrightarrow> (\<And>x q. x \<in> fst ` set es \<Longrightarrow> fs (to @ x # q) = None) \<Longrightarrow>
      copied_exactly to es fs fs'"
  using assms
proof (induction env reflink src es to fs and env reflink src es to fs arbitrary: fs' d x and fs'
    rule: copy_tree_copy_entries.induct)
  case (1 env reflink src es to fs)
  obtain fs1 where c: "create_dir_all (copy_disk env) to fs = (Ok, fs1)" "unreadable_at env src = None"
    and e: "copy_entries env reflink src es to fs1 = (Ok, fs')"
    using 1(2) by (auto split: prod.splits outcome.splits option.splits)
  have fs1: "fs1 = fs(to \<mapsto> DirE)" using create_last [of fs d x "copy_disk env" fs1] 1(4,5,6) c(1) by simp
  have "real_dir fs1 to" using 1(5) by (auto simp: fs1 1(4) real_dir_def)
  moreover have "no_links fs1 to"
    unfolding no_links_def using 1(7) by (auto simp: fs1 prefix_def)
  moreover have "fs1 (to @ y # q) = None" for y q using 1(7) [of "y # q"] by (simp add: fs1)
  ultimately have "copied_exactly to es fs1 fs'"
    using listed_once_child [OF 1(3)] 1(8) by (intro 1(1) [OF c(1) [symmetric] refl c(2) e]) blast+
  then have "copied_exactly to es (fs(to \<mapsto> DirE)) fs'" by (simp add: fs1)
  then show ?case by (rule exact_dir [OF _ 1(3)]) (rule 1(7))
next
  case (2 env reflink src to fs)
  then show ?case by (simp add: copied_exactly_def)
next
  case (3 env reflink src x t es to fs)
  then have "copied_exactly to es fs fs'" by (intro 3(1)) auto
  then show ?case by (rule exact_cons) (use 3(5,7) in simp_all)
next
  case (4 env reflink src x b es to fs)
  obtain fs1 where c: "copy_file env reflink (src @ [x]) b (to @ [x]) fs = (Ok, fs1)"
    and e: "copy_entries env reflink src es to fs1 = (Ok, fs')"
    using 4(2) by (auto split: prod.splits outcome.splits)
  have "strict_prefix to (to @ [x])" by (simp add: strict_prefix_def)
  from copy_file_below [OF 4(8) 4(3,4) this c]
  have w: "within to fs fs1" and one: "\<forall>q. q \<noteq> to @ [x] \<longrightarrow> fs1 q = fs q" "fs1 (to @ [x]) = Some (FileE b)" by simp_all
  have "copied_exactly to es fs1 fs'"
  proof (rule 4(1) [OF c [symmetric] refl e])
    show "fs1 (to @ y # q) = None" if "y \<in> fst ` set es" for y q
    proof -
      have "to @ y # q \<noteq> to @ [x]" using 4(5) that by auto
      then show ?thesis using one(1) 4(7) [of y q] that by simp
    qed
  qed (use 4(5,6,8) within_real_dir [OF w 4(3)] within_no_links [OF w 4(4)] in simp_all)
  then show ?case
    by (rule exact_cons) (use 4(5) one 4(7) [of x] in \<open>auto simp: copied_file\<close>)
next
  case (5 env reflink src x ds es to fs)
  obtain fs1 where c: "copy_tree env reflink (src @ [x]) ds (to @ [x]) fs = (Ok, fs1)"
    and e: "copy_entries env reflink src es to fs1 = (Ok, fs')"
    using 5(3) by (auto split: prod.splits outcome.splits)
  have new: "fs (to @ x # q) = None" for q using 5(8) by simp
  have "listed_once (DirN ds)" using 5(7) by simp
  then have T: "(\<forall>q. fs1 ((to @ [x]) @ q) = copied (DirN ds) q) \<and> (\<forall>p. \<not> prefix (to @ [x]) p \<longrightarrow> fs1 p = fs p)"
    using new new [of "[]"] 5(4,9) by (intro 5(1) [OF c _ refl]) simp_all
  have "prefix to (to @ [x])" by simp
  from copy_confined(1) [OF 5(9) c 5(4,5) this] have w: "within to fs fs1" by simp
  have apart: "\<not> prefix (to @ [x]) (to @ y # q)" if "y \<in> fst ` set es" for y q
    using 5(6) that by auto
  have "copied_exactly to es fs1 fs'"
  proof (rule 5(2) [OF c [symmetric] refl e])
    show "fs1 (to @ y # q) = None" if "y \<in> fst ` set es" for y q
      using T apart [OF that, of q] 5(8) [of y q] that by simp
  qed (use 5(6,7,9) within_real_dir [OF w 5(4)] within_no_links [OF w 5(5)] in simp_all)
  then show ?case by (rule exact_cons) (use 5(6) T in simp_all)
qed

lemma mkdirs_changes: "mkdirs dk d xs fs = (r, fs') \<Longrightarrow> fs' p \<noteq> fs p \<Longrightarrow> prefix p (d @ xs) \<and> fs' p = Some DirE"
proof (induction dk d xs fs arbitrary: r fs' rule: mkdirs.induct)
  case (2 dk d x xs fs)
  show ?case
  proof (cases "fs (d @ [x])")
    case None
    show ?thesis
    proof (cases "refuses_create dk (d @ [x])")
      case None
      let ?g = "fs(d @ [x] \<mapsto> DirE)"
      have run: "mkdirs dk (d @ [x]) xs ?g = (r, fs')" using 2(3) \<open>fs (d @ [x]) = None\<close> None by simp
      show ?thesis
      proof (cases "fs' p = ?g p")
        case True
        then have "p = d @ [x]" using 2(4) by (auto split: if_splits)
        then show ?thesis using True by simp
      next
        case False
        then show ?thesis using 2(1) [OF \<open>fs (d @ [x]) = None\<close> None run] by simp
      qed
    qed (use 2(3,4) None in simp)
  next
    case (Some e)
    then show ?thesis using 2(2) [OF Some _, of r fs'] 2(3,4) by (cases e) auto
  qed
qed simp

text \<open>
  \<open>opens root fs fs'\<close>: what changes is in \<open>root\<close>, or is a directory that was made on the way to it.
\<close>

definition opens :: "path \<Rightarrow> fs \<Rightarrow> fs \<Rightarrow> bool" where
  "opens root fs fs' \<longleftrightarrow>
     (\<forall>p. fs' p = fs p \<or> prefix root p \<or> strict_prefix p root \<and> fs p = None \<and> fs' p = Some DirE)"

definition clear_way :: "fs \<Rightarrow> path \<Rightarrow> bool" where
  "clear_way fs p \<longleftrightarrow> fs [] = Some DirE \<and> (\<forall>q. prefix q p \<longrightarrow> fs q \<noteq> Some LinkE)"

lemma opens_trans: "opens root a b \<Longrightarrow> opens root b c \<Longrightarrow> opens root a c"
  unfolding opens_def by metis

lemma opens_below: "opens root fs fs' \<Longrightarrow> prefix q root \<Longrightarrow> q \<noteq> root \<Longrightarrow> fs q = Some e \<Longrightarrow> fs' q = Some e"
  unfolding opens_def by (metis option.distinct(1) prefix_order.antisym)

lemma within_opens: "within root fs fs' \<Longrightarrow> opens root fs fs'"
  unfolding opens_def within_def strict_prefix_def by blast

lemma create_dir_all_clear:
  assumes "clear_way fs p" "create_dir_all dk p fs = (r, fs')"
  shows "r \<noteq> FollowsLink \<and> (r = Ok \<longrightarrow> real_dir fs' p) \<and>
     (\<forall>q. fs' q = fs q \<or> prefix q p \<and> fs q = None \<and> fs' q = Some DirE)"
proof -
  have m: "mkdirs dk [] p fs = (r, fs')" using assms(2) by (simp add: create_dir_all_def)
  have g: "grows [] fs fs'" by (rule mkdirs_grows [OF _ m]) simp
  have "r \<noteq> FollowsLink"
    using mkdirs_result [OF m] assms(1) by (auto simp: clear_way_def)
  moreover have "fs' q = fs q \<or> prefix q p \<and> fs q = None \<and> fs' q = Some DirE" for q
    using mkdirs_changes [OF m, of q] g unfolding grows_def by auto
  moreover have "fs' [] = Some DirE" using grows_keeps [OF g] assms(1) by (simp add: clear_way_def)
  then have "r = Ok \<longrightarrow> real_dir fs' p"
    using mkdirs_result [OF m] by (auto simp: real_dir_def)
  ultimately show ?thesis by blast
qed

lemma opens_made:
  assumes "\<forall>q. fs' q = fs q \<or> prefix q p \<and> fs q = None \<and> fs' q = Some DirE" "prefix root p"
  shows "opens root fs fs'"
  unfolding opens_def
proof
  fix q
  show "fs' q = fs q \<or> prefix root q \<or> strict_prefix q root \<and> fs q = None \<and> fs' q = Some DirE"
    using assms prefix_same_cases [of q p root] by (cases "q = root") (auto simp: strict_prefix_def)
qed

lemma copy_tree_dir:
  assumes "reflink_ok (reflink_file env)" "real_dir fs base" "no_links fs base" "prefix base to"
    and "copy_tree env reflink src es to fs = (Ok, fs')"
  shows "real_dir fs' to"
proof -
  obtain fs1 where c: "create_dir_all (copy_disk env) to fs = (Ok, fs1)"
    and e: "copy_entries env reflink src es to fs1 = (Ok, fs')"
    using assms(5) by (auto split: prod.splits outcome.splits option.splits)
  have g: "grows base fs fs1" "real_dir fs1 to" using create_dir_all_below [OF assms(2,3,4) c] by simp_all
  have "no_links fs1 to"
    using grows_no_links [OF g(1) assms(3)] assms(4) prefix_order.trans by (auto simp: no_links_def)
  from copy_confined(2) [OF assms(1) e g(2) this] show ?thesis using within_real_dir g(2) by blast
qed

lemma copy_nothing_result:
  assumes made: "opens d fs fs1" and real: "real_dir fs1 d" and none: "no_links fs1 d"
    and no: "copy_nothing env e (d @ [x]) fs1 = (r, fs')"
  shows "r \<noteq> FollowsLink \<and> r \<noteq> Ok \<and> opens d fs fs' \<and> no_links fs' d"
proof -
  obtain r2 fs2 where c2: "create_dir_all (copy_disk env) (d @ [x]) fs1 = (r2, fs2)" by (meson surj_pair)
  have "prefix d (d @ [x])" by simp
  note b2 = create_dir_all_below [OF real none this c2]
  have "opens d fs fs2" "no_links fs2 d"
    using b2 opens_trans [OF made] within_opens grows_within grows_no_links none by blast+
  then show ?thesis using no c2 b2 by (cases r2) (auto simp: copy_nothing_def)
qed

lemma clone_template_result:
  assumes "reflink_ok (reflink_file env)" "clear_way fs d" "\<And>q. fs (d @ q) = None"
    and "clone_template env tier template (d @ [x]) fs = (r, fs')"
  shows "r \<noteq> FollowsLink \<and> opens d fs fs' \<and> no_links fs' d \<and>
     (r = Ok \<longrightarrow> real_dir fs' (d @ [x]) \<and> (\<exists>es. template = Some (DirN es)) \<and>
        (listed_once (the template) \<longrightarrow> (\<forall>q. fs' (d @ x # q) = copied (the template) q)))"
proof -
  obtain r1 fs1 where c: "create_dir_all (copy_disk env) d fs = (r1, fs1)" by (meson surj_pair)
  note b = create_dir_all_clear [OF assms(2) c]
  have made: "opens d fs fs1" by (rule opens_made [of _ _ d]) (use b in simp_all)
  have below: "fs1 (d @ q) = None" if "q \<noteq> []" for q using b assms(3) [of q] that by (metis append_self_conv prefix_order.antisym prefixI)
  have none: "no_links fs1 d"
    unfolding no_links_def using b assms(3) by (metis fs_entry.distinct(3) option.distinct(1) option.inject prefixE)
  show ?thesis
  proof (cases "r1 = Ok")
    case False
    then show ?thesis
      using assms(4) c b made none by (auto simp: clone_template_def split: outcome.splits)
  next
    case True
    then have real: "real_dir fs1 d" using b by simp
    have run: "copy_dir env (tier = Reflink) template (d @ [x]) fs1 = (r, fs')"
      using assms(4) c True by (simp add: clone_template_def)
    have fresh: "fs1 ((d @ [x]) @ q) = None" for q using below [of "x # q"] by simp
    show ?thesis
    proof (cases "\<exists>es. template = Some (DirN es)")
      case True
      then obtain es where t: "template = Some (DirN es)" by blast
      then have e: "copy_tree env (tier = Reflink) [] es (d @ [x]) fs1 = (r, fs')" using run by (simp add: copy_dir_def)
      have "listed_once (DirN es) \<Longrightarrow> r = Ok \<Longrightarrow> (\<forall>q. fs' ((d @ [x]) @ q) = copied (DirN es) q)"
        using copy_exact(1) [OF assms(1) _ _ refl real, of "tier = Reflink" "[]" es x fs'] e fresh fresh [of "[]"]
        by simp
      moreover have "r \<noteq> FollowsLink \<and> within d fs1 fs'"
        using copy_confined(1) [OF assms(1) e real none] by simp
      moreover have "r = Ok \<Longrightarrow> real_dir fs' (d @ [x])"
        using copy_tree_dir [OF assms(1) real none, of "d @ [x]" "tier = Reflink" "[]" es fs'] e by simp
      ultimately show ?thesis
        using t made within_no_links [OF _ none] within_opens opens_trans by auto
    next
      case False
      then obtain e where no: "copy_nothing env e (d @ [x]) fs1 = (r, fs')"
        using run by (cases "the template"; cases template) (auto simp: copy_dir_def)
      then show ?thesis using copy_nothing_result [OF made real none no] False by simp
    qed
  qed
qed

lemma provision_plain_result:
  assumes "clear_way fs root" "no_links fs root" "root = session_root data_dir id0"
    and "provision_plain dk data_dir id0 fs = (res, fs')"
  shows "opens root fs fs' \<and> no_links fs' root \<and> res \<noteq> Inl FollowsLink \<and>
     (\<forall>d. res = Inr d \<longrightarrow> d = \<lparr>sd_root = root, sd_user_data_dir = root @ [''user-data-dir'']\<rparr> \<and>
        real_dir fs' (sd_user_data_dir d))"
proof -
  let ?udd = "root @ [''user-data-dir'']"
  obtain r1 fs1 where c: "create_dir_all dk ?udd fs = (r1, fs1)" by (meson surj_pair)
  have "clear_way fs ?udd" using assms(1,2) by (auto simp: clear_way_def no_links_def)
  note b = create_dir_all_clear [OF this c]
  have "opens root fs fs1" by (rule opens_made [of _ _ ?udd]) (use b in auto)
  moreover have "no_links fs1 root"
    unfolding no_links_def using b assms(2) by (metis fs_entry.distinct(3) no_links_def option.inject)
  ultimately show ?thesis
    using assms(3,4) c b by (cases r1) (auto simp: provision_plain_def Let_def)
qed

section \<open>Removal\<close>

text \<open>
  Entries have their parents. A removal that is stopped keeps this, and does not report a missing entry
  while the tree is there.
\<close>

definition subtree_ok :: "path \<Rightarrow> fs \<Rightarrow> bool" where
  "subtree_ok root fs \<longleftrightarrow> (\<forall>p x. prefix root p \<and> fs (p @ [x]) \<noteq> None \<longrightarrow> fs p = Some DirE)"

definition tree_ok :: "fs \<Rightarrow> bool" where
  "tree_ok fs \<longleftrightarrow> (\<forall>p x. fs (p @ [x]) \<noteq> None \<longrightarrow> fs p = Some DirE)"

definition removal_ok :: "path \<Rightarrow> removal \<Rightarrow> bool" where
  "removal_ok root rm \<longleftrightarrow>
     (\<forall>survives e. rm = Some (survives, e) \<longrightarrow>
        e \<noteq> NotFound \<and> (\<forall>p x. prefix root p \<and> survives (p @ [x]) \<longrightarrow> survives p))"

lemma subtree_ok_below:
  "subtree_ok root fs \<Longrightarrow> prefix root p \<Longrightarrow> fs p \<noteq> Some DirE \<Longrightarrow> fs (p @ x # q) = None"
proof (induction q arbitrary: p x)
  case Nil
  then show ?case by (metis subtree_ok_def)
next
  case (Cons y q)
  have "fs (p @ [x]) = None" using Cons.prems by (metis subtree_ok_def)
  then have "fs ((p @ [x]) @ y # q) = None" using Cons.IH [of "p @ [x]" y] Cons.prems(1,2) by simp
  then show ?case by simp
qed

lemma tree_ok_below: "tree_ok fs \<Longrightarrow> fs p \<noteq> Some DirE \<Longrightarrow> fs (p @ x # q) = None"
  by (rule subtree_ok_below [of "[]"]) (simp_all add: subtree_ok_def tree_ok_def)

lemma remove_dir_all_result:
  assumes "tree_ok fs" "real_dir fs (butlast root)" "root \<noteq> []" "removal_ok root rm"
    and "remove_dir_all rm root fs = (r, fs')"
  shows "tree_ok fs' \<and> real_dir fs' (butlast root) \<and> r \<noteq> FollowsLink \<and>
     (r = Ok \<or> r = Failed NotFound \<longrightarrow> (\<forall>q. fs' (root @ q) = None))"
proof -
  have reach: "reach fs [] (butlast root) = Ok"
    using assms(2) reach_ok [of "butlast root" fs "[]"] by (simp add: real_dir_def)
  have up: "\<not> prefix root q" if "prefix q (butlast root)" for q
    using that assms(3) by (metis append_butlast_last_id prefix_order.antisym prefix_snocD prefix_order.trans
        prefixeq_butlast strict_prefix_def)
  have keep: "real_dir fs' (butlast root)"
    using remove_dir_all_outside(1) [OF assms(5)] up assms(2) by (simp add: real_dir_def)
  have off: "fs (root @ q) = None" if "fs root \<noteq> Some DirE" "q \<noteq> []" for q
    using that tree_ok_below [OF assms(1)] by (cases q) auto
  show ?thesis
  proof (cases "fs root = Some DirE \<or> fs root = Some LinkE")
    case False
    then have "fs' = fs \<and> r \<noteq> Ok \<and> r \<noteq> FollowsLink \<and> (r = Failed NotFound \<longleftrightarrow> fs root = None)"
      using assms(5) reach by (auto simp: remove_dir_all_def split: option.splits fs_entry.splits)
    moreover have "fs (root @ q) = None" if "fs root = None" for q using off [of q] that by (cases "q = []") simp_all
    ultimately show ?thesis using assms(1) keep by auto
  next
    case True
    then consider (dir) "remove_below rm root fs = (r, fs')"
      | (link) "fs root = Some LinkE" "remove_file (map_option snd rm) root fs = (r, fs')"
      using assms(5) reach by (auto simp: remove_dir_all_def)
    then show ?thesis
    proof cases
      case link
      then have "tree_ok (fs(root := None))"
        using assms(1) off by (auto simp: tree_ok_def)
      then show ?thesis
        using link assms(1,4) keep off
        by (auto simp: remove_file_def removal_ok_def split: option.splits)
    next
      case dir
      have "tree_ok fs'"
        unfolding tree_ok_def
      proof (intro allI impI)
        fix p x assume e: "fs' (p @ [x]) \<noteq> None"
        then have "fs (p @ [x]) \<noteq> None" using remove_dir_all_outside(2) [OF assms(5)] by metis
        then have "fs p = Some DirE" using assms(1) unfolding tree_ok_def by blast
        then show "fs' p = Some DirE"
          using e dir assms(4)
          by (auto simp: remove_below_def removal_ok_def split: option.splits if_splits) blast+
      qed
      then show ?thesis
        using dir assms(4) keep by (auto simp: remove_below_def removal_ok_def split: option.splits)
    qed
  qed
qed

interpretation removal: retry_loop "\<lambda>n. teardown_from n rms root" "\<lambda>n. remove_dir_all (rms n) root"
    "\<lambda>r. \<exists>e. r = Failed e \<and> e \<noteq> NotFound" "\<lambda>r. if r = Failed NotFound then Ok else r" attempts
  for rms root
  by unfold_locales (subst teardown_from.simps, auto split: outcome.splits)

lemma teardown_from_result:
  assumes "tree_ok fs" "real_dir fs (butlast root)" "root \<noteq> []" "\<And>k. removal_ok root (rms k)"
    and "teardown_from n rms root fs = (r, pauses, fs')" "n \<le> attempts"
  shows "tree_ok fs' \<and> (\<forall>p. \<not> prefix root p \<longrightarrow> fs' p = fs p) \<and>
     (\<exists>k. n + k \<le> attempts \<and> pauses = map (\<lambda>i. 100 * i) [n ..< n + k] \<and> (r \<noteq> Ok \<longrightarrow> n + k = attempts)) \<and>
     (r = Ok \<longrightarrow> (\<forall>q. fs' (root @ q) = None)) \<and> (r \<noteq> Ok \<longrightarrow> (\<exists>e. r = Failed e))"
proof -
  let ?I = "\<lambda>g. tree_ok g \<and> real_dir g (butlast root) \<and> (\<forall>p. \<not> prefix root p \<longrightarrow> g p = fs p)"
  have "?I fs" using assms(1,2) by simp
  moreover have "?I g1" if "?I g" "remove_dir_all (rms m) root g = (r1, g1)" for m g r1 g1
    using remove_dir_all_result [OF _ _ assms(3,4) that(2)] remove_dir_all_outside(1) [OF that(2)] that(1) by simp
  ultimately have "\<exists>k r0 g. n + k \<le> attempts \<and> pauses = map (\<lambda>i. 100 * i) [n ..< n + k] \<and> ?I g \<and>
      remove_dir_all (rms (n + k)) root g = (r0, fs') \<and> r = (if r0 = Failed NotFound then Ok else r0) \<and>
      ((\<exists>e. r0 = Failed e \<and> e \<noteq> NotFound) \<longrightarrow> n + k = attempts)"
    by (rule removal.loop_result [OF assms(5,6)])
  then obtain k r0 g where k: "n + k \<le> attempts" "pauses = map (\<lambda>i. 100 * i) [n ..< n + k]" "?I g"
    "remove_dir_all (rms (n + k)) root g = (r0, fs')" "r = (if r0 = Failed NotFound then Ok else r0)"
    "(\<exists>e. r0 = Failed e \<and> e \<noteq> NotFound) \<longrightarrow> n + k = attempts" by blast
  note R = remove_dir_all_result [OF _ _ assms(3,4) k(4)]
  have "r0 = Ok \<or> (\<exists>e. r0 = Failed e)" using R k(3) by (cases r0) auto
  then show ?thesis using R k remove_dir_all_outside(1) [OF k(4)] by auto
qed

text \<open>
  Property C20: the removal of a session's directory ends, and touches nothing else. Whatever the
  operating system stops, it makes at most five attempts, with pauses of 100, 200, 300 and 400
  milliseconds between them; no entry outside the directory changes; when it reports success, nothing
  of the directory is left; when it reports an error, all five attempts have failed.
\<close>

theorem session_dir_removed:
  assumes "tree_ok fs" "real_dir fs (butlast (sd_root d))" "sd_root d \<noteq> []"
    and "\<And>k. removal_ok (sd_root d) (rms k)" "dirs_teardown rms d fs = (r, pauses, fs')"
  shows "prefix pauses [100, 200, 300, 400] \<and> tree_ok fs' \<and> (\<forall>p. \<not> prefix (sd_root d) p \<longrightarrow> fs' p = fs p) \<and>
     (if r = Ok then \<forall>q. fs' (sd_root d @ q) = None
      else pauses = [100, 200, 300, 400] \<and> (\<exists>e. r = Failed e))"
proof -
  have t: "teardown_from 1 rms (sd_root d) fs = (r, pauses, fs')" using assms(5) by (simp add: dirs_teardown_def)
  have "1 \<le> attempts" by (simp add: attempts_def)
  note R = teardown_from_result [OF assms(1-4) t this]
  then obtain k where k: "1 + k \<le> attempts" "pauses = map (\<lambda>i. 100 * i) [1 ..< 1 + k]" "r \<noteq> Ok \<longrightarrow> 1 + k = attempts"
    by blast
  have all: "map (\<lambda>i. 100 * i) [1 ..< 5] = [100, 200, 300, 400 :: nat]" by (simp add: upt_rec)
  have "pauses = take k [100, 200, 300, 400]"
    using k(1,2) by (simp add: all [symmetric] take_map take_upt attempts_def)
  moreover from this have "prefix pauses [100, 200, 300, 400]" by (simp add: take_is_prefix)
  moreover have "pauses = [100, 200, 300, 400]" if "r \<noteq> Ok"
    using k(3) that calculation(1) by (simp add: attempts_def)
  ultimately show ?thesis using R by simp
qed

definition one_session :: fs where
  "one_session = [[] \<mapsto> DirE, [''s''] \<mapsto> DirE, [''s'', ''Cookies''] \<mapsto> FileE [1]]"

theorem session_dir_removed_witness:
  "\<exists>pauses fs'. dirs_teardown (\<lambda>k. if k = 1 then Some (\<lambda>p. True, OtherFs ''busy'') else None)
       \<lparr>sd_root = [''s''], sd_user_data_dir = [''s'', ''user-data-dir'']\<rparr> one_session = (Ok, pauses, fs') \<and>
     prefix pauses [100, 200, 300, 400] \<and> fs' [''s'', ''Cookies''] = None"
proof -
  let ?rms = "\<lambda>k :: nat. if k = 1 then Some (\<lambda>p :: path. True, OtherFs ''busy'') else None"
  let ?d = "\<lparr>sd_root = [''s''], sd_user_data_dir = [''s'', ''user-data-dir'']\<rparr>"
  obtain r pauses fs' where t: "dirs_teardown ?rms ?d one_session = (r, pauses, fs')" by (meson prod_cases3)
  have ok: "r = Ok"
    using t
    by (simp add: dirs_teardown_def teardown_from.simps [of "Suc 0"] teardown_from.simps [of 2] teardown_from.simps [of "Suc (Suc 0)"] attempts_def
        remove_dir_all_def remove_below_def one_session_def split: prod.splits)
  have fs: "tree_ok one_session" "real_dir one_session (butlast (sd_root ?d))"
    by (auto simp: tree_ok_def real_dir_def one_session_def)
  have rms: "removal_ok (sd_root ?d) (?rms k)" for k by (simp add: removal_ok_def)
  have ne: "sd_root ?d \<noteq> []" by simp
  have "prefix pauses [100, 200, 300, 400]" "\<forall>q. fs' ([''s''] @ q) = None"
    using session_dir_removed [OF fs ne rms t] ok by simp_all
  then have "fs' [''s'', ''Cookies''] = None" by (metis append_Cons append_Nil)
  then show ?thesis using t ok \<open>prefix pauses [100, 200, 300, 400]\<close> by blast
qed

section \<open>Sealing removes every marker\<close>

lemma reach_append: "real_dir fs (d @ xs) \<Longrightarrow> reach fs d (xs @ ys) = reach fs (d @ xs) ys"
proof (induction xs arbitrary: d)
  case (Cons x xs)
  have "fs (d @ [x]) = Some DirE" using Cons.prems by (auto simp: real_dir_def)
  then show ?case using Cons.IH [of "d @ [x]"] Cons.prems by simp
qed simp

lemma remove_if_present_all:
  assumes "subtree_ok root fs" "real_dir fs root" "fs (root @ [''Default'']) \<in> {None, Some DirE}"
    and "p = root @ [x] \<or> p = root @ [''Default'', x]"
  shows "remove_if_present (\<lambda>_. None) p fs = (Ok, \<lambda>q. if prefix p q then None else fs q)"
proof -
  have below: "fs q = None" if "fs p \<noteq> Some DirE" "strict_prefix p q" for q
  proof -
    obtain y ys where "q = p @ y # ys" using \<open>strict_prefix p q\<close> by (metis strict_prefixE')
    moreover have "prefix root p" using assms(4) by auto
    ultimately show ?thesis using subtree_ok_below [OF assms(1)] that(1) by simp
  qed
  have gone: "fs(p := None) = (\<lambda>q. if prefix p q then None else fs q)" if "fs p \<noteq> Some DirE"
    using below [OF that] by (auto simp: fun_eq_iff strict_prefix_def)
  have same: "(\<lambda>q. if prefix p q then None else fs q) = fs" if "fs p = None"
    using gone that by (metis fun_upd_triv option.distinct(1))
  have "reach fs [] (butlast p) = Ok \<or> reach fs [] (butlast p) = Failed NotFound \<and> fs p = None"
    using assms(4)
  proof
    assume p: "p = root @ [x]"
    then show ?thesis using reach_append [of fs "[]" root "[]"] assms(2) by simp
  next
    assume p: "p = root @ [''Default'', x]"
    then have "butlast p = root @ [''Default'']" by (simp add: butlast_append)
    then show ?thesis
      using reach_append [of fs "[]" root "[''Default'']"] assms(2,3)
        subtree_ok_below [OF assms(1), of "root @ [''Default'']" x "[]"] p by auto
  qed
  then show ?thesis
    using gone same
    by (auto simp: remove_if_present_def remove_below_def remove_file_def split: option.splits fs_entry.splits)
qed

lemma remove_each_all:
  assumes "\<And>p. p \<in> set ps \<Longrightarrow> \<exists>x. p = root @ [x] \<and> x \<noteq> ''Default'' \<or> p = root @ [''Default'', x]"
    and "subtree_ok root fs" "real_dir fs root" "fs (root @ [''Default'']) \<in> {None, Some DirE}"
  shows "remove_each (\<lambda>_. None) ps fs = (Ok, \<lambda>q. if \<exists>p \<in> set ps. prefix p q then None else fs q)"
  using assms
proof (induction ps arbitrary: fs)
  case (Cons p ps)
  obtain x where p: "p = root @ [x] \<and> x \<noteq> ''Default'' \<or> p = root @ [''Default'', x]"
    using Cons.prems(1) [of p] by auto
  let ?fs1 = "\<lambda>q. if prefix p q then None else fs q"
  have one: "remove_if_present (\<lambda>_. None) p fs = (Ok, ?fs1)"
    using remove_if_present_all [OF Cons.prems(2,3,4)] p by blast
  have off: "\<not> prefix p q" if "prefix q root \<or> q = root @ [''Default'']" for q
    using that p by (auto simp: prefix_def)
  have "subtree_ok root ?fs1"
    using Cons.prems(2) by (auto simp: subtree_ok_def)
  moreover have "real_dir ?fs1 root" using Cons.prems(3) off by (auto simp: real_dir_def)
  moreover have "?fs1 (root @ [''Default'']) \<in> {None, Some DirE}" using Cons.prems(4) off by auto
  ultimately have "remove_each (\<lambda>_. None) ps ?fs1 = (Ok, \<lambda>q. if \<exists>p \<in> set ps. prefix p q then None else ?fs1 q)"
    using Cons.prems(1) by (intro Cons.IH) auto
  then show ?case using one by (auto simp: fun_eq_iff)
qed simp

lemma strip_all:
  assumes "subtree_ok root fs" "real_dir fs root" "fs (root @ [''Default'']) \<in> {None, Some DirE}"
  shows "strip_for_seal (\<lambda>_. None) root fs =
    (Ok, \<lambda>q. if \<exists>p \<in> set (instance_markers root). prefix p q then None else fs q)"
  unfolding strip_for_seal_def
proof (rule remove_each_all [OF _ assms])
  show "p \<in> set (instance_markers root) \<Longrightarrow> \<exists>x. p = root @ [x] \<and> x \<noteq> ''Default'' \<or> p = root @ [''Default'', x]" for p
    by (simp only: instance_markers_def list.map concat.simps append.simps list.set insert_iff empty_iff)
      (elim disjE; simp)
qed

end
