(* ===== verification/Factory_Dirs.thy ===== *)
theory Factory_Dirs
  imports Template
begin

text \<open>
  The parts of \<^verbatim>\<open>src/factory.rs\<close> that touch the disk, over the file system model: warming and sealing
  the profile template, provisioning a session's directory from it, seeding a profile, and removing the
  directory when a session cannot start or ends.
\<close>

section \<open>Definitions\<close>

definition show_path :: "path \<Rightarrow> string" where
  "show_path p = concat (map (\<lambda>x. ''/'' @ x) p)"

text \<open>
  What a provisioning meets: errors of copying, and the directory found at a path when it is read. The
  blocking task that clones is taken to return.
\<close>

record dirs_env =
  de_copy :: copy_env
  de_reads :: "path \<Rightarrow> node option"

definition provision_dirs :: "dirs_env \<Rightarrow> path \<Rightarrow> string \<Rightarrow> factory \<Rightarrow> fs \<Rightarrow> (outcome + session_dirs) \<times> fs" where
  "provision_dirs env data_dir id0 f fs =
     (case template_dir f of
        None \<Rightarrow> provision_plain (copy_disk (de_copy env)) data_dir id0 fs
      | Some template \<Rightarrow>
          (let root = session_root data_dir id0; udd = root @ [''user-data-dir'']
           in case clone_template (de_copy env) (profile (f_tiers f)) (de_reads env template) udd fs of
                (Ok, fs1) \<Rightarrow> (Inr \<lparr>sd_root = root, sd_user_data_dir = udd\<rparr>, fs1)
              | (Failed e, fs1) \<Rightarrow> provision_plain (copy_disk (de_copy env)) data_dir id0 fs1
              | (FollowsLink, fs1) \<Rightarrow> (Inl FollowsLink, fs1)))"

text \<open>
  The template is warmed once: a browser runs on a scratch directory, is measured and taken down; what
  it leaves is stripped and moved to the template's path. \<open>te_writes\<close> is what the browser does to the disk.
\<close>

record template_env =
  te_launch :: "launch_spec \<Rightarrow> launch_error + browser"
  te_rss :: "u64 option"
  te_threads :: "u64 option"
  te_writes :: "fs \<Rightarrow> fs"
  te_disk :: disk
  te_old :: removal
  te_strip :: "path \<Rightarrow> removal"
  te_rename :: "fs_error option"
  te_teardown :: "nat \<Rightarrow> removal"

definition measured_footprint :: "template_env \<Rightarrow> session_footprint" where
  "measured_footprint env =
     \<lparr>fp_bytes = (case te_rss env of None \<Rightarrow> 0 | Some n \<Rightarrow> n),
      fp_threads = (case te_threads env of None \<Rightarrow> 0 | Some n \<Rightarrow> n)\<rparr>"

definition note_footprint :: "session_footprint \<Rightarrow> factory \<Rightarrow> factory" where
  "note_footprint m f = (if 0 < fp_bytes m \<or> 0 < fp_threads m then f\<lparr>footprint := Some m\<rparr> else f)"

text \<open>Sealing: the results of all steps but the last are not looked at.\<close>

definition seal :: "template_env \<Rightarrow> session_dirs \<Rightarrow> path \<Rightarrow> fs \<Rightarrow> bool \<times> fs" where
  "seal env scratch template fs =
     (let (_, fs1) = create_dir_all (te_disk env) (butlast template) fs;
          (_, fs2) = remove_dir_all (te_old env) template fs1;
          (_, fs3) = strip_for_seal (te_strip env) (sd_user_data_dir scratch) fs2;
          (moved, fs4) = rename_dir (te_rename env) (sd_user_data_dir scratch) template fs3
      in (moved = Ok, fs4))"

definition prepare_template :: "template_env \<Rightarrow> path \<Rightarrow> string \<Rightarrow> factory \<Rightarrow> fs \<Rightarrow> factory \<times> fs" where
  "prepare_template env data_dir id0 f fs =
     (if template_dir f \<noteq> None then (f, fs)
      else case provision_plain (te_disk env) data_dir id0 fs of
             (Inl stopped, fs1) \<Rightarrow> (f, fs1)
           | (Inr scratch, fs1) \<Rightarrow>
               (case launch_browser (te_launch env) (show_path (sd_user_data_dir scratch)) None (f_extra_flags f) f of
                  (Inl e, f1, tried) \<Rightarrow>
                    (f1, snd (snd (dirs_teardown (te_teardown env) scratch (te_writes env fs1))))
                | (Inr b, f1, tried) \<Rightarrow>
                    (let f2 = note_footprint (measured_footprint env) (note_version (version b) f1);
                         template = template_path data_dir (browser_key (version b));
                         (sealed, fs2) = seal env scratch template (te_writes env fs1);
                         f3 = (if sealed then f2\<lparr>template_dir := Some template\<rparr> else f2)
                     in (f3, snd (snd (dirs_teardown (te_teardown env) scratch fs2))))))"

text \<open>
  A session from provisioning to its launch, and the removal of its directory when it fails on the way.
  \<open>se_writes\<close> is what a browser that was tried does to the disk.
\<close>

record session_env =
  se_dirs :: dirs_env
  se_launch :: "launch_spec \<Rightarrow> launch_error + browser"
  se_show :: "launch_error \<Rightarrow> string"
  se_own_pid :: nat
  se_leaf :: bool
  se_writes :: "fs \<Rightarrow> fs"
  se_teardown :: "nat \<Rightarrow> removal"

definition seed_files :: "disk \<Rightarrow> manifest_entry list \<Rightarrow> session_dirs \<Rightarrow> fs \<Rightarrow> string option \<times> fs" where
  "seed_files dk entries0 d fs =
     (if entries0 = [] then (None, fs)
      else case extract_into dk entries0 (sd_user_data_dir d) fs of
             (Extracted n, fs1) \<Rightarrow> (None, fs1)
           | (_, fs1) \<Rightarrow> (Some ''profile seed failed'', fs1))"

definition seeded_session ::
    "session_env \<Rightarrow> path \<Rightarrow> string \<Rightarrow> manifest_entry list \<Rightarrow> string option \<Rightarrow> factory \<Rightarrow> fs
     \<Rightarrow> (string + chrome_session) \<times> factory \<times> fs" where
  "seeded_session env data_dir id0 entries0 r f fs =
     (case provision_dirs (se_dirs env) data_dir id0 f fs of
        (Inl stopped, fs1) \<Rightarrow> (Inl ''session dir provisioning failed'', f, fs1)
      | (Inr d, fs1) \<Rightarrow>
          (let (seed_error, fs2) = seed_files (copy_disk (de_copy (se_dirs env))) entries0 d fs1;
               (res, f1, tried, fx) =
                 create_seeded (se_launch env) (se_show env) (se_own_pid env) (se_leaf env)
                   (Inr (show_path (sd_user_data_dir d))) (entries0 \<noteq> []) seed_error r f;
               fs3 = (if tried = [] then fs2 else se_writes env fs2)
           in case res of
                Inr s \<Rightarrow> (Inr s, f1, fs3)
              | Inl e \<Rightarrow> (Inl e, f1, snd (snd (dirs_teardown (se_teardown env) d fs3)))))"

text \<open>
  The end of a session whose native layer is wanted: the browser is taken down, then its stores are
  packed and its local storage is read from the directory, which is removed last. \<open>fs\<close> is the disk that
  the dead browser leaves.
\<close>

definition destroy_capturing_native ::
    "wait_result \<Rightarrow> wait_result \<Rightarrow> wait_result \<Rightarrow> (path \<Rightarrow> fs_error option) \<Rightarrow> (path \<Rightarrow> node option)
     \<Rightarrow> (path \<Rightarrow> 'o list) \<Rightarrow> (nat \<Rightarrow> removal) \<Rightarrow> session_dirs \<Rightarrow> chrome_session \<Rightarrow> fs
     \<Rightarrow> (manifest_entry list \<times> 'o list) \<times> signal list \<times> effect list \<times> fs" where
  "destroy_capturing_native close_wait term_wait kill_wait unreadable reads read_storage rms d s fs =
     (let (_, sigs, fx) = kill_session close_wait term_wait kill_wait s;
          udd = sd_user_data_dir d;
          packed = (case reads udd of
                      None \<Rightarrow> []
                    | Some tree \<Rightarrow> (case pack_native unreadable tree of Inl e \<Rightarrow> [] | Inr es \<Rightarrow> es));
          storage = read_storage (udd @ [''Default'']);
          (_, _, fs1) = dirs_teardown rms d fs
      in ((packed, storage), sigs, fx, fs1))"

section \<open>A session's directory\<close>

lemma fresh_no_links: "(\<And>q. fs (root @ q) = None) \<Longrightarrow> no_links fs root"
  by (auto simp: no_links_def prefix_def)

lemma provision_dirs_result:
  assumes "reflink_ok (reflink_file (de_copy env))" "clear_way fs root" "root = session_root data_dir id0"
    and "\<And>q. fs (root @ q) = None" "provision_dirs env data_dir id0 f fs = (res, fs')"
  shows "opens root fs fs' \<and> no_links fs' root \<and>
     (\<forall>d. res = Inr d \<longrightarrow> d = \<lparr>sd_root = root, sd_user_data_dir = root @ [''user-data-dir'']\<rparr> \<and>
        real_dir fs' (sd_user_data_dir d))"
proof (cases "template_dir f")
  case None
  then show ?thesis
    using provision_plain_result [OF assms(2) fresh_no_links [of fs root, OF assms(4)] assms(3), of "copy_disk (de_copy env)" res fs']
      assms(5) by (simp add: provision_dirs_def)
next
  case (Some t)
  obtain r1 fs1 where c: "clone_template (de_copy env) (profile (f_tiers f)) (de_reads env t)
      (root @ [''user-data-dir'']) fs = (r1, fs1)" by (meson surj_pair)
  note C = clone_template_result [OF assms(1,2,4) c]
  show ?thesis
  proof (cases r1)
    case Ok
    then have "res = Inr \<lparr>sd_root = root, sd_user_data_dir = root @ [''user-data-dir'']\<rparr>" "fs' = fs1"
      using assms(3,5) Some c by (simp_all add: provision_dirs_def Let_def)
    then show ?thesis using C Ok by simp
  next
    case (Failed e)
    then have run: "provision_plain (copy_disk (de_copy env)) data_dir id0 fs1 = (res, fs')"
      using assms(3,5) Some c by (simp add: provision_dirs_def Let_def)
    have "clear_way fs1 root"
      unfolding clear_way_def
    proof (intro conjI allI impI)
      have "fs [] = Some DirE" "root \<noteq> []" using assms(2,3) by (simp_all add: clear_way_def session_root_def)
      then show "fs1 [] = Some DirE" using C opens_below [of root fs fs1 "[]"] by simp
      fix q assume "prefix q root"
      then show "fs1 q \<noteq> Some LinkE"
        using C assms(2) unfolding opens_def clear_way_def no_links_def by (metis fs_entry.distinct(3) option.inject)
    qed
    from provision_plain_result [OF this _ assms(3) run] show ?thesis using C opens_trans by blast
  next
    case FollowsLink
    then show ?thesis using C by simp
  qed
qed

lemma seed_files_result:
  assumes "real_dir fs (sd_user_data_dir d)" "no_links fs (sd_user_data_dir d)" "seed_files dk es d fs = (r, fs')"
  shows "grows (sd_user_data_dir d) fs fs'"
proof (cases "es = []")
  case False
  obtain x fs1 where x: "extract_into dk es (sd_user_data_dir d) fs = (x, fs1)" by (meson surj_pair)
  have "fs' = fs1" using assms(3) False x by (auto simp: seed_files_def split: extract_result.splits)
  then show ?thesis using extract_into_result [OF assms(1,2) x] by simp
qed (use assms(3) in \<open>simp add: seed_files_def\<close>)

lemma teardown_from_outside:
  "teardown_from n rms root fs = (r, pauses, fs') \<Longrightarrow> \<not> prefix root p \<Longrightarrow> fs' p = fs p"
proof (induction n rms root fs arbitrary: r pauses fs' rule: teardown_from.induct)
  case (1 n rms root fs)
  obtain r1 fs1 where one: "remove_dir_all (rms n) root fs = (r1, fs1)" by (meson surj_pair)
  note out = remove_dir_all_outside(1) [OF one 1(3)]
  show ?case
  proof (cases "\<exists>e. r1 = Failed e \<and> e \<noteq> NotFound \<and> n < attempts")
    case True
    then obtain e more where e: "r1 = Failed e" "e \<noteq> NotFound" "n < attempts"
      and t: "teardown_from (n + 1) rms root fs1 = (r, more, fs')"
      using 1(2) one by (auto simp: teardown_from.simps [of n] split: prod.splits)
    then show ?thesis using 1(1) [OF one [symmetric] e t 1(3)] out by simp
  next
    case False
    then have "fs' = fs1" using 1(2) one by (cases r1) (auto simp: teardown_from.simps [of n] split: if_splits)
    then show ?thesis using out by simp
  qed
qed

lemma teardown_first:
  assumes "real_dir fs (butlast (sd_root d))" "fs (sd_root d) = Some DirE" "rms 1 = None"
    and "dirs_teardown rms d fs = (r, pauses, fs')"
  shows "fs' (sd_root d @ q) = None"
proof -
  have "reach fs [] (butlast (sd_root d)) = Ok"
    using assms(1) reach_ok [of "butlast (sd_root d)" fs "[]"] by (simp add: real_dir_def)
  then have "fs' = (\<lambda>q. if prefix (sd_root d) q then None else fs q)"
    using assms(2-4) by (simp add: dirs_teardown_def teardown_from.simps [of "Suc 0"] remove_dir_all_def remove_below_def)
  then show ?thesis by simp
qed

lemma create_seeded_dirs:
  assumes "create_seeded launch0 show_error own_pid created (Inr udd) has_files seed_error r f = (res, f', tried, fx)"
    and "res = Inr s"
  shows "dirs s = udd \<and> (has_files \<longrightarrow> seed_error = None)"
  using assms
  by (auto simp: create_seeded_def split: option.splits if_splits elim!: launch_session_outcome [where res = "Inr s"]
      split: sum.splits)

text \<open>The directory while the browser runs: what the seeding and the browser wrote is below it.\<close>

lemma session_fs:
  assumes "grows udd fs1 fs2" "real_dir fs1 udd" "udd = root @ [x]"
    and "\<And>fs p. \<not> strict_prefix root p \<Longrightarrow> writes0 fs p = fs p"
    and "fs3 = (if quiet then fs2 else writes0 fs2)"
  shows "real_dir fs3 root" "\<not> prefix root q \<Longrightarrow> fs3 q = fs1 q"
proof -
  have "\<not> strict_prefix root q" if "prefix q root" for q using that by (metis prefix_order.less_le_not_le)
  moreover have "real_dir fs2 root" using grows_real_dir [OF assms(1,2)] by (auto simp: assms(3) real_dir_def)
  ultimately show "real_dir fs3 root" using assms(4,5) by (simp add: real_dir_def)
  assume "\<not> prefix root q"
  then have "\<not> strict_prefix root q" "\<not> strict_prefix udd q" by (auto simp: assms(3) strict_prefix_def prefix_def)
  moreover from this(2) have "fs2 q = fs1 q" using assms(1) unfolding grows_def by metis
  ultimately show "fs3 q = fs1 q" using assms(4,5) by simp
qed


definition copying :: copy_env where
  "copying = \<lparr>unreadable_at = (\<lambda>_. None), copy_disk = willing, reflink_file = (\<lambda>p b fs. (False, fs))\<rparr>"

lemma copying_ok: "reflink_ok (reflink_file copying)"
  by (auto simp: reflink_ok_def copying_def)

definition failing_session :: session_env where
  "failing_session =
     \<lparr>se_dirs = \<lparr>de_copy = copying, de_reads = (\<lambda>_. None)\<rparr>, se_launch = (\<lambda>_. Inl (Spawn ''x'')), se_show = (\<lambda>_. ''no''),
      se_own_pid = 7, se_leaf = False, se_writes = id, se_teardown = (\<lambda>_. None)\<rparr>"

definition data_fs :: fs where
  "data_fs = [[] \<mapsto> DirE, [''data''] \<mapsto> DirE]"

lemma data_fs_ok: "clear_way data_fs p"
  by (simp add: data_fs_def clear_way_def)


section \<open>The sealed template\<close>

lemma instance_markers_map: "instance_markers d = map (\<lambda>r. d @ r) (instance_markers [])"
  by (simp add: instance_markers_def)

text \<open>What the warming browser left in its scratch directory, once it is dead.\<close>

definition left_behind :: "template_env \<Rightarrow> path \<Rightarrow> string \<Rightarrow> fs \<Rightarrow> fs" where
  "left_behind env data_dir id0 fs = te_writes env (snd (provision_plain (te_disk env) data_dir id0 fs))"

text \<open>Making way for the template, at its place and above, touches nothing on the path of the source or below it.\<close>

lemma seal_keeps_source:
  assumes t: "t = data_dir @ [''templates'', key]" and udd: "udd = data_dir @ [''sessions'', id0, ''user-data-dir'']"
    and "real_dir fs data_dir" "create_dir_all dk (butlast t) fs = (r1, a)" and b: "remove_dir_all old t a = (r2, b)"
    and "prefix udd p \<or> prefix p udd"
  shows "b p = fs p"
proof -
  have m: "mkdirs dk data_dir [''templates''] fs = (r1, a)"
    using assms(4) mkdirs_prefix [of fs "[]" data_dir dk "[''templates'']"] assms(3)
    by (simp add: create_dir_all_def t butlast_append)
  have grow: "grows data_dir fs a" by (rule mkdirs_grows [OF _ m]) simp
  have "\<not> prefix t p"
    using assms(6) by (auto simp: udd t prefix_def append_eq_append_conv2 append_eq_Cons_conv Cons_eq_append_conv)
  then have "b p = a p" by (rule remove_dir_all_outside(1) [OF b])
  moreover have "a p = fs p"
  proof (rule ccontr)
    assume ch: "a p \<noteq> fs p"
    then have "prefix p (data_dir @ [''templates''])" using mkdirs_changes [OF m] by simp
    moreover have "strict_prefix data_dir p" using ch grow unfolding grows_def by metis
    ultimately have "p = data_dir @ [''templates'']"
      by (metis prefix_order.antisym prefix_snocD prefix_snoc strict_prefix_def)
    then show False using assms(6) by (auto simp: udd prefix_def append_eq_append_conv2 append_eq_Cons_conv Cons_eq_append_conv)
  qed
  ultimately show ?thesis by simp
qed

lemma seal_moves:
  assumes "seal env scratch t fs = (True, fs')" "te_strip env = (\<lambda>_. None)"
    and "scratch = \<lparr>sd_root = session_root data_dir id0, sd_user_data_dir = udd\<rparr>"
    and "udd = session_root data_dir id0 @ [''user-data-dir'']" "t = template_path data_dir key"
    and "real_dir fs udd" "subtree_ok udd fs" "fs (udd @ [''Default'']) \<in> {None, Some DirE}"
  shows "fs' (t @ q) = (if \<exists>m \<in> set (instance_markers udd). prefix m (udd @ q) then None else fs (udd @ q))"
proof -
  obtain r1 a where a: "create_dir_all (te_disk env) (butlast t) fs = (r1, a)" by (meson surj_pair)
  obtain r2 b where b: "remove_dir_all (te_old env) t a = (r2, b)" by (meson surj_pair)
  obtain r3 c where c: "strip_for_seal (te_strip env) udd b = (r3, c)" by (meson surj_pair)
  have mv: "rename_dir (te_rename env) udd t c = (Ok, fs')"
    using assms(1,3) a b c by (auto simp: seal_def Let_def split: prod.splits)
  have t: "butlast t = data_dir @ [''templates'']" "udd = data_dir @ [''sessions'', id0, ''user-data-dir'']"
    by (simp_all add: assms(4,5) template_path_def session_root_def butlast_append)
  have real: "real_dir fs data_dir" using assms(6) by (auto simp: real_dir_def t(2))
  have ba: "b p = fs p" if "prefix udd p \<or> prefix p udd" for p
    by (rule seal_keeps_source [OF _ _ real a b that]) (simp_all add: t(2) assms(5) template_path_def)
  have sub: "subtree_ok udd b"
    unfolding subtree_ok_def
  proof (intro allI impI)
    fix p x assume px: "prefix udd p \<and> b (p @ [x]) \<noteq> None"
    then have "b (p @ [x]) = fs (p @ [x])" "b p = fs p" using ba by simp_all
    then show "b p = Some DirE" using px assms(7) unfolding subtree_ok_def by metis
  qed
  have "real_dir b udd" using assms(6) ba by (simp add: real_dir_def)
  moreover have "b (udd @ [''Default'']) \<in> {None, Some DirE}" using assms(8) ba [of "udd @ [''Default'']"] by simp
  ultimately have "c = (\<lambda>q. if \<exists>m \<in> set (instance_markers udd). prefix m q then None else b q)"
    using strip_all [OF sub] c assms(2) by simp
  moreover have "fs' (t @ q) = c (udd @ q)"
    using mv by (auto simp: rename_dir_def split: option.splits)
  ultimately show ?thesis using ba [of "udd @ q"] by simp
qed

lemma sealed_template:
  assumes "prepare_template env data_dir id0 f fs = (f', fs')" "template_dir f = None" "template_dir f' = Some t"
    and "clear_way fs (session_root data_dir id0)" "\<And>q. fs (session_root data_dir id0 @ q) = None"
    and "te_strip env = (\<lambda>_. None)" "udd = session_root data_dir id0 @ [''user-data-dir'']" "left = left_behind env data_dir id0 fs"
    and "\<And>p. prefix p udd \<Longrightarrow> left p = snd (provision_plain (te_disk env) data_dir id0 fs) p"
    and "subtree_ok udd left" "left (udd @ [''Default'']) \<in> {None, Some DirE}"
  shows "\<exists>key. t = template_path data_dir key"
    and "fs' (t @ q) = (if \<exists>m \<in> set (instance_markers udd). prefix m (udd @ q) then None else left (udd @ q))"
proof -
  obtain pr fs1 where p: "provision_plain (te_disk env) data_dir id0 fs = (pr, fs1)" by (meson surj_pair)
  note P = provision_plain_result [OF assms(4) fresh_no_links [of fs "session_root data_dir id0", OF assms(5)] refl p]
  have keeps: "template_dir g = template_dir f" if "launch_browser l u c e f = (r, g, tr)" for l u c e r g tr
    using that by (auto simp: launch_browser_def Let_def split: sum.splits if_splits)
  obtain scratch where s: "pr = Inr scratch"
    using assms(1-3) p by (cases pr) (auto simp: prepare_template_def)
  then have sc: "scratch = \<lparr>sd_root = session_root data_dir id0, sd_user_data_dir = udd\<rparr>" "real_dir fs1 udd"
    using P assms(7) by auto
  obtain lr f1 tr where l: "launch_browser (te_launch env) (show_path udd) None (f_extra_flags f) f = (lr, f1, tr)"
    by (meson prod_cases3)
  have left: "te_writes env fs1 = left" using p by (simp add: assms(8) left_behind_def)
  obtain b where b: "lr = Inr b"
    using assms(1-3) p s sc l keeps by (cases lr) (auto simp: prepare_template_def)
  let ?t = "template_path data_dir (browser_key (version b))"
  obtain ok fs2 where sl: "seal env scratch ?t left = (ok, fs2)" by (meson surj_pair)
  have run: "t = ?t \<and> ok \<and> fs' = snd (snd (dirs_teardown (te_teardown env) scratch fs2))"
    using assms(1-3) p s sc l b sl keeps [OF l] left
    by (auto simp: prepare_template_def Let_def note_footprint_def note_version_def split: if_splits)
  then show "\<exists>key. t = template_path data_dir key" by blast
  have "real_dir left udd" using sc(2) assms(9) p by (simp add: real_dir_def)
  note moved = seal_moves [OF _ assms(6) sc(1) assms(7) _ this assms(10,11), of t fs2 "browser_key (version b)" q]
  have "\<not> prefix (sd_root scratch) (t @ q)" by (simp add: run sc(1) template_path_def session_root_def)
  then have "fs' (t @ q) = fs2 (t @ q)"
    using run teardown_from_outside [of 1 "te_teardown env" "sd_root scratch" fs2 _ _ _ "t @ q"]
    by (metis dirs_teardown_def prod.collapse)
  then show "fs' (t @ q) = (if \<exists>m \<in> set (instance_markers udd). prefix m (udd @ q) then None else left (udd @ q))"
    using moved sl run by simp
qed


definition warm_udd :: path where
  "warm_udd = [''data'', ''sessions'', ''w'', ''user-data-dir'']"

definition warming :: template_env where
  "warming =
     \<lparr>te_launch = (\<lambda>_. Inr \<lparr>pid = 5, version = \<lparr>product = ''Chrome/1'', protocol_version = [], user_agent = [], js_version = []\<rparr>,
          has_pipe = True\<rparr>),
      te_rss = None, te_threads = None,
      te_writes = (\<lambda>fs. fs(warm_udd @ [''SingletonLock''] \<mapsto> LinkE, warm_udd @ [''Local State''] \<mapsto> FileE [1])),
      te_disk = willing, te_old = None, te_strip = (\<lambda>_. None), te_rename = None, te_teardown = (\<lambda>_. None)\<rparr>"

definition warm_fs :: fs where
  "warm_fs = left_behind warming [''data''] ''w'' data_fs"

lemma warm_fs_eq: "warm_fs =
   [[] \<mapsto> DirE, [''data''] \<mapsto> DirE, [''data'', ''sessions''] \<mapsto> DirE, [''data'', ''sessions'', ''w''] \<mapsto> DirE,
    warm_udd \<mapsto> DirE, warm_udd @ [''SingletonLock''] \<mapsto> LinkE, warm_udd @ [''Local State''] \<mapsto> FileE [1]]"
  by (simp add: warm_fs_def left_behind_def warming_def provision_plain_def create_dir_all_def willing_def
      session_root_def data_fs_def Let_def warm_udd_def)

lemma warm_key: "browser_key \<lparr>product = ''Chrome/1'', protocol_version = [], user_agent = [], js_version = []\<rparr> = ''chrome-1''"
  by code_simp

lemma warm_fs_ok:
  "real_dir (warm_fs) warm_udd"
  "subtree_ok warm_udd (warm_fs)"
  "warm_fs (warm_udd @ [''Default'']) \<in> {None, Some DirE}"
proof -
  let ?L = "warm_fs"
  show "real_dir ?L warm_udd"
    by (auto simp: real_dir_def warm_fs_eq warm_udd_def prefix_Cons)
  show "?L (warm_udd @ [''Default'']) \<in> {None, Some DirE}"
    by (simp add: warm_fs_eq warm_udd_def)
  show "subtree_ok warm_udd ?L"
    by (auto simp: subtree_ok_def warm_fs_eq warm_udd_def append_eq_Cons_conv Cons_eq_append_conv prefix_def
        split: if_splits)
qed

lemma warm_seal:
  "fst (seal warming \<lparr>sd_root = [''data'', ''sessions'', ''w''], sd_user_data_dir = warm_udd\<rparr>
     [''data'', ''templates'', ''chrome-1''] (warm_fs))"
proof -
  let ?L = "warm_fs"
  let ?M = "?L([''data'', ''templates''] \<mapsto> DirE)"
  have a: "create_dir_all willing [''data'', ''templates''] ?L = (Ok, ?M)"
    by (simp add: create_dir_all_def willing_def warm_fs_eq warm_udd_def)
  have b: "remove_dir_all None [''data'', ''templates'', ''chrome-1''] ?M = (Failed NotFound, ?M)"
    by (simp add: remove_dir_all_def warm_fs_eq warm_udd_def)
  have off: "?M q = ?L q" if "prefix q warm_udd \<or> prefix warm_udd q" for q
    using that by (auto simp: warm_udd_def prefix_def)
  have "subtree_ok warm_udd ?M"
    unfolding subtree_ok_def
  proof (intro allI impI)
    fix p x assume px: "prefix warm_udd p \<and> ?M (p @ [x]) \<noteq> None"
    then have "?M (p @ [x]) = ?L (p @ [x])" "?M p = ?L p" using off [of p] off [of "p @ [x]"] by simp_all
    then show "?M p = Some DirE" using px warm_fs_ok(2) unfolding subtree_ok_def by metis
  qed
  moreover have "real_dir ?M warm_udd" unfolding real_dir_def using warm_fs_ok(1) off by (metis real_dir_def)
  moreover have "?M (warm_udd @ [''Default'']) \<in> {None, Some DirE}"
    using warm_fs_ok(3) off [of "warm_udd @ [''Default'']"] by simp
  ultimately obtain c where c: "strip_for_seal (\<lambda>_. None) warm_udd ?M = (Ok, c)"
    "c = (\<lambda>q. if \<exists>p \<in> set (instance_markers warm_udd). prefix p q then None else ?M q)"
    using strip_all by blast
  have "\<not> prefix p warm_udd" if "p \<in> set (instance_markers warm_udd)" for p
    using that by (auto simp: instance_markers_map [of warm_udd] instance_markers_def)
  then have "c warm_udd = Some DirE" using c(2) warm_fs_ok(1) off [of warm_udd] by (auto simp: real_dir_def)
  then have "fst (rename_dir None warm_udd [''data'', ''templates'', ''chrome-1''] c) = Ok"
    by (simp add: rename_dir_def)
  then show ?thesis
    using a b c(1) by (simp add: seal_def warming_def split_beta)
qed

lemma prepare_template_seals:
  assumes "template_dir f = None" "provision_plain (te_disk env) data_dir id0 fs = (Inr scratch, fs1)"
    and "launch_browser (te_launch env) (show_path (sd_user_data_dir scratch)) None (f_extra_flags f) f = (Inr b, f1, tried)"
    and "fst (seal env scratch (template_path data_dir (browser_key (version b))) (te_writes env fs1))"
  shows "template_dir (fst (prepare_template env data_dir id0 f fs)) =
    Some (template_path data_dir (browser_key (version b)))"
  using assms by (simp add: prepare_template_def Let_def split_beta)

lemma warm_sealed:
  "template_dir (fst (prepare_template warming [''data''] ''w''
     (factory_new demo_config ''chrome'' demo_tiers None None None) data_fs)) = Some [''data'', ''templates'', ''chrome-1'']"
proof -
  let ?f = "factory_new demo_config ''chrome'' demo_tiers None None None"
  let ?b = "\<lparr>pid = 5, version = \<lparr>product = ''Chrome/1'', protocol_version = [], user_agent = [], js_version = []\<rparr>,
     has_pipe = True\<rparr>"
  let ?scratch = "\<lparr>sd_root = [''data'', ''sessions'', ''w''], sd_user_data_dir = warm_udd\<rparr>"
  have p: "provision_plain (te_disk warming) [''data''] ''w'' data_fs =
      (Inr ?scratch, snd (provision_plain (te_disk warming) [''data''] ''w'' data_fs))"
    by (simp add: warming_def provision_plain_def create_dir_all_def willing_def session_root_def data_fs_def Let_def warm_udd_def)
  have l: "launch_browser (te_launch warming) (show_path (sd_user_data_dir ?scratch)) None (f_extra_flags ?f) ?f =
      (Inr ?b, ?f, [launch_spec ?f (show_path (sd_user_data_dir ?scratch)) None (f_extra_flags ?f)])"
    by (simp add: launch_browser_def warming_def Let_def)
  have t: "template_path [''data''] (browser_key (version ?b)) = [''data'', ''templates'', ''chrome-1'']"
    by (simp add: template_path_def warm_key)
  have "template_dir ?f = None" by (simp add: factory_new_def)
  from prepare_template_seals [OF this p l, unfolded t] warm_seal show ?thesis
    by (simp only: warm_fs_def left_behind_def)
qed

definition clean_tree :: node where
  "clean_tree = DirN [(''Local State'', FileN [1])]"

lemma clean_tree_copied:
  "copied clean_tree q =
     (let e = (if \<exists>m \<in> set (instance_markers warm_udd). prefix m (warm_udd @ q) then None else warm_fs (warm_udd @ q))
      in if e = Some LinkE then None else e)"
proof -
  have gone: "warm_fs (warm_udd @ q) = (if q = [] then Some DirE else if q = [''SingletonLock''] then Some LinkE
      else if q = [''Local State''] then Some (FileE [1]) else None)"
    by (auto simp: warm_fs_eq warm_udd_def)
  have m: "\<exists>m \<in> set (instance_markers warm_udd). prefix m (warm_udd @ [''SingletonLock''])"
    "\<not> (\<exists>m \<in> set (instance_markers warm_udd). prefix m (warm_udd @ []))"
    "\<not> (\<exists>m \<in> set (instance_markers warm_udd). prefix m (warm_udd @ [''Local State'']))"
    by (simp_all add: instance_markers_map [of warm_udd] instance_markers_def)
  have c: "copied clean_tree q = (if q = [] then Some DirE else if q = [''Local State''] then Some (FileE [1]) else None)"
    by (cases q rule: list.exhaust; cases "tl q") (auto simp: copied_def clean_tree_def)
  show ?thesis
    unfolding Let_def c gone using m
    by (cases "q = []"; cases "q = [''SingletonLock'']"; cases "q = [''Local State'']") simp_all
qed

lemma clean_tree_once: "listed_once clean_tree"
proof -
  have "es = [(''Local State'', FileN [1])]" if "entry_at p clean_tree = Some (DirN es)" for p es
    using that by (cases p; cases "tl p") (auto simp: clean_tree_def split: if_splits)
  then show ?thesis by (fastforce simp: listed_once_def)
qed


text \<open>
  A clone that fails half-way is not removed: the fallback finds the directory there already, and the
  session is served with the part that was copied.
\<close>

definition short_disk :: disk where
  "short_disk = \<lparr>refuses_create = (\<lambda>_. None), refuses_write = (\<lambda>p. if last p = ''b'' then Some (0, OtherFs ''full'') else None)\<rparr>"

lemma partial_clone_is_served:
  "\<exists>fs'. provision_dirs
       \<lparr>de_copy = copying\<lparr>copy_disk := short_disk\<rparr>, de_reads = (\<lambda>_. Some (DirN [(''a'', FileN [1]), (''b'', FileN [2])]))\<rparr>
       [''data''] ''s''
       ((factory_new demo_config ''chrome'' demo_tiers None None None)\<lparr>template_dir := Some [''data'', ''templates'', ''t'']\<rparr>)
       data_fs =
     (Inr \<lparr>sd_root = [''data'', ''sessions'', ''s''], sd_user_data_dir = [''data'', ''sessions'', ''s'', ''user-data-dir'']\<rparr>, fs') \<and>
     fs' [''data'', ''sessions'', ''s'', ''user-data-dir'', ''a''] = Some (FileE [1]) \<and>
     fs' [''data'', ''sessions'', ''s'', ''user-data-dir'', ''b''] = Some (FileE [])"
  by (simp add: provision_dirs_def provision_plain_def clone_template_def copy_dir_def copying_def create_dir_all_def
      data_fs_def session_root_def copy_file_def copy_over_def short_disk_def factory_new_def demo_tiers_def Let_def)

end
