(* ===== verification/Rss.thy ===== *)
theory Rss
  imports Prelude
begin

text \<open>
  \<^verbatim>\<open>src/rss.rs\<close>: sums over a process tree. The list of processes is what the procfs crate reads (an
  argument, \<open>None\<close> when /proc is unreadable). The depth-first walk keeps a set of visited
  processes, so it ends on every process table, and the theorem says what it adds up.
\<close>

section \<open>Definitions\<close>

record proc_stat =
  pid :: int
  ppid :: int
  rss :: u64
  num_threads :: int

text \<open>The two hash maps: the value of a pid (the last entry wins) and the pids of its children.\<close>

definition value_by_pid :: "(proc_stat \<Rightarrow> u64) \<Rightarrow> proc_stat list \<Rightarrow> int \<Rightarrow> u64 option" where
  "value_by_pid f procs p = map_option f (find (\<lambda>s. pid s = p) (rev procs))"

definition children :: "proc_stat list \<Rightarrow> int \<Rightarrow> int list" where
  "children procs p = map pid (filter (\<lambda>s. ppid s = p) procs)"

text \<open>The walk: the stack is kept with its top at the head.\<close>

function tree_walk ::
    "(proc_stat \<Rightarrow> u64) \<Rightarrow> proc_stat list \<Rightarrow> int list \<Rightarrow> int set \<Rightarrow> u64 \<Rightarrow> u64" where
  "tree_walk f procs [] seen acc = acc"
| "tree_walk f procs (p # stack) seen acc =
     (if p \<in> seen then tree_walk f procs stack seen acc
      else tree_walk f procs (rev (children procs p) @ stack) (insert p seen)
             (sat_add acc (case value_by_pid f procs p of None \<Rightarrow> 0 | Some v \<Rightarrow> v)))"
  by pat_completeness auto

definition unseen :: "proc_stat list \<Rightarrow> int list \<Rightarrow> int set \<Rightarrow> int set" where
  "unseen procs stack seen = (set stack \<union> pid ` set procs) - seen"

lemma children_pids: "set (children procs p) \<subseteq> pid ` set procs"
  unfolding children_def by auto

lemma unseen_shrinks:
  assumes "p \<notin> seen"
  shows "card (unseen procs (rev (children procs p) @ stack) (insert p seen)) <
         card (unseen procs (p # stack) seen)"
proof (rule psubset_card_mono)
  show "finite (unseen procs (p # stack) seen)" by (simp add: unseen_def)
  have "unseen procs (rev (children procs p) @ stack) (insert p seen) \<subseteq> unseen procs (p # stack) seen"
    using children_pids [of procs p] unfolding unseen_def set_append set_rev list.set by blast
  moreover have "p \<in> unseen procs (p # stack) seen" "p \<notin> unseen procs (rev (children procs p) @ stack) (insert p seen)"
    using assms unfolding unseen_def by simp_all
  ultimately show "unseen procs (rev (children procs p) @ stack) (insert p seen) \<subset> unseen procs (p # stack) seen"
    by blast
qed

lemma unseen_pop: "p \<in> seen \<Longrightarrow> unseen procs stack seen = unseen procs (p # stack) seen"
  unfolding unseen_def list.set by blast

termination tree_walk
proof (relation "measures [\<lambda>(f, procs, stack, seen, acc). card (unseen procs stack seen),
                           \<lambda>(f, procs, stack, seen, acc). length stack]", goal_cases)
  case (2 f procs p stack seen acc)
  then show ?case using unseen_pop [OF 2, of procs stack] by simp
next
  case (3 f procs p stack seen acc)
  then show ?case using unseen_shrinks [OF 3, of procs stack] by simp
qed simp

declare tree_walk.simps [simp del]

definition tree_sum ::
    "(proc_stat \<Rightarrow> u64) \<Rightarrow> proc_stat list option \<Rightarrow> int \<Rightarrow> u64 option" where
  "tree_sum f all root_pid =
     (case all of
        None \<Rightarrow> None
      | Some procs \<Rightarrow>
          (if value_by_pid f procs root_pid = None then None
           else Some (tree_walk f procs [root_pid] {} 0)))"

definition tree_rss_bytes :: "u64 \<Rightarrow> proc_stat list option \<Rightarrow> int \<Rightarrow> u64 option" where
  "tree_rss_bytes page_size all root_pid = tree_sum (\<lambda>s. sat_mul (rss s) page_size) all root_pid"

definition tree_thread_count :: "proc_stat list option \<Rightarrow> int \<Rightarrow> u64 option" where
  "tree_thread_count all root_pid =
     tree_sum (\<lambda>s. if 0 \<le> num_threads s \<and> num_threads s < 2 ^ 64
                   then word_of_int (num_threads s) else 0) all root_pid"

section \<open>What the walk adds up\<close>

definition child_rel :: "proc_stat list \<Rightarrow> (int \<times> int) set" where
  "child_rel procs = {(ppid s, pid s) | s. s \<in> set procs}"

definition descendants :: "proc_stat list \<Rightarrow> int \<Rightarrow> int set" where
  "descendants procs root = {p. (root, p) \<in> (child_rel procs)\<^sup>*}"

definition value_of_pid :: "(proc_stat \<Rightarrow> u64) \<Rightarrow> proc_stat list \<Rightarrow> int \<Rightarrow> nat" where
  "value_of_pid f procs p = (case value_by_pid f procs p of None \<Rightarrow> 0 | Some v \<Rightarrow> unat v)"

lemma set_children: "set (children procs p) = {q. (p, q) \<in> child_rel procs}"
  by (auto simp: children_def child_rel_def)

lemma descendants_finite: "finite (descendants procs root)"
proof -
  have "p = root \<or> p \<in> pid ` set procs" if "(root, p) \<in> (child_rel procs)\<^sup>*" for p
    using that by (induction rule: rtrancl_induct) (auto simp: child_rel_def)
  then have "descendants procs root \<subseteq> insert root (pid ` set procs)"
    by (auto simp: descendants_def)
  then show ?thesis by (rule finite_subset) simp
qed

text \<open>
  The walk's invariant: what is seen or stacked descends from the root, the children of what is
  seen are seen or stacked, and the total is the saturated sum over what is seen.
\<close>

definition walk_inv ::
    "(proc_stat \<Rightarrow> u64) \<Rightarrow> proc_stat list \<Rightarrow> int \<Rightarrow> int list \<Rightarrow> int set \<Rightarrow> u64 \<Rightarrow> bool" where
  "walk_inv f procs root stack seen acc \<longleftrightarrow>
     root \<in> seen \<union> set stack \<and> seen \<union> set stack \<subseteq> descendants procs root \<and>
     (\<forall>p\<in>seen. set (children procs p) \<subseteq> seen \<union> set stack) \<and> finite seen \<and>
     unat acc = min (\<Sum>p\<in>seen. value_of_pid f procs p) (2 ^ 64 - 1)"

lemma walk_inv_visit:
  assumes "walk_inv f procs root (p # stack) seen acc" "p \<notin> seen"
  shows "walk_inv f procs root (rev (children procs p) @ stack) (insert p seen)
           (sat_add acc (case value_by_pid f procs p of None \<Rightarrow> 0 | Some v \<Rightarrow> v))"
proof -
  have "set (children procs p) \<subseteq> descendants procs root"
    using assms(1) by (auto simp: walk_inv_def set_children descendants_def intro: rtrancl.rtrancl_into_rtrancl)
  moreover have "unat (case value_by_pid f procs p of None \<Rightarrow> 0 | Some v \<Rightarrow> v) = value_of_pid f procs p"
    by (simp add: value_of_pid_def split: option.splits)
  ultimately show ?thesis
    using assms by (auto simp: walk_inv_def unat_sat_add)
qed

lemma walk_inv_end:
  assumes "walk_inv f procs root [] seen acc"
  shows "seen = descendants procs root"
proof
  have "p \<in> seen" if "(root, p) \<in> (child_rel procs)\<^sup>*" for p
    using that assms by (induction rule: rtrancl_induct) (auto simp: walk_inv_def set_children)
  then show "descendants procs root \<subseteq> seen" by (auto simp: descendants_def)
  show "seen \<subseteq> descendants procs root" using assms by (simp add: walk_inv_def)
qed

lemma tree_walk_sum:
  "walk_inv f procs root stack seen acc \<Longrightarrow>
   unat (tree_walk f procs stack seen acc) =
     min (\<Sum>p\<in>descendants procs root. value_of_pid f procs p) (2 ^ 64 - 1)"
proof (induction f procs stack seen acc rule: tree_walk.induct)
  case (1 f procs seen acc)
  then show ?case using walk_inv_end [OF 1] by (simp add: tree_walk.simps walk_inv_def)
next
  case (2 f procs p stack seen acc)
  show ?case
  proof (cases "p \<in> seen")
    case True
    then have "walk_inv f procs root stack seen acc" using 2(3) by (auto simp: walk_inv_def)
    then show ?thesis using 2(1) True by (simp add: tree_walk.simps(2))
  next
    case False
    then show ?thesis using 2(2) walk_inv_visit [OF 2(3) False] by (simp add: tree_walk.simps(2))
  qed
qed

text \<open>
  Property C34: the memory of a session is the memory of its whole process tree. For every process
  table, including one with cycles, the walk ends, and if the root is alive the result is the sum of
  the resident bytes of the root and all its descendants, each counted once, saturated at the
  largest 64-bit number; a root that is gone gives none.
\<close>

theorem tree_rss_sums_descendants:
  "tree_rss_bytes page_size (Some procs) root =
     (if value_by_pid (\<lambda>s. sat_mul (rss s) page_size) procs root = None then None
      else Some (of_nat (min (\<Sum>p\<in>descendants procs root.
                   value_of_pid (\<lambda>s. sat_mul (rss s) page_size) procs p) (2 ^ 64 - 1))))"
proof -
  let ?f = "\<lambda>s. sat_mul (rss s) page_size"
  have "walk_inv ?f procs root [root] {} 0"
    by (simp add: walk_inv_def descendants_def)
  from arg_cong [OF tree_walk_sum [OF this], of "of_nat :: nat \<Rightarrow> u64"] show ?thesis
    by (simp add: tree_rss_bytes_def tree_sum_def del: of_nat_min)
qed

end
