(* ===== verification/Calibrate.thy ===== *)
theory Calibrate
  imports Capacity Rss Cdp_Client
begin

text \<open>
  \<^verbatim>\<open>src/calibrate.rs\<close>: the boot-time measurement of the session ceiling. What each launch, each
  measurement and each reading of the memory gauge returns is the environment, given step by step;
  the ramp, the count of the sessions still recording and the ceiling derived from them are the
  source's. The page script of the workload is an argument.
\<close>

section \<open>The ceiling\<close>

definition ramp_cap :: nat where "ramp_cap = 12"
definition mem_safety_num :: u64 where "mem_safety_num = 85"
definition mem_safety_den :: u64 where "mem_safety_den = 100"

datatype ramp_stop = LaunchFailed | MemoryLine | Cap

definition derive_ceiling ::
    "u32 \<Rightarrow> bool \<Rightarrow> session_footprint option \<Rightarrow> host_limits \<Rightarrow> capacity" where
  "derive_ceiling sustained clean_cap footprint limits =
     (if clean_cap then
        (let modeled = compute limits footprint
         in \<lparr>cap_max_sessions = max (cap_max_sessions modeled) (max sustained 1),
             bound_by = bound_by modeled\<rparr>)
      else \<lparr>cap_max_sessions = max sustained 1, bound_by = ''measured''\<rparr>)"

definition measure_footprint :: "u64 option \<Rightarrow> u64 option \<Rightarrow> session_footprint option" where
  "measure_footprint rss_bytes threads =
     (case rss_bytes of
        None \<Rightarrow> None
      | Some b \<Rightarrow>
          (case threads of
             None \<Rightarrow> None
           | Some t \<Rightarrow> if 0 < b \<and> 0 < t then Some \<lparr>fp_bytes = b, fp_threads = t\<rparr> else None))"

definition max_footprint :: "session_footprint \<Rightarrow> session_footprint \<Rightarrow> session_footprint" where
  "max_footprint a b =
     \<lparr>fp_bytes = max (fp_bytes a) (fp_bytes b), fp_threads = max (fp_threads a) (fp_threads b)\<rparr>"

definition crossed_memory_line :: "u64 option \<Rightarrow> u64 option \<Rightarrow> bool" where
  "crossed_memory_line ceiling used =
     (case (ceiling, used) of
        (Some c, Some u) \<Rightarrow> c div mem_safety_den * mem_safety_num \<le> u
      | _ \<Rightarrow> False)"

definition meminfo_kb :: "string \<Rightarrow> string \<Rightarrow> u64 option" where
  "meminfo_kb raw key =
     (case find (\<lambda>l. starts_with l key) (str_lines raw) of
        None \<Rightarrow> None
      | Some line \<Rightarrow>
          (let ws = split_whitespace line in if length ws \<le> 1 then None else parse_u64 (ws ! 1)))"

definition current_memory_used_bytes :: "string option \<Rightarrow> string option \<Rightarrow> u64 option" where
  "current_memory_used_bytes memory_current meminfo =
     (case Option.bind memory_current (\<lambda>raw. parse_u64 (trim raw)) of
        Some v \<Rightarrow> Some v
      | None \<Rightarrow>
          (case meminfo of
             None \<Rightarrow> None
           | Some raw \<Rightarrow>
               (case meminfo_kb raw ''MemTotal:'' of
                  None \<Rightarrow> None
                | Some total_kb \<Rightarrow>
                    (case meminfo_kb raw ''MemAvailable:'' of
                       None \<Rightarrow> None
                     | Some available \<Rightarrow> Some (sat_mul (sat_sub total_kb available) 1024)))))"

section \<open>The ramp\<close>

record ramp_step =
  spawned :: bool
  measured :: "session_footprint option"
  used_memory :: "u64 option"

text \<open>
  The loop over \<^verbatim>\<open>1..=RAMP_CAP\<close> from step \<open>n\<close> on: why it stopped, how many sessions are held, the
  largest footprint seen.
\<close>

function ramp ::
    "(nat \<Rightarrow> ramp_step) \<Rightarrow> u64 option \<Rightarrow> nat \<Rightarrow> nat \<Rightarrow> session_footprint option
     \<Rightarrow> ramp_stop \<times> nat \<times> session_footprint option" where
  "ramp env ceiling n held footprint =
     (if ramp_cap < n then (Cap, held, footprint)
      else if \<not> spawned (env n) then (LaunchFailed, held, footprint)
      else
        (let fp = (case measured (env n) of
                     None \<Rightarrow> footprint
                   | Some m \<Rightarrow> Some (case footprint of None \<Rightarrow> m | Some prev \<Rightarrow> max_footprint prev m))
         in if crossed_memory_line ceiling (used_memory (env n)) then (MemoryLine, held + 1, fp)
            else ramp env ceiling (n + 1) (held + 1) fp))"
  by pat_completeness auto
termination
  by (relation "measure (\<lambda>(env, ceiling, n, held, fp). Suc ramp_cap - n)") auto

declare ramp.simps [simp del]

definition count_recording :: "u64 list \<Rightarrow> u64 list \<Rightarrow> u32" where
  "count_recording before now =
     (let still = length (filter (\<lambda>(h, b). b < h) (zip now before))
      in if still < 2 ^ 32 then of_nat still else - 1)"

definition calibrate ::
    "(nat \<Rightarrow> ramp_step) \<Rightarrow> (nat \<Rightarrow> u64) \<Rightarrow> (nat \<Rightarrow> u64) \<Rightarrow> host_limits \<Rightarrow> capacity" where
  "calibrate env frames_before frames_after limits =
     (case ramp env (mem_ceiling_bytes limits) 1 0 None of
        (stop, held, footprint) \<Rightarrow>
          (let launched = (if held < 2 ^ 32 then of_nat held else - 1);
               sustained = count_recording (map frames_before [0..<held]) (map frames_after [0..<held]);
               clean_cap = (stop = Cap \<and> sustained = launched)
           in derive_ceiling sustained clean_cap footprint limits))"

section \<open>The recording workload\<close>

definition is_screencast_frame :: "'j json_api \<Rightarrow> 'j \<Rightarrow> bool" where
  "is_screencast_frame J msg \<longleftrightarrow>
     Option.bind (jget J ''method'' msg) (as_str J) = Some ''Page.screencastFrame''"

definition frame_session_id :: "'j json_api \<Rightarrow> 'j \<Rightarrow> string option" where
  "frame_session_id J msg = Option.bind (jget J ''sessionId'' msg) (as_str J)"

definition frame_seq :: "'j json_api \<Rightarrow> 'j \<Rightarrow> int" where
  "frame_seq J msg =
     (case Option.bind (Option.bind (jget J ''params'' msg) (jget J ''sessionId'')) (as_i64 J) of
        None \<Rightarrow> 0 | Some n \<Rightarrow> n)"

text \<open>
  Waiting for the first frame, with the messages left over: \<open>None\<close> when the messages run out (the timeout fires).
\<close>

fun wait_first_frame ::
    "'j json_api \<Rightarrow> (pipe_error + 'j) list \<Rightarrow> (pipe_error + unit) option \<times> (pipe_error + 'j) list" where
  "wait_first_frame J [] = (None, [])"
| "wait_first_frame J (Inl e # ms) = (Some (Inl e), ms)"
| "wait_first_frame J (Inr m # ms) = (if is_screencast_frame J m then (Some (Inr ()), ms) else wait_first_frame J ms)"

text \<open>
  The draining task on the messages the browser sends: the frames counted and the acknowledgements
  sent (their target and sequence number). Waiting for the answer to an acknowledgement consumes the
  messages in between.
\<close>

lemma await_reply_shorter: "length (snd (await_reply J cid name ms)) \<le> length ms"
  by (induction J cid name ms rule: await_reply.induct) auto

function drain_frames ::
    "'j json_api \<Rightarrow> u64 \<Rightarrow> (pipe_error + 'j) list \<Rightarrow> nat \<times> (string \<times> int) list" where
  "drain_frames J cid [] = (0, [])"
| "drain_frames J cid (Inl e # ms) = (0, [])"
| "drain_frames J cid (Inr m # ms) =
     (if is_screencast_frame J m then
        (case frame_session_id J m of
           None \<Rightarrow> (let (n, acks) = drain_frames J cid ms in (n + 1, acks))
         | Some sid \<Rightarrow>
             (let (n, acks) = drain_frames J (cid + 1) (snd (await_reply J cid ''Page.screencastFrameAck'' ms))
              in (n + 1, (sid, frame_seq J m) # acks)))
      else drain_frames J cid ms)"
  by pat_completeness auto
termination
  by (relation "measure (\<lambda>(J, cid, ms). length ms)") (auto simp: less_Suc_eq_le await_reply_shorter)

section \<open>Properties\<close>

lemma ramp_held:
  assumes "ramp env ceiling n held fp = (stop, held', fp')" "n \<le> Suc ramp_cap"
  shows "held \<le> held' \<and> held' + n \<le> held + Suc ramp_cap \<and>
         (stop = Cap \<longleftrightarrow> held' + n = held + Suc ramp_cap \<and>
            (\<forall>i<held' - held. \<not> crossed_memory_line ceiling (used_memory (env (n + i))))) \<and>
         (\<forall>i<held' - held. spawned (env (n + i))) \<and>
         (\<forall>i. Suc i < held' - held \<longrightarrow> \<not> crossed_memory_line ceiling (used_memory (env (n + i))))"
  using assms
proof (induction env ceiling n held fp rule: ramp.induct)
  case (1 env ceiling n held fp)
  show ?case
  proof (cases "ramp_cap < n \<or> \<not> spawned (env n) \<or> crossed_memory_line ceiling (used_memory (env n))")
    case True
    then show ?thesis
      using 1(2,3) by (subst (asm) ramp.simps) (auto simp: Let_def split: if_splits)
  next
    case False
    then have step: "ramp env ceiling (n + 1) (held + 1)
        (case measured (env n) of None \<Rightarrow> fp
         | Some m \<Rightarrow> Some (case fp of None \<Rightarrow> m | Some prev \<Rightarrow> max_footprint prev m)) = (stop, held', fp')"
      using 1(2) by (subst (asm) ramp.simps) simp
    have "n + 1 \<le> Suc ramp_cap" using False by simp
    then have IH: "held + 1 \<le> held' \<and> held' + (n + 1) \<le> (held + 1) + Suc ramp_cap \<and>
         (stop = Cap \<longleftrightarrow> held' + (n + 1) = (held + 1) + Suc ramp_cap \<and>
            (\<forall>i<held' - (held + 1). \<not> crossed_memory_line ceiling (used_memory (env (n + 1 + i))))) \<and>
         (\<forall>i<held' - (held + 1). spawned (env (n + 1 + i))) \<and>
         (\<forall>i. Suc i < held' - (held + 1) \<longrightarrow> \<not> crossed_memory_line ceiling (used_memory (env (n + 1 + i))))"
      using 1(1) False step by simp
    have all: "(\<forall>i<held' - held. P (n + i)) \<longleftrightarrow> P n \<and> (\<forall>i<held' - (held + 1). P (n + 1 + i))"
      if "held < held'" for P
    proof -
      have "held' - held = Suc (held' - (held + 1))" using that by simp
      then show ?thesis by (simp add: All_less_Suc2)
    qed
    have all': "(\<forall>i. Suc i < held' - held \<longrightarrow> P (n + i))"
      if "P n" "\<forall>i. Suc i < held' - (held + 1) \<longrightarrow> P (n + 1 + i)" for P
    proof (intro allI impI)
      fix i assume "Suc i < held' - held"
      then show "P (n + i)" using that by (cases i) auto
    qed
    show ?thesis
      using IH all [of "\<lambda>k. spawned (env k)"]
        all [of "\<lambda>k. \<not> crossed_memory_line ceiling (used_memory (env k))"]
        all' [of "\<lambda>k. \<not> crossed_memory_line ceiling (used_memory (env k))"] False
      by auto
  qed
qed

lemma count_recording_le: "unat (count_recording before now) \<le> length now"
proof -
  let ?k = "length (filter (\<lambda>(h, b). b < h) (zip now before))"
  have "?k \<le> length now"
    using length_filter_le [of "\<lambda>(h, b). b < h" "zip now before"] by simp
  moreover have "unat (of_nat k :: u32) = k" if "k < 2 ^ 32" for k
    using that by (simp add: unat_of_nat take_bit_nat_eq_self)
  ultimately show ?thesis
    by (cases "?k < 2 ^ 32") (simp_all add: count_recording_def Let_def unat_max)
qed

lemma derive_ceiling_range:
  assumes "unat sus \<le> 12"
  shows "1 \<le> unat (cap_max_sessions (derive_ceiling sus clean footprint limits)) \<and>
         unat (cap_max_sessions (derive_ceiling sus clean footprint limits)) \<le> 256"
proof -
  have mx: "unat (max a b) = max (unat a) (unat b)" for a b :: u32
    by (simp add: max_def word_le_nat_alt)
  show ?thesis using assms by (auto simp: derive_ceiling_def Let_def mx unat_compute)
qed

lemma calibrate_range:
  "1 \<le> unat (cap_max_sessions (calibrate env before after limits)) \<and>
   unat (cap_max_sessions (calibrate env before after limits)) \<le> 256"
proof -
  obtain stop held footprint where r: "ramp env (mem_ceiling_bytes limits) 1 0 None = (stop, held, footprint)"
    by (cases "ramp env (mem_ceiling_bytes limits) 1 0 None")
  have "held \<le> 12" using ramp_held [OF r] by (simp add: ramp_cap_def)
  then have "unat (count_recording (map before [0..<held]) (map after [0..<held])) \<le> 12"
    using count_recording_le [of "map before [0..<held]" "map after [0..<held]"] by simp
  then show ?thesis by (simp only: calibrate_def r prod.case Let_def derive_ceiling_range)
qed


definition two_sessions :: "nat \<Rightarrow> ramp_step" where
  "two_sessions n = \<lparr>spawned = n \<le> 2, measured = None, used_memory = Some 10\<rparr>"

lemma two_sessions_ramp: "ramp two_sessions (Some 1000) 1 0 None = (LaunchFailed, 2, None)"
  by (simp add: two_sessions_def ramp_cap_def ramp.simps crossed_memory_line_def mem_safety_den_def
      mem_safety_num_def)


text \<open>
  While the task that drains a held session waits for the answer to one acknowledgement,
  frames that arrive are thrown away: they are neither counted as recorded nor acknowledged.
\<close>

theorem drain_loses_frames:
  assumes "is_screencast_frame J m" "frame_session_id J m = Some sid"
    and "list_all (\<lambda>x. is_screencast_frame J x \<and> msg_id J x \<noteq> Some cid) lost" "msg_id J r = Some cid"
  shows "drain_frames J cid (Inr m # map Inr lost @ Inr r # rest) =
         (let (n, acks) = drain_frames J (cid + 1) rest in (n + 1, (sid, frame_seq J m) # acks))"
proof -
  have "list_all (\<lambda>x. msg_id J x \<noteq> Some cid) lost"
    using assms(3) by (simp add: list_all_iff)
  then show ?thesis
    using assms by (simp add: await_reply_skip await_reply_hit del: await_reply.simps)
qed

theorem drain_loses_frames_witness:
  "let frame = JObject [(''method'', JString ''Page.screencastFrame''), (''sessionId'', JString ''S'')]
   in drain_frames json_values 1 [Inr frame, Inr frame, Inr frame, Inr (JObject [(''id'', JNum 1)])]
      = (1, [(''S'', 0)])"
proof -
  let ?f = "JObject [(''method'', JString ''Page.screencastFrame''), (''sessionId'', JString ''S'')]"
  have "is_screencast_frame json_values ?f" "frame_session_id json_values ?f = Some ''S''"
    "msg_id json_values ?f = None" "frame_seq json_values ?f = 0"
    "msg_id json_values (JObject [(''id'', JNum 1)]) = Some 1"
    by (simp_all add: is_screencast_frame_def frame_session_id_def msg_id_def frame_seq_def json_values_def)
  then show ?thesis
    using drain_loses_frames [of json_values ?f "''S''" 1 "[?f, ?f]" "JObject [(''id'', JNum 1)]" "[]"]
    by simp
qed

end
