(* ===== verification/Recording.thy ===== *)
theory Recording
  imports Calibrate Cdp_Profile "HOL-Library.Multiset"
begin

text \<open>
  \<^verbatim>\<open>src/calibrate.rs\<close>, the sessions that are ramped: setting one up over its pipe, destroying those that
  cannot record, holding the others and destroying them at the end. The browsers the factory delivers
  are arguments; the sessions created and destroyed are returned in order. The measured ceiling is
  that of \<open>Calibrate\<close>.
\<close>

section \<open>Setting up a recording session\<close>

text \<open>The texts of the errors; \<open>show_io\<close> and \<open>show_num\<close> are those of the standard library.\<close>

definition show_pipe_error :: "(io_error \<Rightarrow> string) \<Rightarrow> pipe_error \<Rightarrow> string" where
  "show_pipe_error show_io e =
     (case e of
        PipeClosed \<Rightarrow> ''CDP pipe closed by the browser''
      | FrameTooLarge n \<Rightarrow> ''CDP frame exceeds the '' @ show_nat n @ ''-byte cap''
      | BadJson m \<Rightarrow> ''CDP frame is not valid JSON: '' @ m
      | Io i \<Rightarrow> ''CDP pipe I/O error: '' @ show_io i)"

definition show_int :: "int \<Rightarrow> string" where
  "show_int n = (if n < 0 then CHR ''-'' # show_nat (nat (- n)) else show_nat (nat n))"

definition show_cdp_error :: "(io_error \<Rightarrow> string) \<Rightarrow> cdp_error \<Rightarrow> string" where
  "show_cdp_error show_io e =
     (case e of
        PipeFailure p \<Rightarrow> show_pipe_error show_io p
      | Protocol meth n m \<Rightarrow> ''CDP command '' @ meth @ '' failed: '' @ m @ '' (code '' @ show_int n @ '')'')"

definition view_w :: u64 where "view_w = 1280"
definition view_h :: u64 where "view_h = 720"

text \<open>The commands on the page's session, in order; \<open>script\<close> is the page's workload.\<close>

definition recording_commands :: "'j json_api \<Rightarrow> string \<Rightarrow> (string \<times> 'j) list" where
  "recording_commands J script =
     [(''Page.enable'', jobject J []),
      (''Runtime.enable'', jobject J []),
      (''Page.setDeviceMetricsOverride'',
       jobject J [(''width'', jnum J view_w), (''height'', jnum J view_h), (''deviceScaleFactor'', jnum J 1),
                  (''mobile'', jbool J False)]),
      (''Runtime.evaluate'', jobject J [(''expression'', jstring J script), (''returnByValue'', jbool J True)]),
      (''Page.startScreencast'',
       jobject J [(''format'', jstring J ''jpeg''), (''quality'', jnum J 60), (''maxWidth'', jnum J view_w),
                  (''maxHeight'', jnum J view_h), (''everyNthFrame'', jnum J 4)])]"

fun run_commands ::
    "(io_error \<Rightarrow> string) \<Rightarrow> ('j, 'w, 't) cdp_env \<Rightarrow> string \<Rightarrow> (string \<times> 'j) list \<Rightarrow> ('j, 'w, unit) cdp_op" where
  "run_commands show_io env sid [] conv = ret () conv"
| "run_commands show_io env sid ((meth, params) # cmds) conv =
     (case rpc env (Some sid) meth params conv of
        (Some (Inl (CdpFailed e)), conv1) \<Rightarrow>
          fail (Unexpected (meth @ '': '' @ show_cdp_error show_io e)) conv1
      | (Some (Inl e), conv1) \<Rightarrow> fail e conv1
      | (Some (Inr _), conv1) \<Rightarrow> run_commands show_io env sid cmds conv1
      | (None, conv1) \<Rightarrow> (None, conv1))"

text \<open>\<open>early\<close> is how many messages come before the limit on the wait for the first frame.\<close>

definition first_frame :: "(io_error \<Rightarrow> string) \<Rightarrow> ('j, 'w, 't) cdp_env \<Rightarrow> nat \<Rightarrow> ('j, 'w, unit) cdp_op" where
  "first_frame show_io env early conv =
     (case conv of (ms, c, w) \<Rightarrow>
        (case wait_first_frame (ce_json env) (take early ms) of
           (r, rest) \<Rightarrow>
             ((case r of
                 None \<Rightarrow> Some (Inl (Unexpected ''no screencast frame within timeout''))
               | Some (Inl e) \<Rightarrow> Some (Inl (CdpFailed (PipeFailure e)))
               | Some (Inr _) \<Rightarrow> Some (Inr ())),
              rest @ drop early ms, c, w)))"

definition open_recording_page :: "('j, 'w, 't) cdp_env \<Rightarrow> ('j, 'w, string) cdp_op" where
  "open_recording_page env =
     bind_op (rpc env None ''Target.createTarget''
                (jobject (ce_json env) [(''url'', jstring (ce_json env) ''about:blank'')]))
       (\<lambda>created. case Option.bind (jget (ce_json env) ''targetId'' created) (as_str (ce_json env)) of
          None \<Rightarrow> fail (Unexpected ''createTarget returned no targetId'')
        | Some target \<Rightarrow>
            bind_op (rpc env None ''Target.attachToTarget''
                       (jobject (ce_json env)
                          [(''targetId'', jstring (ce_json env) target), (''flatten'', jbool (ce_json env) True)]))
              (\<lambda>attached. case Option.bind (jget (ce_json env) ''sessionId'' attached) (as_str (ce_json env)) of
                 None \<Rightarrow> fail (Unexpected ''attach returned no sessionId'')
               | Some sid \<Rightarrow> ret sid))"

definition setup_recording ::
    "(io_error \<Rightarrow> string) \<Rightarrow> ('j, 'w, 't) cdp_env \<Rightarrow> string \<Rightarrow> nat \<Rightarrow> ('j, 'w, unit) cdp_op" where
  "setup_recording show_io env script early =
     bind_op (open_recording_page env)
       (\<lambda>sid. bind_op (run_commands show_io env sid (recording_commands (ce_json env) script))
          (\<lambda>_. first_frame show_io env early))"

section \<open>The sessions of a calibration\<close>

datatype 's session_effect = Created 's | Destroyed 's

text \<open>
  What one attempt meets: what the factory returned, the session with its transport if it has one;
  the wait for the first frame; then the measurement and the gauge of the ramp.
\<close>

record ('s, 'j, 'w) attempt =
  att_created :: "string + 's \<times> ((pipe_error + 'j) list \<times> 'w) option"
  att_early :: nat
  att_footprint :: "session_footprint option"
  att_used :: "u64 option"

text \<open>The text of the error, when the attempt ends; \<open>None\<close> while the browser leaves a command without reply.\<close>

definition setup_error :: "(io_error \<Rightarrow> string) \<Rightarrow> profile_cdp_error \<Rightarrow> string" where
  "setup_error show_io e =
     (case e of CdpFailed c \<Rightarrow> show_cdp_error show_io c | DecodeFailed m \<Rightarrow> m | Unexpected m \<Rightarrow> m)"

definition spawn_recording_session ::
    "(io_error \<Rightarrow> string) \<Rightarrow> ('j, 'w, 't) cdp_env \<Rightarrow> string \<Rightarrow> ('s, 'j, 'w) attempt
     \<Rightarrow> (string + 's) option \<times> 's session_effect list" where
  "spawn_recording_session show_io env script a =
     (case att_created a of
        Inl e \<Rightarrow> (Some (Inl e), [])
      | Inr (s, None) \<Rightarrow> (Some (Inl ''session had no CDP transport''), [Created s, Destroyed s])
      | Inr (s, Some (ms, w)) \<Rightarrow>
          (case fst (setup_recording show_io env script (att_early a) (ms, client_new, w)) of
             None \<Rightarrow> (None, [Created s])
           | Some (Inl e) \<Rightarrow> (Some (Inl (setup_error show_io e)), [Created s, Destroyed s])
           | Some (Inr _) \<Rightarrow> (Some (Inr s), [Created s])))"

text \<open>
  The loop of \<open>Calibrate.ramp\<close> with the sessions it holds and what it did; \<open>None\<close> when an attempt never ends.
\<close>

function ramp_sessions ::
    "(nat \<Rightarrow> (string + 's) option \<times> 's session_effect list) \<Rightarrow> (nat \<Rightarrow> session_footprint option) \<Rightarrow> (nat \<Rightarrow> u64 option)
     \<Rightarrow> u64 option \<Rightarrow> nat \<Rightarrow> 's list \<Rightarrow> session_footprint option
     \<Rightarrow> (ramp_stop \<times> 's list \<times> session_footprint option) option \<times> 's session_effect list" where
  "ramp_sessions spawn fp_of used ceiling n held footprint =
     (if ramp_cap < n then (Some (Cap, held, footprint), [])
      else case spawn n of
             (None, fx) \<Rightarrow> (None, fx)
           | (Some (Inl e), fx) \<Rightarrow> (Some (LaunchFailed, held, footprint), fx)
           | (Some (Inr s), fx) \<Rightarrow>
               (let fp = (case fp_of n of
                            None \<Rightarrow> footprint
                          | Some m \<Rightarrow> Some (case footprint of None \<Rightarrow> m | Some prev \<Rightarrow> max_footprint prev m))
                in if crossed_memory_line ceiling (used n) then (Some (MemoryLine, held @ [s], fp), fx)
                   else (let (r, more) = ramp_sessions spawn fp_of used ceiling (n + 1) (held @ [s]) fp
                         in (r, fx @ more))))"
  by pat_completeness auto
termination
  by (relation "measure (\<lambda>(spawn, fp_of, used, ceiling, n, held, fp). Suc ramp_cap - n)") auto

declare ramp_sessions.simps [simp del]

text \<open>
  The whole calibration over the attempts: \<open>frames_before\<close> and \<open>frames_after\<close> are the counters of the
  held sessions around the probe. Every held session is destroyed before the ceiling is derived.
\<close>

definition calibrate_sessions ::
    "(io_error \<Rightarrow> string) \<Rightarrow> ('j, 'w, 't) cdp_env \<Rightarrow> string \<Rightarrow> (nat \<Rightarrow> ('s, 'j, 'w) attempt)
     \<Rightarrow> (nat \<Rightarrow> u64) \<Rightarrow> (nat \<Rightarrow> u64) \<Rightarrow> host_limits \<Rightarrow> capacity option \<times> 's session_effect list" where
  "calibrate_sessions show_io env script att frames_before frames_after limits =
     (case ramp_sessions (\<lambda>n. spawn_recording_session show_io env script (att n)) (\<lambda>n. att_footprint (att n))
             (\<lambda>n. att_used (att n)) (mem_ceiling_bytes limits) 1 [] None of
        (None, fx) \<Rightarrow> (None, fx)
      | (Some (stop, held, footprint), fx) \<Rightarrow>
          (let n = length held;
               launched = (if n < 2 ^ 32 then of_nat n else - 1);
               sustained = count_recording (map frames_before [0..<n]) (map frames_after [0..<n]);
               clean_cap = (stop = Cap \<and> sustained = launched)
           in (Some (derive_ceiling sustained clean_cap footprint limits), fx @ map Destroyed held)))"

section \<open>The commands of a recording\<close>

text \<open>An operation that writes a prefix of a word, and the whole word when it succeeds.\<close>

definition writes :: "'j json_api \<Rightarrow> ('j, 'j list, 'a) cdp_op \<Rightarrow> (string \<times> string option) list \<Rightarrow> bool" where
  "writes J op word0 = emits J op {p. prefix p word0} {word0}"

lemma writes_ret: "writes J (ret a) []"
  by (simp add: writes_def emits_def ret_def)

lemma writes_fail: "writes J (fail e) word0"
  by (auto simp: writes_def emits_def fail_def)

lemma writes_bind:
  assumes "writes J f xs" "\<And>a. writes J (g a) ys"
  shows "writes J (bind_op f g) (xs @ ys)"
proof -
  have "emits J (bind_op f g) ({p. prefix p xs} \<union> seq {xs} {p. prefix p ys}) (seq {xs} {ys})"
    using assms unfolding writes_def by (rule emits_bind)
  then show ?thesis unfolding writes_def by (rule emits_mono) (auto simp: seq_def prefix_append)
qed

lemma writes_rpc:
  assumes "logged env" "call_word meth (ce_json env) params = x"
  shows "writes (ce_json env) (rpc env sid meth params) [x]"
  unfolding writes_def using emits_rpc [OF assms] by (rule emits_mono) (auto simp: prefix_Cons)

lemma run_commands_bind:
  "run_commands show_io env sid ((meth, params) # cmds) =
     bind_op (\<lambda>conv. case rpc env (Some sid) meth params conv of
                (Some (Inl (CdpFailed e)), conv1) \<Rightarrow> fail (Unexpected (meth @ '': '' @ show_cdp_error show_io e)) conv1
              | (Some (Inl e), conv1) \<Rightarrow> fail e conv1
              | (Some (Inr a), conv1) \<Rightarrow> ret a conv1
              | (None, conv1) \<Rightarrow> (None, conv1))
       (\<lambda>_. run_commands show_io env sid cmds)"
  by (rule ext) (auto simp: bind_op_def fail_def ret_def split: prod.splits option.splits sum.splits profile_cdp_error.splits)

lemma writes_relabelled:
  assumes "writes J op word0"
  shows "writes J (\<lambda>conv. case op conv of
                (Some (Inl (CdpFailed e)), conv1) \<Rightarrow> fail (label e) conv1
              | (Some (Inl e), conv1) \<Rightarrow> fail e conv1
              | (Some (Inr a), conv1) \<Rightarrow> ret a conv1
              | (None, conv1) \<Rightarrow> (None, conv1)) word0"
  unfolding writes_def
proof (rule emitsI)
  fix ms c w r ms' c' w'
  assume run: "(case op (ms, c, w) of
                (Some (Inl (CdpFailed e)), conv1) \<Rightarrow> fail (label e) conv1
              | (Some (Inl e), conv1) \<Rightarrow> fail e conv1
              | (Some (Inr a), conv1) \<Rightarrow> ret a conv1
              | (None, conv1) \<Rightarrow> (None, conv1)) = (r, ms', c', w')"
  obtain r0 where op: "op (ms, c, w) = (r0, ms', c', w')" "\<And>a. r = Some (Inr a) \<Longrightarrow> r0 = Some (Inr a)"
    using run by (cases "op (ms, c, w)")
      (auto simp: fail_def ret_def split: option.splits sum.splits profile_cdp_error.splits)
  obtain new where "w' = w @ new" "map (observed J) new \<in> {p. prefix p word0}"
    "\<And>a. r0 = Some (Inr a) \<Longrightarrow> map (observed J) new \<in> {word0}"
    using emitsD [OF assms [unfolded writes_def] op(1)] by metis
  then show "\<exists>new. w' = w @ new \<and> map (observed J) new \<in> {p. prefix p word0} \<and>
     (\<forall>a. r = Some (Inr a) \<longrightarrow> map (observed J) new \<in> {word0})"
    using op(2) by blast
qed

lemma writes_commands:
  assumes "logged env"
  shows "writes (ce_json env) (run_commands show_io env sid cmds) (map (\<lambda>(meth, params). call_word meth (ce_json env) params) cmds)"
proof (induction cmds)
  case Nil
  have "run_commands show_io env sid [] = ret ()" by (rule ext) simp
  then show ?case by (simp add: writes_ret)
next
  case (Cons cmd cmds)
  obtain meth params where cmd: "cmd = (meth, params)" by (cases cmd)
  have "writes (ce_json env) (run_commands show_io env sid (cmd # cmds))
      ([call_word meth (ce_json env) params] @ map (\<lambda>(meth, params). call_word meth (ce_json env) params) cmds)"
    unfolding cmd run_commands_bind
    by (intro writes_bind writes_relabelled writes_rpc [OF assms refl] Cons.IH)
  then show ?case by (simp add: cmd del: run_commands.simps)
qed

lemma writes_first_frame: "writes J (first_frame show_io env early) []"
  by (auto simp: writes_def emits_def first_frame_def split: prod.splits)

lemma writes_open_page:
  assumes "logged env"
  shows "writes (ce_json env) (open_recording_page env)
     [(''Target.createTarget'', Some ''about:blank''), (''Target.attachToTarget'', None)]"
proof -
  note J = json_okD [OF logged_json [OF assms]]
  have "writes (ce_json env) (open_recording_page env)
      ([(''Target.createTarget'', Some ''about:blank'')] @ [(''Target.attachToTarget'', None)] @ [])"
    unfolding open_recording_page_def
    by (intro writes_bind writes_rpc [OF assms])
       (auto simp: call_word_def J split: option.split
          intro!: writes_fail writes_ret writes_bind [where xs = "[(''Target.attachToTarget'', None)]" and ys = "[]", simplified]
            writes_rpc [OF assms])
  then show ?thesis by simp
qed

definition recording_words :: "(string \<times> string option) list" where
  "recording_words =
     [(''Target.createTarget'', Some ''about:blank''), (''Target.attachToTarget'', None), (''Page.enable'', None),
      (''Runtime.enable'', None), (''Page.setDeviceMetricsOverride'', None), (''Runtime.evaluate'', None),
      (''Page.startScreencast'', None)]"

lemma writes_setup:
  assumes "logged env"
  shows "writes (ce_json env) (setup_recording show_io env script early) recording_words"
proof -
  note J = json_okD [OF logged_json [OF assms]]
  have words: "recording_words =
      [(''Target.createTarget'', Some ''about:blank''), (''Target.attachToTarget'', None)] @
      map (\<lambda>(meth, params). call_word meth (ce_json env) params) (recording_commands (ce_json env) script) @ []"
    by (simp add: recording_words_def recording_commands_def call_word_def J)
  show ?thesis
    unfolding setup_recording_def words
    by (intro writes_bind writes_open_page writes_commands writes_first_frame assms)
qed

lemma wait_first_frame_seen:
  "fst (wait_first_frame J ms) = Some (Inr u) \<Longrightarrow> \<exists>m. Inr m \<in> set ms \<and> is_screencast_frame J m"
  by (induction J ms rule: wait_first_frame.induct) (auto split: if_splits)

lemma setup_saw_frame:
  assumes "setup_recording show_io env script early (ms, c, w) = (Some (Inr a), conv')"
  shows "\<exists>m ms1 c1 w1. Inr m \<in> set (take early ms1) \<and> is_screencast_frame (ce_json env) m \<and>
     bind_op (open_recording_page env) (\<lambda>sid. run_commands show_io env sid
         (recording_commands (ce_json env) script)) (ms, c, w) = (Some (Inr ()), ms1, c1, w1)"
proof -
  obtain u ms1 c1 w1 where run: "bind_op (open_recording_page env) (\<lambda>sid. run_commands show_io env sid
         (recording_commands (ce_json env) script)) (ms, c, w) = (Some (Inr u), ms1, c1, w1)"
    and ff: "first_frame show_io env early (ms1, c1, w1) = (Some (Inr a), conv')"
    using assms unfolding setup_recording_def
    by (auto simp: bind_op_def split: prod.splits option.splits sum.splits)
  then show ?thesis
    using wait_first_frame_seen [of "ce_json env" "take early ms1"]
    by (auto simp: first_frame_def split: prod.splits option.splits sum.splits)
qed


definition recording_browser :: "(pipe_error + json) list" where
  "recording_browser =
     [demo_reply 1 [(''targetId'', JString ''t'')], demo_reply 2 [(''sessionId'', JString ''s'')],
      demo_reply 3 [], demo_reply 4 [], demo_reply 5 [], demo_reply 6 [], demo_reply 7 [],
      demo_event ''Page.loadEventFired'', demo_event ''Page.screencastFrame'']"

lemma demo_recording_succeeds:
  "fst (setup_recording (\<lambda>_. []) demo_env ''x'' 2 (recording_browser, client_new, [])) = Some (Inr ())"
  by code_simp


section \<open>Every session is destroyed\<close>

definition created :: "'s session_effect list \<Rightarrow> 's list" where
  "created fx = List.map_filter (\<lambda>x. case x of Created s \<Rightarrow> Some s | Destroyed s \<Rightarrow> None) fx"

definition destroyed :: "'s session_effect list \<Rightarrow> 's list" where
  "destroyed fx = List.map_filter (\<lambda>x. case x of Created s \<Rightarrow> None | Destroyed s \<Rightarrow> Some s) fx"

lemma created_simps [simp]:
  "created [] = []" "created (Created s # fx) = s # created fx" "created (Destroyed s # fx) = created fx"
  "created (xs @ ys) = created xs @ created ys" "created (map Destroyed ss) = []"
  by (simp_all add: created_def map_filter_simps) (simp_all add: List.map_filter_def)

lemma destroyed_simps [simp]:
  "destroyed [] = []" "destroyed (Destroyed s # fx) = s # destroyed fx" "destroyed (Created s # fx) = destroyed fx"
  "destroyed (xs @ ys) = destroyed xs @ destroyed ys" "destroyed (map Destroyed ss) = ss"
  by (simp_all add: destroyed_def map_filter_simps) (simp_all add: List.map_filter_def o_def)

text \<open>At every moment only sessions that were created have been destroyed.\<close>

definition sound :: "'s session_effect list \<Rightarrow> bool" where
  "sound fx = (\<forall>p. prefix p fx \<longrightarrow> mset (destroyed p) \<subseteq># mset (created p))"

lemma sound_append: "sound xs \<Longrightarrow> sound ys \<Longrightarrow> sound (xs @ ys)"
  unfolding sound_def prefix_append by (auto intro!: subset_mset.add_mono)

lemma sound_end:
  assumes "sound xs" "mset (created xs) = mset (destroyed xs) + mset held"
  shows "sound (xs @ map Destroyed held)"
  unfolding sound_def
proof (intro allI impI)
  fix p assume "prefix p (xs @ map Destroyed held)"
  then consider "prefix p xs" | q where "p = xs @ q" "prefix q (map Destroyed held)"
    unfolding prefix_append by blast
  then show "mset (destroyed p) \<subseteq># mset (created p)"
  proof cases
    case (2 q)
    then obtain ss rest where "q = map Destroyed ss" "held = ss @ rest" by (auto simp: prefix_def map_eq_append_conv)
    then show ?thesis using 2(1) assms(2) by simp
  qed (use assms(1) in \<open>simp add: sound_def\<close>)
qed

text \<open>What an attempt does: it keeps the session it returns, and destroys the one it does not.\<close>

definition tidy :: "(string + 's) option \<times> 's session_effect list \<Rightarrow> bool" where
  "tidy x = (case x of
      (Some (Inr s), fx) \<Rightarrow> fx = [Created s]
    | (Some (Inl e), fx) \<Rightarrow> fx = [] \<or> (\<exists>s. fx = [Created s, Destroyed s])
    | (None, fx) \<Rightarrow> True)"

lemma spawn_tidy: "tidy (spawn_recording_session show_io env script a)"
  by (auto simp: tidy_def spawn_recording_session_def split: sum.splits option.splits prod.splits)

lemma sound_small: "sound []" "sound [Created s]" "sound [Created s, Destroyed s]"
  by (auto simp: sound_def prefix_Cons)

lemma ramp_sessions_ramp:
  assumes "ramp_sessions spawn fp_of used ceiling n held fp = (Some (stop, held', fp'), fx)" "\<And>k. tidy (spawn k)"
  shows "ramp (\<lambda>k. \<lparr>spawned = (\<exists>s. fst (spawn k) = Some (Inr s)), measured = fp_of k, used_memory = used k\<rparr>)
       ceiling n (length held) fp = (stop, length held', fp') \<and>
     sound fx \<and> mset held + mset (created fx) = mset (destroyed fx) + mset held' \<and>
     length (created fx) \<le> Suc ramp_cap - n"
  using assms
proof (induction spawn fp_of used ceiling n held fp arbitrary: fx rule: ramp_sessions.induct)
  case (1 spawn fp_of used ceiling n held fp)
  let ?env = "\<lambda>k. \<lparr>spawned = (\<exists>s. fst (spawn k) = Some (Inr s)), measured = fp_of k, used_memory = used k\<rparr>"
  let ?fp = "case fp_of n of None \<Rightarrow> fp | Some m \<Rightarrow> Some (case fp of None \<Rightarrow> m | Some prev \<Rightarrow> max_footprint prev m)"
  have run: "ramp_sessions spawn fp_of used ceiling n held fp = (Some (stop, held', fp'), fx)" by (rule 1(2))
  have tidy: "tidy (spawn n)" by (rule 1(3))
  show ?case
  proof (cases "ramp_cap < n")
    case True
    then show ?thesis using run by (subst (asm) ramp_sessions.simps) (simp add: ramp.simps [of ?env] sound_small)
  next
    case False
    consider fx0 where "spawn n = (None, fx0)" | e fx0 where "spawn n = (Some (Inl e), fx0)"
      | s fx0 where "spawn n = (Some (Inr s), fx0)"
      by (metis option.exhaust surj_pair sum.exhaust)
    then show ?thesis
    proof cases
      case 1
      then show ?thesis using False run by (subst (asm) ramp_sessions.simps) simp
    next
      case (2 e fx0)
      then have "stop = LaunchFailed" "held' = held" "fp' = fp" "fx = fx0"
        using False run by (subst (asm) ramp_sessions.simps, simp)+
      moreover have "fx0 = [] \<or> (\<exists>s. fx0 = [Created s, Destroyed s])" using tidy 2 by (simp add: tidy_def)
      ultimately show ?thesis using False 2 by (auto simp: ramp.simps [of ?env] sound_small)
    next
      case (3 s fx0)
      then have fx0: "fx0 = [Created s]" using tidy by (simp add: tidy_def)
      show ?thesis
      proof (cases "crossed_memory_line ceiling (used n)")
        case True
        then have "stop = MemoryLine" "held' = held @ [s]" "fp' = ?fp" "fx = fx0"
          using False run 3 by (subst (asm) ramp_sessions.simps, simp)+
        then show ?thesis using False True 3 fx0 by (simp add: ramp.simps [of ?env] sound_small)
      next
        case below: False
        then obtain more where rest: "ramp_sessions spawn fp_of used ceiling (n + 1) (held @ [s]) ?fp = (Some (stop, held', fp'), more)"
          and fx: "fx = fx0 @ more"
          using False run 3 by (subst (asm) ramp_sessions.simps) (auto simp: Let_def split: prod.splits)
        have IH: "ramp ?env ceiling (n + 1) (length (held @ [s])) ?fp = (stop, length held', fp') \<and> sound more \<and>
            mset (held @ [s]) + mset (created more) = mset (destroyed more) + mset held' \<and>
            length (created more) \<le> Suc ramp_cap - (n + 1)"
          by (rule 1(1) [OF False 3 [symmetric] refl refl refl below rest 1(3)])
        have "ramp ?env ceiling n (length held) fp = (stop, length held', fp')"
          using IH False 3 below by (subst ramp.simps) simp
        moreover have "sound fx" unfolding fx fx0 using IH by (intro sound_append sound_small) simp
        ultimately show ?thesis using IH False by (simp add: fx fx0 ac_simps Suc_diff_le)
      qed
    qed
  qed
qed

text \<open>
  Property C23: calibration leaves no session behind. When it ends, the sessions it destroyed are the ones
  it created, each as often; none was destroyed before it was created, and no more than twelve were created, so
  no more ran at once. The ceiling is the one of the plain ramp over the attempts that recorded, so what is
  proved of that ramp holds for the sessions.
\<close>

theorem calibration_leaves_no_session:
  assumes "calibrate_sessions show_io env script att frames_before frames_after limits = (Some cap, fx)"
  shows "mset (destroyed fx) = mset (created fx) \<and> sound fx \<and> length (created fx) \<le> 12 \<and>
     cap = calibrate
       (\<lambda>n. \<lparr>spawned = (\<exists>s. fst (spawn_recording_session show_io env script (att n)) = Some (Inr s)),
             measured = att_footprint (att n), used_memory = att_used (att n)\<rparr>)
       frames_before frames_after limits"
proof -
  let ?spawn = "\<lambda>n. spawn_recording_session show_io env script (att n)"
  obtain stop held fp fx0 where run: "ramp_sessions ?spawn (\<lambda>n. att_footprint (att n)) (\<lambda>n. att_used (att n))
      (mem_ceiling_bytes limits) 1 [] None = (Some (stop, held, fp), fx0)" and fx: "fx = fx0 @ map Destroyed held"
    using assms unfolding calibrate_sessions_def by (auto simp: Let_def split: prod.splits option.splits)
  note R = ramp_sessions_ramp [OF run spawn_tidy]
  have m: "mset (created fx0) = mset (destroyed fx0) + mset held" using R by simp
  have "sound fx" unfolding fx using R m by (intro sound_end) auto
  moreover have "mset (destroyed fx) = mset (created fx)" using m by (simp add: fx)
  moreover have "length (created fx) \<le> 12" using R by (simp add: fx ramp_cap_def)
  moreover have "cap = calibrate
       (\<lambda>n. \<lparr>spawned = (\<exists>s. fst (?spawn n) = Some (Inr s)), measured = att_footprint (att n),
             used_memory = att_used (att n)\<rparr>) frames_before frames_after limits"
    using assms R unfolding calibrate_sessions_def calibrate_def run by (simp add: Let_def)
  ultimately show ?thesis by blast
qed

definition demo_attempts :: "nat \<Rightarrow> (nat, json, json list) attempt" where
  "demo_attempts n =
     \<lparr>att_created = Inr (n, if n = 1 then Some (recording_browser, []) else None), att_early = 2,
      att_footprint = None, att_used = Some 10\<rparr>"

lemma demo_calibration:
  "calibrate_sessions (\<lambda>_. []) demo_env ''x'' demo_attempts (\<lambda>_. 0) (\<lambda>_. 5)
     \<lparr>mem_ceiling_bytes = Some 1000, pids_max = None, cpus = 4\<rparr> =
   (Some \<lparr>cap_max_sessions = 1, bound_by = ''measured''\<rparr>,
    [Created 1, Created 2, Destroyed 2, Destroyed 1])"
proof -
  let ?spawn = "\<lambda>n. spawn_recording_session (\<lambda>_. []) demo_env ''x'' (demo_attempts n)"
  have "?spawn 1 = (Some (Inr 1), [Created 1])" "?spawn 2 = (Some (Inl ''session had no CDP transport''), [Created 2, Destroyed 2])"
    using demo_recording_succeeds by (simp_all add: spawn_recording_session_def demo_attempts_def)
  then have "ramp_sessions ?spawn (\<lambda>n. att_footprint (demo_attempts n)) (\<lambda>n. att_used (demo_attempts n)) (Some 1000) 1 [] None =
      (Some (LaunchFailed, [1], None), [Created 1, Created 2, Destroyed 2])"
    by (simp add: ramp_sessions.simps [of _ _ _ _ 1] ramp_sessions.simps [of _ _ _ _ 2] ramp_cap_def
        demo_attempts_def crossed_memory_line_def mem_safety_den_def mem_safety_num_def del: One_nat_def numeral_2_eq_2)
  then show ?thesis
    by (simp add: calibrate_sessions_def Let_def count_recording_def derive_ceiling_def)
qed

theorem calibration_leaves_no_session_witness:
  "mset (destroyed [Created 1, Created 2, Destroyed 2, Destroyed (1::nat)]) = {#1, 2#} \<and>
   sound [Created 1, Created 2, Destroyed 2, Destroyed (1::nat)]"
  using calibration_leaves_no_session [OF demo_calibration] by simp

section \<open>A browser that does not answer\<close>

text \<open>
  Only the first frame has a limit. A browser that takes the first command and never answers it
  leaves the calibration waiting, and with it the instance not ready.
\<close>

lemma unanswered_calibration_waits:
  assumes "\<And>m w. fst (ce_send env m w) = None" "att_created (att 1) = Inr (s, Some (map Inr msgs, w))"
    and "list_all (\<lambda>m. msg_id (ce_json env) m \<noteq> Some 1) msgs"
  shows "fst (calibrate_sessions show_io env script att frames_before frames_after limits) = None"
proof -
  have "fst (rpc env None meth params (map Inr msgs, client_new, w)) = None" for meth params
  proof -
    have "await_reply (ce_json env) 1 meth (map Inr msgs) = (None, [])"
      using assms(3) by (induction msgs) (auto simp: msg_id_def)
    then show ?thesis
      using assms(1) [of "envelope (ce_json env) 1 meth params None" w]
      by (auto simp: rpc_def call_on_def client_send_def client_new_def Let_def split: prod.splits option.splits)
  qed
  then have "fst (setup_recording show_io env script k (map Inr msgs, client_new, w)) = None" for k
    by (simp add: setup_recording_def open_recording_page_def bind_op_def split_beta case_prod_beta)
  then have "spawn_recording_session show_io env script (att 1) = (None, [Created s])"
    using assms(2) by (simp add: spawn_recording_session_def)
  then show ?thesis
    by (simp add: calibrate_sessions_def ramp_sessions.simps [of _ _ _ _ 1] ramp_cap_def del: One_nat_def)
qed

end
