(* ===== verification/Config.thy ===== *)
theory Config
  imports Rust_Str
begin

text \<open>
  \<^verbatim>\<open>src/config.rs\<close>: the runtime configuration. The YAML parser is a crate, so it is an argument, as are
  the process environment and the file system. Unsigned integers are natural numbers within the
  width the code parses them at; a percentage is an \<^verbatim>\<open>f64\<close>, which YAML can make NaN.
\<close>

section \<open>Types\<close>

datatype 'n f64 = NaN | Number 'n

text \<open>
  \<open>Invalid\<close> carries the text of the message and, for a rejected environment value, the value that the
  message ends with.
\<close>

datatype config_error =
    Yaml string
  | ReadFailed string string
  | BadPort string
  | Invalid string "string option"

record pool_config =
  pc_min_ready :: nat
  pc_calibrate :: bool
  pc_max_sessions :: "nat option"
  pc_max_queue :: nat
  pc_queue_timeout_ms :: nat
  pc_warm_idle_ms :: nat
  pc_warm_max_age_ms :: nat

definition default_pool_config :: pool_config where
  "default_pool_config =
     \<lparr>pc_min_ready = 1, pc_calibrate = True, pc_max_sessions = None, pc_max_queue = 10,
      pc_queue_timeout_ms = 30000, pc_warm_idle_ms = 300000, pc_warm_max_age_ms = 3600000\<rparr>"

record session_config =
  sc_idle_timeout_ms :: nat
  sc_memory_max_mb :: nat
  sc_cpu_percent :: nat
  sc_pids_max :: nat
  sc_tmpfs_size_mb :: nat
  sc_kill_grace_ms :: nat
  sc_single_use :: bool
  sc_resume_window_ms :: nat

definition default_session_config :: session_config where
  "default_session_config =
     \<lparr>sc_idle_timeout_ms = 0, sc_memory_max_mb = 0, sc_cpu_percent = 0, sc_pids_max = 0,
      sc_tmpfs_size_mb = 512, sc_kill_grace_ms = 5000, sc_single_use = False, sc_resume_window_ms = 0\<rparr>"

record 'n pressure_config =
  pr_max_cpu_percent :: "'n f64"
  pr_max_memory_percent :: "'n f64"

definition default_pressure_config :: "'n::linordered_semidom pressure_config" where
  "default_pressure_config = \<lparr>pr_max_cpu_percent = Number 95, pr_max_memory_percent = Number 95\<rparr>"

record proxy_config =
  px_enabled :: bool
  px_allow_private_upstream :: bool

definition default_proxy_config :: proxy_config where
  "default_proxy_config = \<lparr>px_enabled = True, px_allow_private_upstream = False\<rparr>"

datatype transport = PipeTransport | PortTransport

record browser_config =
  bc_executable_path :: "string option"
  bc_transport :: transport
  bc_no_sandbox :: bool
  bc_require_sandbox :: bool
  bc_stealth :: bool
  bc_extra_flags :: "string list"
  bc_launch_timeout_ms :: nat
  bc_max_frame_bytes :: nat

definition default_browser_config :: browser_config where
  "default_browser_config =
     \<lparr>bc_executable_path = None, bc_transport = PipeTransport, bc_no_sandbox = False,
      bc_require_sandbox = False, bc_stealth = True, bc_extra_flags = [],
      bc_launch_timeout_ms = 30000, bc_max_frame_bytes = 256 * 1024 * 1024\<rparr>"

record 'n runtime_config =
  rc_pool :: pool_config
  rc_session :: session_config
  rc_pressure :: "'n pressure_config"
  rc_chrome :: browser_config
  rc_proxy :: proxy_config
  rc_data_dir :: string
  rc_drain_timeout_ms :: nat
  rc_external_address :: "string option"

definition default_runtime_config :: "'n::linordered_semidom runtime_config" where
  "default_runtime_config =
     \<lparr>rc_pool = default_pool_config, rc_session = default_session_config,
      rc_pressure = default_pressure_config, rc_chrome = default_browser_config,
      rc_proxy = default_proxy_config, rc_data_dir = ''.browserserve'', rc_drain_timeout_ms = 30000,
      rc_external_address = None\<rparr>"

record serve_settings =
  sv_port :: nat
  sv_host :: string
  sv_token :: "string option"

record 'n loaded =
  ld_config :: "'n runtime_config"
  ld_serve :: serve_settings

type_synonym environment = "string \<Rightarrow> string option"

section \<open>Environment overrides\<close>

definition is_truthy :: "string \<Rightarrow> bool" where
  "is_truthy v \<longleftrightarrow> to_ascii_lowercase (trim v) \<in> set [''1'', ''true'', ''yes'', ''on'']"

text \<open>The keys whose value is an integer, each with its width and the field it sets.\<close>

datatype int_key =
    MinReady
  | IdleTimeoutMs
  | ResumeWindowMs
  | MemoryMaxMb
  | CpuPercent
  | PidsMax
  | MaxSessions
  | MaxQueue
  | QueueTimeoutMs

fun key_name :: "int_key \<Rightarrow> string" where
  "key_name MinReady = ''BROWSERSERVE_MIN_READY''"
| "key_name IdleTimeoutMs = ''BROWSERSERVE_IDLE_TIMEOUT_MS''"
| "key_name ResumeWindowMs = ''BROWSERSERVE_RESUME_WINDOW_MS''"
| "key_name MemoryMaxMb = ''BROWSERSERVE_MEMORY_MAX_MB''"
| "key_name CpuPercent = ''BROWSERSERVE_CPU_PERCENT''"
| "key_name PidsMax = ''BROWSERSERVE_PIDS_MAX''"
| "key_name MaxSessions = ''BROWSERSERVE_MAX_SESSIONS''"
| "key_name MaxQueue = ''BROWSERSERVE_MAX_QUEUE''"
| "key_name QueueTimeoutMs = ''BROWSERSERVE_QUEUE_TIMEOUT_MS''"

fun key_max :: "int_key \<Rightarrow> nat" where
  "key_max MinReady = u32_max"
| "key_max IdleTimeoutMs = u64_max"
| "key_max ResumeWindowMs = u64_max"
| "key_max MemoryMaxMb = u64_max"
| "key_max CpuPercent = u32_max"
| "key_max PidsMax = u32_max"
| "key_max MaxSessions = u32_max"
| "key_max MaxQueue = u32_max"
| "key_max QueueTimeoutMs = u64_max"

fun set_field :: "int_key \<Rightarrow> nat \<Rightarrow> 'n runtime_config \<Rightarrow> 'n runtime_config" where
  "set_field MinReady n c = c\<lparr>rc_pool := (rc_pool c)\<lparr>pc_min_ready := n\<rparr>\<rparr>"
| "set_field IdleTimeoutMs n c = c\<lparr>rc_session := (rc_session c)\<lparr>sc_idle_timeout_ms := n\<rparr>\<rparr>"
| "set_field ResumeWindowMs n c = c\<lparr>rc_session := (rc_session c)\<lparr>sc_resume_window_ms := n\<rparr>\<rparr>"
| "set_field MemoryMaxMb n c = c\<lparr>rc_session := (rc_session c)\<lparr>sc_memory_max_mb := n\<rparr>\<rparr>"
| "set_field CpuPercent n c = c\<lparr>rc_session := (rc_session c)\<lparr>sc_cpu_percent := n\<rparr>\<rparr>"
| "set_field PidsMax n c = c\<lparr>rc_session := (rc_session c)\<lparr>sc_pids_max := n\<rparr>\<rparr>"
| "set_field MaxSessions n c = c\<lparr>rc_pool := (rc_pool c)\<lparr>pc_max_sessions := Some n\<rparr>\<rparr>"
| "set_field MaxQueue n c = c\<lparr>rc_pool := (rc_pool c)\<lparr>pc_max_queue := n\<rparr>\<rparr>"
| "set_field QueueTimeoutMs n c = c\<lparr>rc_pool := (rc_pool c)\<lparr>pc_queue_timeout_ms := n\<rparr>\<rparr>"

text \<open>The order in which \<^verbatim>\<open>load\<close> looks at the keys.\<close>

definition int_keys :: "int_key list" where
  "int_keys =
     [MinReady, IdleTimeoutMs, ResumeWindowMs, MemoryMaxMb, CpuPercent, PidsMax, MaxSessions, MaxQueue,
      QueueTimeoutMs]"

definition override :: "environment \<Rightarrow> int_key \<Rightarrow> 'n runtime_config \<Rightarrow> config_error + 'n runtime_config" where
  "override env k c =
     (case env (key_name k) of
        None \<Rightarrow> Inr c
      | Some v \<Rightarrow>
          (case parse_uint (key_max k) (trim v) of
             None \<Rightarrow>
               Inl (Invalid
                 (key_name k @
                  (if k = MaxSessions then '' must be a positive integer, got ''
                   else '' must be a non-negative integer, got '')) (Some v))
           | Some n \<Rightarrow>
               if k = MaxSessions \<and> n = 0
               then Inl (Invalid ''BROWSERSERVE_MAX_SESSIONS must be at least 1'' None)
               else Inr (set_field k n c)))"

fun override_all :: "environment \<Rightarrow> int_key list \<Rightarrow> 'n runtime_config \<Rightarrow> config_error + 'n runtime_config" where
  "override_all env [] c = Inr c"
| "override_all env (k # ks) c = res_bind (override env k c) (override_all env ks)"

definition switch :: "environment \<Rightarrow> string \<Rightarrow> bool \<Rightarrow> bool" where
  "switch env key old = (case env key of None \<Rightarrow> old | Some v \<Rightarrow> is_truthy v)"

definition apply_switches :: "environment \<Rightarrow> 'n runtime_config \<Rightarrow> 'n runtime_config" where
  "apply_switches env c =
     (let chrome1 = (rc_chrome c)
            \<lparr>bc_require_sandbox := switch env ''BROWSERSERVE_REQUIRE_SANDBOX'' (bc_require_sandbox (rc_chrome c)),
             bc_no_sandbox := switch env ''BROWSERSERVE_NO_SANDBOX'' (bc_no_sandbox (rc_chrome c)),
             bc_stealth := switch env ''BROWSERSERVE_STEALTH'' (bc_stealth (rc_chrome c))\<rparr>;
          proxy1 = \<lparr>px_enabled = switch env ''BROWSERSERVE_PROXY'' (px_enabled (rc_proxy c)),
             px_allow_private_upstream =
               switch env ''BROWSERSERVE_PROXY_ALLOW_PRIVATE'' (px_allow_private_upstream (rc_proxy c))\<rparr>;
          pool1 = (rc_pool c)\<lparr>pc_calibrate := switch env ''BROWSERSERVE_CALIBRATE'' (pc_calibrate (rc_pool c))\<rparr>;
          session1 = (rc_session c)
            \<lparr>sc_single_use := switch env ''BROWSERSERVE_SINGLE_USE'' (sc_single_use (rc_session c))\<rparr>;
          c1 = c\<lparr>rc_chrome := chrome1, rc_proxy := proxy1, rc_pool := pool1, rc_session := session1\<rparr>
      in if sc_single_use session1
         then c1\<lparr>rc_pool := pool1\<lparr>pc_max_sessions := Some 1, pc_calibrate := False\<rparr>\<rparr>
         else c1)"

section \<open>Validation\<close>

definition read_token :: "environment \<Rightarrow> config_error + string option" where
  "read_token env =
     (case env ''BROWSERSERVE_TOKEN'' of
        None \<Rightarrow> Inr None
      | Some t \<Rightarrow>
          if trim t = []
          then Inl (Invalid ''BROWSERSERVE_TOKEN is set but empty; set a token or unset the variable'' None)
          else Inr (Some t))"

fun percent_ok :: "'n::linordered_semidom f64 \<Rightarrow> bool" where
  "percent_ok NaN = False"
| "percent_ok (Number x) = (1 \<le> x \<and> x \<le> 100)"

definition validate :: "'n::linordered_semidom runtime_config \<Rightarrow> config_error + unit" where
  "validate c =
     (if pc_max_sessions (rc_pool c) = Some 0
      then Inl (Invalid ''pool.maxSessions must be at least 1 (or unset for auto)'' None)
      else if \<not> percent_ok (pr_max_cpu_percent (rc_pressure c))
      then Inl (Invalid ''pressure.maxCpuPercent must be between 1 and 100'' None)
      else if \<not> percent_ok (pr_max_memory_percent (rc_pressure c))
      then Inl (Invalid ''pressure.maxMemoryPercent must be between 1 and 100'' None)
      else if sc_kill_grace_ms (rc_session c) = 0
      then Inl (Invalid ''session.killGraceMs must be greater than 0'' None)
      else if bc_max_frame_bytes (rc_chrome c) = 0
      then Inl (Invalid ''chrome.maxFrameBytes must be greater than 0'' None)
      else if bc_require_sandbox (rc_chrome c) \<and> bc_no_sandbox (rc_chrome c)
      then Inl (Invalid (''chrome.requireSandbox and chrome.noSandbox are contradictory: '' @
                         ''one demands the sandbox, the other disables it'') None)
      else Inr ())"

section \<open>Loading\<close>

definition parse_file ::
    "(string \<Rightarrow> string + 'n::linordered_semidom runtime_config) \<Rightarrow> string option
     \<Rightarrow> config_error + 'n runtime_config" where
  "parse_file from_yaml yaml =
     (case yaml of
        Some text \<Rightarrow>
          if trim text \<noteq> []
          then (case from_yaml text of Inl e \<Rightarrow> Inl (Yaml e) | Inr c \<Rightarrow> Inr c)
          else Inr default_runtime_config
      | None \<Rightarrow> Inr default_runtime_config)"

definition override_paths :: "environment \<Rightarrow> 'n runtime_config \<Rightarrow> 'n runtime_config" where
  "override_paths env c =
     (let c1 = (case env ''BROWSERSERVE_CHROME_PATH'' of
                  None \<Rightarrow> c
                | Some p \<Rightarrow> c\<lparr>rc_chrome := (rc_chrome c)\<lparr>bc_executable_path := Some p\<rparr>\<rparr>)
      in case env ''BROWSERSERVE_DATA_DIR'' of None \<Rightarrow> c1 | Some d \<Rightarrow> c1\<lparr>rc_data_dir := d\<rparr>)"

definition read_port :: "environment \<Rightarrow> config_error + nat" where
  "read_port env =
     (case env ''PORT'' of
        None \<Rightarrow> Inr 9222
      | Some v \<Rightarrow> ok_or (parse_uint u16_max v) (BadPort v))"

definition load ::
    "(string \<Rightarrow> string + 'n::linordered_semidom runtime_config) \<Rightarrow> string option \<Rightarrow> environment
     \<Rightarrow> config_error + 'n loaded" where
  "load from_yaml yaml env =
     res_bind (parse_file from_yaml yaml) (\<lambda>file.
     res_bind (override_all env int_keys (override_paths env file)) (\<lambda>c0.
       let c = apply_switches env c0 in
     res_bind (read_port env) (\<lambda>port.
     res_bind (read_token env) (\<lambda>token.
     res_bind (validate c) (\<lambda>_.
       Inr \<lparr>ld_config = c,
            ld_serve = \<lparr>sv_port = port,
              sv_host = (case env ''HOST'' of None \<Rightarrow> ''0.0.0.0'' | Some h \<Rightarrow> h), sv_token = token\<rparr>\<rparr>)))))"

definition load_from_env ::
    "(string \<Rightarrow> string + 'n::linordered_semidom runtime_config) \<Rightarrow> (string \<Rightarrow> string + string) \<Rightarrow> (string \<Rightarrow> bool)
     \<Rightarrow> environment \<Rightarrow> string option \<Rightarrow> config_error + 'n loaded" where
  "load_from_env from_yaml read_to_string exists env explicit_path =
     (let candidate =
            (case explicit_path of
               Some p \<Rightarrow> Some p
             | None \<Rightarrow>
                 (case env ''BROWSERSERVE_CONFIG'' of
                    Some p \<Rightarrow> Some p
                  | None \<Rightarrow> if exists ''browserserve.yml'' then Some ''browserserve.yml'' else None))
      in case candidate of
           None \<Rightarrow> load from_yaml None env
         | Some path \<Rightarrow>
             (case read_to_string path of
                Inl e \<Rightarrow> Inl (ReadFailed path e)
              | Inr text \<Rightarrow> load from_yaml (Some text) env))"

section \<open>What a loaded configuration is\<close>

fun get_field :: "int_key \<Rightarrow> 'n runtime_config \<Rightarrow> nat option" where
  "get_field MinReady c = Some (pc_min_ready (rc_pool c))"
| "get_field IdleTimeoutMs c = Some (sc_idle_timeout_ms (rc_session c))"
| "get_field ResumeWindowMs c = Some (sc_resume_window_ms (rc_session c))"
| "get_field MemoryMaxMb c = Some (sc_memory_max_mb (rc_session c))"
| "get_field CpuPercent c = Some (sc_cpu_percent (rc_session c))"
| "get_field PidsMax c = Some (sc_pids_max (rc_session c))"
| "get_field MaxSessions c = pc_max_sessions (rc_pool c)"
| "get_field MaxQueue c = Some (pc_max_queue (rc_pool c))"
| "get_field QueueTimeoutMs c = Some (pc_queue_timeout_ms (rc_pool c))"

lemma get_set_field: "get_field k (set_field j n c) = (if k = j then Some n else get_field k c)"
  by (cases j; cases k) simp_all

text \<open>The value a key gives, when it is present and acceptable.\<close>

definition env_int :: "environment \<Rightarrow> int_key \<Rightarrow> nat option" where
  "env_int env k =
     Option.bind (env (key_name k)) (\<lambda>v.
       Option.bind (parse_uint (key_max k) (trim v)) (\<lambda>n. if k = MaxSessions \<and> n = 0 then None else Some n))"

definition acceptable_int :: "environment \<Rightarrow> int_key \<Rightarrow> bool" where
  "acceptable_int env k \<longleftrightarrow> (env (key_name k) = None \<or> env_int env k \<noteq> None)"

definition put_env :: "environment \<Rightarrow> int_key \<Rightarrow> 'n runtime_config \<Rightarrow> 'n runtime_config" where
  "put_env env k c = (case env_int env k of None \<Rightarrow> c | Some n \<Rightarrow> set_field k n c)"

lemma override_result:
  "override env k c = Inr c' \<longleftrightarrow>
     acceptable_int env k \<and> c' = put_env env k c"
  by (auto simp: override_def put_env_def acceptable_int_def env_int_def split: option.splits if_splits)

lemma override_all_result:
  "override_all env ks c = Inr c' \<longleftrightarrow>
     list_all (acceptable_int env) ks \<and>
     c' = fold (put_env env) ks c"
  by (induction ks arbitrary: c) (auto simp: override_result)

lemma get_field_fold:
  "distinct ks \<Longrightarrow>
   get_field k (fold (put_env env) ks c) =
     (if k \<in> set ks \<and> env_int env k \<noteq> None then env_int env k else get_field k c)"
  by (induction ks arbitrary: c) (auto simp: get_set_field put_env_def split: option.splits)

lemma int_keys_all: "k \<in> set int_keys" "distinct int_keys"
  by (cases k) (simp_all add: int_keys_def)

lemma override_paths_fields [simp]:
  "get_field k (override_paths env c) = get_field k c"
  "rc_pressure (override_paths env c) = rc_pressure c"
  "rc_pool (override_paths env c) = rc_pool c"
  "rc_session (override_paths env c) = rc_session c"
  by (cases k; simp add: override_paths_def Let_def split: option.split)+

lemma switches_fields:
  "get_field k (apply_switches env c) =
     (if k = MaxSessions \<and> sc_single_use (rc_session (apply_switches env c)) then Some 1 else get_field k c)"
  "rc_pressure (apply_switches env c) = rc_pressure c"
  by (cases k; simp add: apply_switches_def Let_def)+

lemma load_steps:
  "load from_yaml yaml env = Inr l \<longleftrightarrow>
     (\<exists>parsed port token.
        parse_file from_yaml yaml = Inr parsed \<and> list_all (acceptable_int env) int_keys \<and>
        read_port env = Inr port \<and> read_token env = Inr token \<and>
        (let c = apply_switches env (fold (put_env env) int_keys (override_paths env parsed))
         in validate c = Inr () \<and>
            l = \<lparr>ld_config = c,
                 ld_serve = \<lparr>sv_port = port,
                   sv_host = (case env ''HOST'' of None \<Rightarrow> ''0.0.0.0'' | Some h \<Rightarrow> h), sv_token = token\<rparr>\<rparr>))"
  by (auto simp: load_def Let_def override_all_result)

definition safe_config :: "'n::linordered_semidom runtime_config \<Rightarrow> bool" where
  "safe_config c \<longleftrightarrow>
     pc_max_sessions (rc_pool c) \<noteq> Some 0 \<and>
     (\<exists>x. pr_max_cpu_percent (rc_pressure c) = Number x \<and> 1 \<le> x \<and> x \<le> 100) \<and>
     (\<exists>x. pr_max_memory_percent (rc_pressure c) = Number x \<and> 1 \<le> x \<and> x \<le> 100) \<and>
     0 < sc_kill_grace_ms (rc_session c) \<and> 0 < bc_max_frame_bytes (rc_chrome c) \<and>
     \<not> (bc_require_sandbox (rc_chrome c) \<and> bc_no_sandbox (rc_chrome c)) \<and>
     (sc_single_use (rc_session c) \<longrightarrow>
        pc_max_sessions (rc_pool c) = Some 1 \<and> \<not> pc_calibrate (rc_pool c))"

lemma percent_ok_iff: "percent_ok p \<longleftrightarrow> (\<exists>x. p = Number x \<and> 1 \<le> x \<and> x \<le> 100)"
  by (cases p) auto

lemma validate_ok:
  "validate c = Inr () \<longleftrightarrow>
     pc_max_sessions (rc_pool c) \<noteq> Some 0 \<and> percent_ok (pr_max_cpu_percent (rc_pressure c)) \<and>
     percent_ok (pr_max_memory_percent (rc_pressure c)) \<and> 0 < sc_kill_grace_ms (rc_session c) \<and>
     0 < bc_max_frame_bytes (rc_chrome c) \<and>
     \<not> (bc_require_sandbox (rc_chrome c) \<and> bc_no_sandbox (rc_chrome c))"
  by (simp add: validate_def)

lemma switches_single_use:
  "sc_single_use (rc_session (apply_switches env c)) \<Longrightarrow>
   pc_max_sessions (rc_pool (apply_switches env c)) = Some 1 \<and> \<not> pc_calibrate (rc_pool (apply_switches env c))"
  by (auto simp: apply_switches_def Let_def split: if_splits)

lemma load_safe: "load from_yaml yaml env = Inr l \<Longrightarrow> safe_config (ld_config l)"
proof -
  assume "load from_yaml yaml env = Inr l"
  then obtain c where c: "ld_config l = apply_switches env c" "validate (ld_config l) = Inr ()"
    by (auto simp: load_steps Let_def)
  show ?thesis
    using c(2) switches_single_use [of env c] unfolding c(1) [symmetric]
    by (simp add: safe_config_def validate_ok percent_ok_iff)
qed

text \<open>The integer fields fit the widths they have in the code.\<close>

definition fits_widths :: "'n runtime_config \<Rightarrow> bool" where
  "fits_widths c \<longleftrightarrow> (\<forall>k n. get_field k c = Some n \<longrightarrow> n \<le> key_max k)"

text \<open>
  Property C13: whatever the file and the environment say, a configuration that loads is a safe one.
  There is room for a session, the admission thresholds are numbers between 1 and 100 (so comparing
  a load with them never meets NaN), the grace period and the message cap are positive, the sandbox
  is not required and switched off at once, and single use means one session and no calibration;
  the integers fit their widths when the file's do, the port is a TCP port and a token that is set is
  not blank.
\<close>

theorem loaded_config_is_safe:
  assumes "load from_yaml yaml env = Inr l"
    and "\<And>text c. from_yaml text = Inr c \<Longrightarrow> fits_widths c"
  shows "safe_config (ld_config l) \<and> fits_widths (ld_config l) \<and> sv_port (ld_serve l) \<le> 65535 \<and>
         (\<forall>t. sv_token (ld_serve l) = Some t \<longrightarrow> trim t \<noteq> [])"
proof -
  obtain parsed port token where p: "parse_file from_yaml yaml = Inr parsed" "read_port env = Inr port"
    "read_token env = Inr token" and l: "sv_port (ld_serve l) = port" "sv_token (ld_serve l) = token"
    "ld_config l = apply_switches env (fold (put_env env) int_keys (override_paths env parsed))"
    using assms(1) by (auto simp: load_steps Let_def)
  have "fits_widths parsed"
  proof -
    have "get_field k default_runtime_config = Some n \<Longrightarrow> n \<le> key_max k" for k n
      by (cases k) (auto simp: default_runtime_config_def default_pool_config_def default_session_config_def
          u32_max_def u64_max_def)
    then show ?thesis
      using p(1) assms(2)
      by (auto simp: parse_file_def fits_widths_def split: option.splits if_splits sum.splits)
  qed
  moreover have "env_int env k = Some n \<Longrightarrow> n \<le> key_max k" for k n
    by (auto simp: env_int_def bind_eq_Some_conv split: if_splits intro: parse_uint_le)
  ultimately have "fits_widths (ld_config l)"
    by (auto simp: fits_widths_def l(3) switches_fields get_field_fold int_keys_all u32_max_def split: if_splits)
  moreover have "port \<le> 65535"
    using p(2) parse_uint_le [of u16_max] by (auto simp: read_port_def u16_max_def split: option.splits)
  moreover have "token = Some t \<Longrightarrow> trim t \<noteq> []" for t
    using p(3) by (auto simp: read_token_def split: option.splits if_splits)
  ultimately show ?thesis using load_safe [OF assms(1)] l by simp
qed

text \<open>
  The environment overrides the file, key by key. In a configuration that loads, each of
  the nine integer settings is the value of its environment variable when that is set, and the
  file's (or the default) value otherwise; only single use forces the session limit to one.
\<close>

theorem environment_overrides_file:
  assumes "load from_yaml yaml env = Inr l" "parse_file from_yaml yaml = Inr parsed"
  shows "get_field k (ld_config l) =
     (if k = MaxSessions \<and> sc_single_use (rc_session (ld_config l)) then Some 1
      else case env (key_name k) of
             None \<Rightarrow> get_field k parsed
           | Some v \<Rightarrow> parse_uint (key_max k) (trim v))"
proof -
  have l: "list_all (acceptable_int env) int_keys"
    "ld_config l = apply_switches env (fold (put_env env) int_keys (override_paths env parsed))"
    using assms by (auto simp: load_steps Let_def)
  have "acceptable_int env k" using l(1) int_keys_all(1) by (auto simp: list_all_iff)
  then show ?thesis
    by (auto simp: l(2) switches_fields get_field_fold int_keys_all acceptable_int_def env_int_def
        split: option.splits bind_splits if_splits)
qed

definition demo_environment :: environment where
  "demo_environment = [''BROWSERSERVE_MAX_SESSIONS'' \<mapsto> '' 7 '', ''PORT'' \<mapsto> ''80'']"

lemma demo_numbers:
  "trim '' 7 '' = ''7''" "parse_uint u32_max ''7'' = Some 7" "parse_uint u16_max ''80'' = Some 80"
proof -
  show "trim '' 7 '' = ''7''" by code_simp
  show "parse_uint u32_max ''7'' = Some 7" "parse_uint u16_max ''80'' = Some 80"
    by (simp_all add: parse_uint_def starts_with_def is_ascii_digit_def u32_max_def u16_max_def)
qed

lemma demo_load:
  obtains l where "load (\<lambda>_. Inl ''no'' :: string + nat runtime_config) None demo_environment = Inr l"
    "\<not> sc_single_use (rc_session (ld_config l))"
proof -
  let ?c = "apply_switches demo_environment (default_runtime_config
      \<lparr>rc_pool := default_pool_config\<lparr>pc_max_sessions := Some 7\<rparr>\<rparr> :: nat runtime_config)"
  have "override_all demo_environment int_keys (override_paths demo_environment default_runtime_config) =
      Inr (default_runtime_config\<lparr>rc_pool := default_pool_config\<lparr>pc_max_sessions := Some 7\<rparr>\<rparr> :: nat runtime_config)"
    by (simp add: int_keys_def override_def demo_environment_def demo_numbers override_paths_def
        default_runtime_config_def)
  moreover have "validate ?c = Inr ()" "\<not> sc_single_use (rc_session ?c)"
    by (simp_all add: validate_def apply_switches_def switch_def demo_environment_def default_runtime_config_def
        default_pool_config_def default_session_config_def default_pressure_config_def
        default_browser_config_def default_proxy_config_def)
  ultimately show thesis
    by (intro that [of "\<lparr>ld_config = ?c,
            ld_serve = \<lparr>sv_port = 80, sv_host = ''0.0.0.0'', sv_token = None\<rparr>\<rparr>"])
       (simp_all add: load_def parse_file_def read_port_def read_token_def demo_environment_def demo_numbers Let_def
          default_runtime_config_def)
qed

theorem loaded_config_is_safe_witness:
  "\<exists>l. load (\<lambda>_. Inl ''no'' :: string + nat runtime_config) None demo_environment = Inr l \<and>
       safe_config (ld_config l)"
proof -
  obtain l where l: "load (\<lambda>_. Inl ''no'' :: string + nat runtime_config) None demo_environment = Inr l"
    by (rule demo_load)
  then show ?thesis using loaded_config_is_safe [OF l] by simp
qed

theorem environment_overrides_file_witness:
  "\<exists>l. load (\<lambda>_. Inl ''no'' :: string + nat runtime_config) None demo_environment = Inr l \<and>
       get_field MaxSessions (ld_config l) = Some 7"
proof -
  obtain l where l: "load (\<lambda>_. Inl ''no'' :: string + nat runtime_config) None demo_environment = Inr l"
    "\<not> sc_single_use (rc_session (ld_config l))"
    by (rule demo_load)
  show ?thesis
    using l demo_numbers environment_overrides_file [OF l(1), of default_runtime_config MaxSessions]
    by (simp add: parse_file_def demo_environment_def)
qed

end
