(* ===== verification/Discovery.thy ===== *)
theory Discovery
  imports File_System Json_Api "HOL-Library.AList"
begin

text \<open>
  \<^verbatim>\<open>src/chrome/find.rs\<close> and \<^verbatim>\<open>src/chrome/prefs.rs\<close>: finding the browser's executable, reading its major
  version, and the preferences written before a launch. The metadata of files, the child process of the
  version probe and the JSON text format are arguments.
\<close>

section \<open>The executable\<close>

datatype find_error = ChromeNotFound nat | BadExplicit string

text \<open>The metadata of a path, when there is any: whether it is a file, and its permission bits.\<close>

type_synonym metadata = "string \<Rightarrow> (bool \<times> 32 word) option"

definition is_executable :: "metadata \<Rightarrow> string \<Rightarrow> bool" where
  "is_executable md path =
     (case md path of None \<Rightarrow> False | Some (is_file, mode) \<Rightarrow> is_file \<and> and mode 0x49 \<noteq> 0)"

definition candidates :: "string list" where
  "candidates =
     [''/usr/bin/chromium'', ''/usr/bin/chromium-browser'', ''/usr/bin/google-chrome-stable'',
      ''/usr/bin/google-chrome'', ''/usr/local/bin/chromium'', ''/usr/local/bin/google-chrome'',
      ''/snap/bin/chromium'']"

definition find_chrome :: "metadata \<Rightarrow> string option \<Rightarrow> find_error + string" where
  "find_chrome md explicit =
     (case explicit of
        Some path \<Rightarrow> if is_executable md path then Inr path else Inl (BadExplicit path)
      | None \<Rightarrow>
          (case find (is_executable md) candidates of
             Some c \<Rightarrow> Inr c
           | None \<Rightarrow> Inl (ChromeNotFound (length candidates))))"

section \<open>Its version\<close>

definition major_of :: "string \<Rightarrow> nat option" where
  "major_of token0 =
     (let parts = split_on token0 (CHR ''.''); rest = tl parts
      in case parse_uint u32_max (hd parts) of
           None \<Rightarrow> None
         | Some major \<Rightarrow>
             if length rest = 3 \<and> list_all (\<lambda>p. parse_uint u32_max p \<noteq> None) rest then Some major else None)"

definition parse_major_version :: "string \<Rightarrow> nat option" where
  "parse_major_version out = find_map major_of (split_whitespace out)"

text \<open>
  One turn of the wait: the poll of the child failed, found it exited, or found it running, before or
  after the deadline.
\<close>

datatype poll = PollFailed | Exited | Running bool

text \<open>Whether the child ended by itself, and whether it was killed; \<open>None\<close> while the polls last.\<close>

fun await_exit :: "poll list \<Rightarrow> (bool \<times> bool) option" where
  "await_exit [] = None"
| "await_exit (PollFailed # ps) = Some (False, False)"
| "await_exit (Exited # ps) = Some (True, False)"
| "await_exit (Running late # ps) = (if late then Some (False, True) else await_exit ps)"

text \<open>\<open>spawned\<close> is whether the child started, \<open>out\<close> what could be read of its output as UTF-8.\<close>

definition browser_major_version :: "bool \<Rightarrow> poll list \<Rightarrow> string option \<Rightarrow> nat option option" where
  "browser_major_version spawned polls out =
     (if \<not> spawned then Some None
      else case await_exit polls of
             None \<Rightarrow> None
           | Some (ended, killed) \<Rightarrow> Some (if ended then Option.bind out parse_major_version else None))"

section \<open>Preferences\<close>

definition object_fields :: "json \<Rightarrow> (string \<times> json) list option" where
  "object_fields v = (case v of JObject kvs \<Rightarrow> Some kvs | _ \<Rightarrow> None)"

text \<open>The preferences found, if they are an object; the profile entry, made an object if it is not one.\<close>

definition leak_check_off :: "(string \<times> json) list \<Rightarrow> (string \<times> json) list" where
  "leak_check_off root =
     (let prof = (case Option.bind (map_of root ''profile'') object_fields of None \<Rightarrow> [] | Some kvs \<Rightarrow> kvs)
      in AList.update ''profile'' (JObject (AList.update ''password_manager_leak_detection'' (JBool False) prof)) root)"

text \<open>\<open>parse\<close> and \<open>print\<close> are the JSON text format.\<close>

definition with_leak_check_off :: "(string \<Rightarrow> json option) \<Rightarrow> (json \<Rightarrow> string) \<Rightarrow> string option \<Rightarrow> string" where
  "with_leak_check_off parse print existing =
     (let root = (case Option.bind (Option.bind existing parse) object_fields of None \<Rightarrow> [] | Some kvs \<Rightarrow> kvs)
      in print (JObject (leak_check_off root)))"

text \<open>
  Writing them: the directory is created, the old file read when it can be (\<open>readable\<close>), the new contents written over it.
\<close>

definition apply_launch_prefs ::
    "(string \<Rightarrow> json option) \<Rightarrow> (json \<Rightarrow> string) \<Rightarrow> disk \<Rightarrow> (bytes \<Rightarrow> string option) \<Rightarrow> path \<Rightarrow> fs \<Rightarrow> outcome \<times> fs" where
  "apply_launch_prefs parse print dk readable udd fs =
     (case create_dir_all dk (udd @ [''Default'']) fs of
        (Ok, fs1) \<Rightarrow>
          (let file0 = udd @ [''Default'', ''Preferences''];
               existing = (case fs1 file0 of Some (FileE b) \<Rightarrow> readable b | _ \<Rightarrow> None)
           in copy_over dk file0 (as_bytes (with_leak_check_off parse print existing)) fs1)
      | (stopped, fs1) \<Rightarrow> (stopped, fs1))"

section \<open>Which executable and which version\<close>

lemma digits_no_dot: "CHR ''.'' \<notin> set (show_nat n)"
  using show_nat_digits [of n] by (auto simp: list_all_iff is_ascii_digit_def)

lemma major_of_shown:
  assumes "a \<le> u32_max" "b \<le> u32_max" "c \<le> u32_max" "d \<le> u32_max"
  shows "major_of (str_join ''.'' [show_nat a, show_nat b, show_nat c, show_nat d]) = Some a"
proof -
  have "split_on (str_join ''.'' [show_nat a, show_nat b, show_nat c, show_nat d]) (CHR ''.'') =
      [show_nat a, show_nat b, show_nat c, show_nat d]"
    by (rule split_on_join) (auto simp: digits_no_dot)
  then show ?thesis using assms by (simp add: major_of_def parse_show_nat)
qed

text \<open>
  The browser is the one that was asked for, and its version is the one it prints. An
  explicit path is used or refused, never replaced; otherwise the first executable of the known places
  is taken. The version of a printed line is the major number of its first token of four numbers, also
  when other words and numbers come before it.
\<close>

theorem browser_found:
  assumes "split_whitespace out = pre @ str_join ''.'' [show_nat a, show_nat b, show_nat c, show_nat d] # post"
    and "\<forall>x \<in> set pre. major_of x = None" "a \<le> u32_max" "b \<le> u32_max" "c \<le> u32_max" "d \<le> u32_max"
  shows "parse_major_version out = Some a \<and>
     (find_chrome md (Some path) = (if is_executable md path then Inr path else Inl (BadExplicit path))) \<and>
     (find_chrome md None = Inr p \<longleftrightarrow>
        (\<exists>before after. candidates = before @ p # after \<and> is_executable md p \<and> (\<forall>q \<in> set before. \<not> is_executable md q)))"
proof -
  have "parse_major_version out = Some a"
    unfolding parse_major_version_def find_map_Some using assms(1,2) major_of_shown [OF assms(3-6)] by blast
  moreover have "find_chrome md None = Inr p \<longleftrightarrow> find (is_executable md) candidates = Some p"
    by (simp add: find_chrome_def split: option.splits)
  moreover have "find (is_executable md) candidates = Some p \<longleftrightarrow>
      (\<exists>before after. candidates = before @ p # after \<and> is_executable md p \<and> (\<forall>q \<in> set before. \<not> is_executable md q))"
    using find_Some [of "is_executable md" candidates p] .
  ultimately show ?thesis by (simp add: find_chrome_def)
qed

lemma demo_version_line:
  "split_whitespace ''Chrome 1.2.3.4'' =
     [''Chrome''] @ str_join ''.'' [show_nat 1, show_nat 2, show_nat 3, show_nat 4] # []"
proof -
  have "show_nat 1 = ''1''" "show_nat 2 = ''2''" "show_nat 3 = ''3''" "show_nat 4 = ''4''"
    by (code_simp)+
  then show ?thesis
    by (simp add: split_whitespace_def split_ws_from.simps [of _ "_ # _"] split_ws_from.simps [of _ "[]"] ws_len_def
        white_space_def starts_with_def del: One_nat_def)
qed

theorem browser_found_witness:
  "parse_major_version ''Chrome 1.2.3.4'' = Some 1 \<and>
   find_chrome (\<lambda>p. if p = ''/usr/bin/chromium-browser'' then Some (True, 0x1ED) else None) None = Inr ''/usr/bin/chromium-browser''"
proof -
  let ?md = "\<lambda>p. if p = ''/usr/bin/chromium-browser'' then Some (True, 0x1ED :: 32 word) else None"
  have "major_of ''Chrome'' = None" by (simp add: major_of_def parse_uint_def starts_with_def is_ascii_digit_def Let_def)
  then have "\<forall>x \<in> set [''Chrome'']. major_of x = None" by simp
  note R = browser_found [OF demo_version_line this, of ?md "''x''" "''/usr/bin/chromium-browser''"]
  have "candidates = [''/usr/bin/chromium''] @ ''/usr/bin/chromium-browser'' #
      [''/usr/bin/google-chrome-stable'', ''/usr/bin/google-chrome'', ''/usr/local/bin/chromium'',
       ''/usr/local/bin/google-chrome'', ''/snap/bin/chromium'']" by (simp add: candidates_def)
  moreover have "is_executable ?md ''/usr/bin/chromium-browser''" by (simp add: is_executable_def)
  moreover have "\<forall>q \<in> set [''/usr/bin/chromium'']. \<not> is_executable ?md q" by (simp add: is_executable_def)
  ultimately show ?thesis using R unfolding u32_max_def by (simp; blast)
qed

section \<open>Preferences are kept\<close>

lemma prefs_over: "parse s = Some (JObject kvs) \<Longrightarrow> with_leak_check_off parse print (Some s) = print (JObject (leak_check_off kvs))"
  by (simp add: with_leak_check_off_def object_fields_def)

lemma json_get_update: "json_get k (JObject (AList.update k' v kvs)) = (if k = k' then Some v else json_get k (JObject kvs))"
  by (simp add: update_conv')

text \<open>
  The launch preferences switch the check off and keep everything else. What is written
  reads back as an object in which the leak check is false; when the old preferences were an object,
  every other entry is the old one, and so is every other entry of the profile when that was an object;
  writing again changes nothing.
\<close>

theorem launch_prefs_kept:
  assumes reads: "\<forall>doc. print doc = with_leak_check_off parse print existing \<longrightarrow> parse (print doc) = Some doc"
  shows "\<exists>root prof. parse (with_leak_check_off parse print existing) = Some root \<and>
     json_get ''profile'' root = Some prof \<and> json_get ''password_manager_leak_detection'' prof = Some (JBool False) \<and>
     (\<forall>old. Option.bind existing parse = Some (JObject old) \<longrightarrow>
        (\<forall>k. k \<noteq> ''profile'' \<longrightarrow> json_get k root = map_of old k) \<and>
        (\<forall>p. map_of old ''profile'' = Some (JObject p) \<longrightarrow>
           (\<forall>k. k \<noteq> ''password_manager_leak_detection'' \<longrightarrow> json_get k prof = map_of p k))) \<and>
     with_leak_check_off parse print (Some (with_leak_check_off parse print existing)) =
       with_leak_check_off parse print existing"
proof -
  let ?old = "case Option.bind (Option.bind existing parse) object_fields of None \<Rightarrow> [] | Some kvs \<Rightarrow> kvs"
  let ?p = "case Option.bind (map_of ?old ''profile'') object_fields of None \<Rightarrow> [] | Some kvs \<Rightarrow> kvs"
  let ?prof = "AList.update ''password_manager_leak_detection'' (JBool False) ?p"
  let ?root = "AList.update ''profile'' (JObject ?prof) ?old"
  have w: "with_leak_check_off parse print existing = print (JObject ?root)"
    by (simp add: with_leak_check_off_def leak_check_off_def Let_def)
  have again: "parse (print (JObject ?root)) = Some (JObject ?root)" using reads w by simp
  have twice: "AList.update k v (AList.update k v kvs) = AList.update k v kvs" for k :: string and v :: json and kvs
    by (induction kvs) auto
  have "leak_check_off ?root = ?root"
    by (simp add: leak_check_off_def Let_def update_conv' object_fields_def twice del: update.simps)
  then have "with_leak_check_off parse print (Some (print (JObject ?root))) = print (JObject ?root)"
    using prefs_over [of parse _ _ print, OF again] by simp
  moreover have "json_get ''profile'' (JObject ?root) = Some (JObject ?prof)" by (simp add: json_get_update del: json_get.simps)
  moreover have "json_get ''password_manager_leak_detection'' (JObject ?prof) = Some (JBool False)"
    by (simp add: json_get_update del: json_get.simps)
  moreover have "json_get k (JObject ?root) = map_of old k"
    if "Option.bind existing parse = Some (JObject old)" "k \<noteq> ''profile''" for old k
    using that by (simp add: update_conv' object_fields_def)
  moreover have "json_get k (JObject ?prof) = map_of p k"
    if "Option.bind existing parse = Some (JObject old)" "map_of old ''profile'' = Some (JObject p)"
      "k \<noteq> ''password_manager_leak_detection''" for old p k
    using that by (simp add: update_conv' object_fields_def)
  ultimately show ?thesis unfolding w again by blast
qed

definition demo_old :: json where "demo_old = JObject [(''x'', JBool True)]"

definition demo_new :: json where
  "demo_new = JObject [(''x'', JBool True), (''profile'', JObject [(''password_manager_leak_detection'', JBool False)])]"

definition demo_parse :: "string \<Rightarrow> json option" where
  "demo_parse s = (if s = ''old'' then Some demo_old else if s = ''new'' then Some demo_new else None)"

definition demo_print :: "json \<Rightarrow> string" where
  "demo_print doc = (if doc = demo_new then ''new'' else ''old'')"

theorem launch_prefs_kept_witness:
  "with_leak_check_off demo_parse demo_print (Some ''new'') = ''new'' \<and>
   (\<exists>root. demo_parse (with_leak_check_off demo_parse demo_print (Some ''old'')) = Some root \<and>
      json_get ''x'' root = Some (JBool True))"
proof -
  have old: "Option.bind (Some ''old'') demo_parse = Some (JObject [(''x'', JBool True)])"
    by (simp add: demo_parse_def demo_old_def)
  have w: "with_leak_check_off demo_parse demo_print (Some ''old'') = ''new''"
    by (simp add: with_leak_check_off_def demo_parse_def demo_print_def demo_old_def demo_new_def object_fields_def
        leak_check_off_def)
  then have "\<forall>doc. demo_print doc = with_leak_check_off demo_parse demo_print (Some ''old'') \<longrightarrow>
      demo_parse (demo_print doc) = Some doc"
    by (simp add: demo_print_def demo_parse_def)
  from launch_prefs_kept [OF this] old show ?thesis unfolding w by fastforce
qed

end
