(* ===== verification/Host_Probe.thy ===== *)
theory Host_Probe
  imports Factory Retry "HOL-Library.Sublist"
begin

text \<open>
  \<^verbatim>\<open>src/linux/probe.rs\<close> and \<^verbatim>\<open>src/linux/cgroup.rs\<close>: control groups as files, and the probing that decides
  which isolation a host gets. What the operating system answers is an argument; what is written,
  created and removed is returned in order.
\<close>

section \<open>Control groups\<close>

text \<open>\<^verbatim>\<open>Path::join\<close>: an absolute path replaces the one it is joined to.\<close>

definition path_join :: "string \<Rightarrow> string \<Rightarrow> string" where
  "path_join a b =
     (if starts_with b ''/'' then b
      else if a = [] \<or> last a = CHR ''/'' then a @ b
      else a @ ''/'' @ b)"

datatype cgroup_error = CgroupIo string string

text \<open>The answers: reading a file, the error of writing or creating, whether a path is there, how a command ends.\<close>

record cgroup_env =
  os_base_var :: "string option"
  os_is_dir :: "string \<Rightarrow> bool"
  os_exists :: "string \<Rightarrow> bool"
  os_read :: "string \<Rightarrow> string + string"
  os_write :: "string \<Rightarrow> string \<Rightarrow> string option"
  os_mkdir :: "string \<Rightarrow> string option"
  os_rmdir :: "nat \<Rightarrow> bool"
  os_status :: "string \<times> string list \<Rightarrow> bool"

datatype cgroup_effect = CgCreated string | CgWrote string string | CgEntered string | CgRemoved string

definition cg_write :: "cgroup_env \<Rightarrow> string \<Rightarrow> string \<Rightarrow> cgroup_error option" where
  "cg_write env path v = map_option (CgroupIo path) (os_write env path v)"

definition cg_read :: "cgroup_env \<Rightarrow> string \<Rightarrow> cgroup_error + string" where
  "cg_read env path = (case os_read env path of Inl e \<Rightarrow> Inl (CgroupIo path e) | Inr s \<Rightarrow> Inr s)"

definition own_cgroup_dir :: "cgroup_env \<Rightarrow> string option" where
  "own_cgroup_dir env =
     (case os_read env ''/proc/self/cgroup'' of
        Inl e \<Rightarrow> None
      | Inr content \<Rightarrow>
          map_option
            (\<lambda>rel0. let rel = trim rel0
                    in path_join ''/sys/fs/cgroup'' (case strip_prefix rel ''/'' of None \<Rightarrow> rel | Some r \<Rightarrow> r))
            (find_map (\<lambda>line. strip_prefix line ''0::'') (str_lines content)))"

definition available_controllers :: "cgroup_env \<Rightarrow> string \<Rightarrow> string list" where
  "available_controllers env dir =
     (case cg_read env (path_join dir ''cgroup.controllers'') of Inl e \<Rightarrow> [] | Inr s \<Rightarrow> split_whitespace s)"

definition enable_memory_controller :: "cgroup_env \<Rightarrow> string \<Rightarrow> cgroup_error option" where
  "enable_memory_controller env dir = cg_write env (path_join dir ''cgroup.subtree_control'') ''+memory''"

definition cgroup_create :: "cgroup_env \<Rightarrow> string \<Rightarrow> string \<Rightarrow> cgroup_error + string" where
  "cgroup_create env parent child =
     (let dir = path_join parent child
      in case os_mkdir env dir of Some e \<Rightarrow> Inl (CgroupIo dir e) | None \<Rightarrow> Inr dir)"

definition cgroup_attach :: "cgroup_env \<Rightarrow> string \<Rightarrow> nat \<Rightarrow> cgroup_error option" where
  "cgroup_attach env dir p = cg_write env (path_join dir ''cgroup.procs'') (show_nat p)"

definition set_memory_max :: "cgroup_env \<Rightarrow> string \<Rightarrow> nat \<Rightarrow> cgroup_error option" where
  "set_memory_max env dir n = cg_write env (path_join dir ''memory.max'') (limit_value n)"

definition set_cpu_percent :: "cgroup_env \<Rightarrow> string \<Rightarrow> nat \<Rightarrow> cgroup_error option" where
  "set_cpu_percent env dir percent = cg_write env (path_join dir ''cpu.max'') (cpu_max_value percent)"

definition set_pids_max :: "cgroup_env \<Rightarrow> string \<Rightarrow> nat \<Rightarrow> cgroup_error option" where
  "set_pids_max env dir n = cg_write env (path_join dir ''pids.max'') (limit_value n)"

definition supports_kill :: "cgroup_env \<Rightarrow> string \<Rightarrow> bool" where
  "supports_kill env dir = os_exists env (path_join dir ''cgroup.kill'')"

text \<open>
  Killing and removing a leaf: whether \<^verbatim>\<open>cgroup.kill\<close> was used, whether the leaf is gone, the pauses in
  milliseconds. \<open>os_rmdir env k\<close> is whether the k-th attempt to remove it succeeds.
\<close>

definition remove_attempts :: nat where "remove_attempts = 4"

function remove_from :: "cgroup_env \<Rightarrow> nat \<Rightarrow> bool \<times> nat list" where
  "remove_from env attempt =
     (if remove_attempts < attempt then (False, [])
      else if os_rmdir env attempt then (True, [])
      else (let (gone, pauses) = remove_from env (attempt + 1)
            in (gone, (if attempt < remove_attempts then [100 * attempt] else []) @ pauses)))"
  by pat_completeness auto
termination by (relation "measure (\<lambda>(env, attempt). Suc remove_attempts - attempt)") auto

declare remove_from.simps [simp del]

definition kill_and_remove :: "cgroup_env \<Rightarrow> string \<Rightarrow> bool \<times> bool \<times> nat list" where
  "kill_and_remove env dir =
     (let used_kill = (os_exists env (path_join dir ''cgroup.kill'') \<and>
                       cg_write env (path_join dir ''cgroup.kill'') ''1'' = None)
      in (used_kill, remove_from env 1))"

interpretation leaf: retry_loop "\<lambda>n u. case remove_from env n of (gone, pauses) \<Rightarrow> (gone, pauses, u)"
    "\<lambda>n u. (os_rmdir env n, u)" Not "\<lambda>gone. gone" remove_attempts
  for env
proof
  fix n and u u1 :: 'a and r
  assume "n \<le> remove_attempts" "(os_rmdir env n, u) = (r, u1)"
  then show "(case remove_from env n of (gone, pauses) \<Rightarrow> (gone, pauses, u)) =
      (if \<not> r \<and> n < remove_attempts
       then (case case remove_from env (n + 1) of (gone, pauses) \<Rightarrow> (gone, pauses, u1) of
               (r2, pauses, s2) \<Rightarrow> (r2, 100 * n # pauses, s2))
       else (r, [], u1))"
    using remove_from.simps [of env "Suc remove_attempts"] remove_from.simps [of env remove_attempts]
    by (cases "n = remove_attempts") (auto simp: remove_from.simps [of env n] split: prod.splits)
qed

text \<open>
  The removal of a leaf ends within four attempts, with pauses of 100, 200 and 300 milliseconds between them; the
  leaf stays only when the last attempt failed.
\<close>

lemma leaf_removal_ends:
  assumes "kill_and_remove env dir = (used_kill, gone, pauses)"
  shows "prefix pauses [100, 200, 300] \<and> (\<not> gone \<longrightarrow> pauses = [100, 200, 300] \<and> \<not> os_rmdir env 4) \<and>
     (gone \<longrightarrow> os_rmdir env (1 + length pauses))"
proof -
  have l: "(case remove_from env 1 of (gone, pauses) \<Rightarrow> (gone, pauses, ())) = (gone, pauses, ())"
    using assms by (simp add: kill_and_remove_def)
  obtain k where k: "1 + k \<le> remove_attempts" "pauses = map (\<lambda>i. 100 * i) [1 ..< 1 + k]"
    "gone = os_rmdir env (1 + k)" "\<not> gone \<longrightarrow> 1 + k = remove_attempts"
    using leaf.loop_result [OF l _ TrueI] by (simp add: remove_attempts_def) metis
  have "k = 0 \<or> k = 1 \<or> k = 2 \<or> k = 3" using k(1) by (auto simp: remove_attempts_def)
  moreover have "map (\<lambda>i. 100 * i) [1 ..< 1 + 0] = ([] :: nat list)" "map (\<lambda>i. 100 * i) [1 ..< 1 + 1] = [100 :: nat]"
    "map (\<lambda>i. 100 * i) [1 ..< 1 + 2] = [100, 200 :: nat]" "map (\<lambda>i. 100 * i) [1 ..< 1 + 3] = [100, 200, 300 :: nat]"
    by (simp_all add: upt_rec)
  moreover have four: "Suc (Suc (Suc (Suc 0))) = 4" by simp
  ultimately show ?thesis using k(2-4) by (elim disjE) (simp_all add: remove_attempts_def four)
qed

section \<open>Probing\<close>

definition limits_note :: "string list \<Rightarrow> string" where
  "limits_note controllers =
     (let state = (\<lambda>c. if c \<in> set controllers then ''enforceable'' else ''not delegated'')
      in ''cgroup limits: memoryMaxMb '' @ state ''memory'' @ '', cpuPercent '' @ state ''cpu'' @
         '', pidsMax '' @ state ''pids'')"

definition show_cgroup_error :: "cgroup_error \<Rightarrow> string" where
  "show_cgroup_error e = (case e of CgroupIo path cause \<Rightarrow> ''cgroup io on '' @ path @ '': '' @ cause)"

text \<open>
  A child that joins the leaf and ends, started the way a browser is; \<open>os_status\<close> is whether a command could
  be run and succeeded.
\<close>

definition probe_attach :: "cgroup_env \<Rightarrow> string \<Rightarrow> bool" where
  "probe_attach env leaf = os_status env (browser_command ''true'' (Some leaf))"

text \<open>The base that is probed, or the note why there is none.\<close>

definition own_base :: "cgroup_env \<Rightarrow> string + string" where
  "own_base env =
     (case own_cgroup_dir env of
        None \<Rightarrow> Inl ''cgroup: /proc/self/cgroup unreadable; using killpg + rss-poll''
      | Some dir \<Rightarrow>
          (if ''memory'' \<notin> set (available_controllers env dir)
           then Inl (''cgroup: '' @ [CHR 0x27] @ ''memory'' @ [CHR 0x27] @ '' not delegated in '' @ dir @
                     '' (needs +memory in parent subtree_control); using rss-poll'')
           else Inr dir))"

definition probe_base :: "cgroup_env \<Rightarrow> string + string" where
  "probe_base env =
     (case os_base_var env of
        Some explicit \<Rightarrow> if os_is_dir env explicit then Inr explicit else own_base env
      | None \<Rightarrow> own_base env)"

text \<open>The tiers with the notes, and what was done: the leaf is entered only when its limit could be written.\<close>

definition probe_cgroup :: "cgroup_env \<Rightarrow> (memcap_tier \<times> kill_tier) \<times> string list \<times> cgroup_effect list" where
  "probe_cgroup env =
     (case probe_base env of
        Inl note0 \<Rightarrow> ((RssPoll, Killpg), [note0], [])
      | Inr base \<Rightarrow>
          (case cgroup_create env base ''browserserve-probe'' of
             Inl e \<Rightarrow>
               ((RssPoll, Killpg),
                [''cgroup: cannot create leaf ('' @ show_cgroup_error e @ ''); using killpg + rss-poll''], [])
           | Inr leaf \<Rightarrow>
               (let writable = (set_memory_max env leaf 0 = None);
                    can_kill = supports_kill env leaf;
                    leaf_controllers = available_controllers env leaf;
                    attach_ok = (writable \<and> probe_attach env leaf);
                    fx = [CgCreated leaf, CgWrote (path_join leaf ''memory.max'') (limit_value 0)] @
                         (if writable then [CgEntered leaf] else []) @ [CgRemoved leaf]
                in if attach_ok then
                     ((MemCgroup, if can_kill then CgroupKill else Killpg),
                      [''cgroup: memory.max writable and process migration works; hard cap active'',
                       limits_note leaf_controllers], fx)
                   else if writable then
                     ((RssPoll, Killpg),
                      [''cgroup: memory.max writable but process migration denied (delegation boundary); using rss-poll''], fx)
                   else
                     ((RssPoll, Killpg),
                      [''cgroup: leaf created but memory.max not writable; using rss-poll''], fx))))"

text \<open>\<open>data_error\<close>: creating the data directory; the reflink library's check is \<open>Inr True\<close> when it is supported.\<close>

definition probe_profile :: "string option \<Rightarrow> string + bool \<Rightarrow> profile_tier \<times> string list" where
  "probe_profile data_error reflink_support =
     (case data_error of
        Some e \<Rightarrow> (PlainCopy, [''profile: data_dir uncreatable ('' @ e @ ''); plain-copy''])
      | None \<Rightarrow>
          (case reflink_support of
             Inr True \<Rightarrow> (Reflink, [''profile: reflink supported on data_dir; CoW clone active''])
           | Inr False \<Rightarrow> (PlainCopy, [''profile: reflink unsupported on data_dir; plain-copy''])
           | Inl e \<Rightarrow> (PlainCopy, [''profile: reflink probe failed ('' @ e @ ''); plain-copy''])))"

definition detect :: "cgroup_env \<Rightarrow> string option \<Rightarrow> string + bool \<Rightarrow> tiers" where
  "detect env data_error reflink_support =
     (let ((mem, k), notes0, fx) = probe_cgroup env;
          (prof, more) = probe_profile data_error reflink_support
      in \<lparr>kill = k, memcap = mem, profile = prof, tier_notes = notes0 @ more\<rparr>)"

text \<open>Where the leaves of the sessions go (\<^verbatim>\<open>prepare_cgroup_base\<close> of \<^verbatim>\<open>src/factory.rs\<close>).\<close>

definition prepare_cgroup_base :: "cgroup_env \<Rightarrow> string option" where
  "prepare_cgroup_base env =
     (case (case os_base_var env of
              Some explicit \<Rightarrow> if os_is_dir env explicit then Some explicit else None
            | None \<Rightarrow> None) of
        Some explicit \<Rightarrow> Some explicit
      | None \<Rightarrow>
          Option.bind (own_cgroup_dir env) (\<lambda>base.
            case cgroup_create env base ''browserserve'' of
              Inl e \<Rightarrow> None
            | Inr dir \<Rightarrow> Some (path_join base ''browserserve'')))"

section \<open>A hard cap is claimed only when it was proven\<close>


definition delegated_host :: cgroup_env where
  "delegated_host =
     \<lparr>os_base_var = Some ''/cg'', os_is_dir = (\<lambda>_. True), os_exists = (\<lambda>_. True), os_read = (\<lambda>_. Inl ''no''),
      os_write = (\<lambda>_ _. None), os_mkdir = (\<lambda>_. None), os_rmdir = (\<lambda>_. True), os_status = (\<lambda>_. True)\<rparr>"

lemma hard_cap_delegated: "memcap (detect delegated_host e r) = MemCgroup"
  by (simp add: detect_def probe_cgroup_def probe_base_def delegated_host_def probe_attach_def cgroup_create_def set_memory_max_def
      cg_write_def Let_def split: prod.splits)


section \<open>Where the proof does not carry over\<close>

text \<open>
  The leaf that is probed and the leaves of the sessions have different parents when no base was
  delegated. The kernel gives a group the limits that its parent's \<^verbatim>\<open>cgroup.subtree_control\<close> enables;
  nothing enables memory in the group \<^verbatim>\<open>browserserve\<close> that is made for the sessions, so there the limit
  that was proven cannot be written.
\<close>

definition kernel_host :: cgroup_env where
  "kernel_host =
     \<lparr>os_base_var = None, os_is_dir = (\<lambda>_. True), os_exists = (\<lambda>_. True),
      os_read = (\<lambda>p. if p = ''/proc/self/cgroup'' then Inr ''0::/own''
                     else if p = ''/sys/fs/cgroup/own/cgroup.controllers'' then Inr ''memory'' else Inr []),
      os_write = (\<lambda>p v. if p = ''/sys/fs/cgroup/own/browserserve-probe/memory.max'' then None else Some ''no such file''),
      os_mkdir = (\<lambda>_. None), os_rmdir = (\<lambda>_. True), os_status = (\<lambda>_. True)\<rparr>"

lemma proven_cap_does_not_reach_sessions:
  "memcap (detect kernel_host None (Inr False)) = MemCgroup"
  "prepare_cgroup_base kernel_host = Some ''/sys/fs/cgroup/own/browserserve''"
  "cgroup_create kernel_host ''/sys/fs/cgroup/own/browserserve'' ''session-1-0'' =
     Inr ''/sys/fs/cgroup/own/browserserve/session-1-0''"
  "set_memory_max kernel_host ''/sys/fs/cgroup/own/browserserve/session-1-0'' 1000 \<noteq> None"
  by code_simp+

end
