(* ===== verification/Cli.thy ===== *)
theory Cli
  imports Config Discovery Template Host_Probe
begin

text \<open>
  \<^verbatim>\<open>src/main.rs\<close>: the commands. What the host answers is a record; a command returns its exit, the lines
  it reports, and what it did. The messages are values that carry what the printed text is made of.
\<close>

section \<open>Loading\<close>

datatype cli_error =
    BadConfig config_error
  | PortNotAvailable
  | NoBrowser find_error
  | NotProvisioned outcome
  | SandboxBlocked launch_error
  | LaunchFailed launch_error
  | FallbackFailed launch_error
  | DirsNotRemoved outcome

record 'n config_source =
  cs_yaml :: "string \<Rightarrow> string + 'n runtime_config"
  cs_read :: "string \<Rightarrow> string + string"
  cs_exists :: "string \<Rightarrow> bool"
  cs_env :: environment

definition read_config :: "'n::linordered_semidom config_source \<Rightarrow> string option \<Rightarrow> config_error + 'n loaded" where
  "read_config src explicit = load_from_env (cs_yaml src) (cs_read src) (cs_exists src) (cs_env src) explicit"

definition load_config :: "'n::linordered_semidom config_source \<Rightarrow> string option \<Rightarrow> cli_error + 'n loaded" where
  "load_config src explicit =
     (case read_config src explicit of
        Inl e \<Rightarrow> Inl (BadConfig e)
      | Inr loaded0 \<Rightarrow>
          if bc_transport (rc_chrome (ld_config loaded0)) = PortTransport then Inl PortNotAvailable
          else Inr loaded0)"

section \<open>Check\<close>

text \<open>
  The host for one check: where the data directory is, the identifier of the session, the version probe
  of the executable, \<^verbatim>\<open>/dev/shm\<close>, one launch environment with and one without the sandbox, what a browser
  writes, how the teardown's waits end, and the removal of the directory.
\<close>

record 'j check_host =
  ch_metadata :: metadata
  ch_disk :: disk
  ch_data_dir :: path
  ch_session_id :: string
  ch_path_text :: "path \<Rightarrow> string"
  ch_major :: "string \<Rightarrow> nat option"
  ch_shm :: "(u64 \<times> u64) option"
  ch_json :: "'j json_api"
  ch_launch :: "bool \<Rightarrow> 'j launch_env"
  ch_browser_writes :: "launch_spec \<Rightarrow> fs \<Rightarrow> fs"
  ch_close :: wait_result
  ch_term :: wait_result
  ch_kill :: wait_result
  ch_removal :: "nat \<Rightarrow> removal"

datatype report_line =
    ExecutableLine string
  | UserDataDir path
  | SandboxBlockedRetrying
  | SandboxLine string
  | BrowserLine int browser_version
  | TeardownLine teardown_report
  | DirRemoved
  | CheckPass
  | CheckFail

definition mk_spec :: "'j check_host \<Rightarrow> browser_config \<Rightarrow> string \<Rightarrow> session_dirs \<Rightarrow> bool \<Rightarrow> launch_spec" where
  "mk_spec h c exe d no_sandbox0 =
     \<lparr>executable = exe, ls_user_data_dir = ch_path_text h (sd_user_data_dir d), ls_no_sandbox = no_sandbox0,
      ls_disable_dev_shm = small_dev_shm (ch_shm h),
      extra_flags = launch_extra_flags (bc_stealth c) (ch_major h exe) (bc_extra_flags c),
      launch_timeout = bc_launch_timeout_ms c, max_frame_bytes = bc_max_frame_bytes c, cgroup_leaf = None\<rparr>"

text \<open>A launch: the result, the signals, the file system the browser leaves.\<close>

definition check_launch_once ::
    "'j check_host \<Rightarrow> launch_spec \<Rightarrow> fs \<Rightarrow> (launch_error + browser) \<times> signal list \<times> fs" where
  "check_launch_once h spec fs =
     (case launch (ch_json h) (ch_launch h (ls_no_sandbox spec)) spec of
        (r, sigs) \<Rightarrow> (r, sigs, ch_browser_writes h spec fs))"

text \<open>
  The launch with its fallback: the error, or the browser with what is said of the sandbox; then the
  specifications tried, the lines, the signals and the file system.
\<close>

definition check_launch ::
    "'j check_host \<Rightarrow> browser_config \<Rightarrow> string \<Rightarrow> session_dirs \<Rightarrow> fs
     \<Rightarrow> (cli_error + browser \<times> string) \<times> launch_spec list \<times> report_line list \<times> signal list \<times> fs" where
  "check_launch h c exe d fs =
     (let sandbox0 = (if bc_no_sandbox c then ''off (config)'' else ''on'');
          spec = mk_spec h c exe d (bc_no_sandbox c)
      in case check_launch_once h spec fs of
           (Inr b, sigs, fs1) \<Rightarrow> (Inr (b, sandbox0), [spec], [], sigs, fs1)
         | (Inl e, sigs, fs1) \<Rightarrow>
             (if is_sandbox_failure e \<and> bc_require_sandbox c then (Inl (SandboxBlocked e), [spec], [], sigs, fs1)
              else if is_sandbox_failure e \<and> \<not> bc_no_sandbox c then
                (let spec2 = mk_spec h c exe d True
                 in case check_launch_once h spec2 fs1 of
                      (Inr b, sigs2, fs2) \<Rightarrow>
                        (Inr (b, ''off (auto-fallback: host blocks the sandbox)''), [spec, spec2],
                         [SandboxBlockedRetrying], sigs @ sigs2, fs2)
                    | (Inl e2, sigs2, fs2) \<Rightarrow>
                        (Inl (FallbackFailed e2), [spec, spec2], [SandboxBlockedRetrying], sigs @ sigs2, fs2))
              else (Inl (LaunchFailed e), [spec], [], sigs, fs1)))"

record check_result =
  cr_exit :: "cli_error + bool"
  cr_lines :: "report_line list"
  cr_tried :: "launch_spec list"
  cr_signals :: "signal list"
  cr_fs :: fs

text \<open>A failed launch: the directory is removed, whatever that removal answers.\<close>

definition check_failed ::
    "'j check_host \<Rightarrow> session_dirs \<Rightarrow> cli_error \<Rightarrow> launch_spec list \<Rightarrow> report_line list \<Rightarrow> signal list \<Rightarrow> fs \<Rightarrow> check_result" where
  "check_failed h d e tried ls sigs fs =
     (case dirs_teardown (ch_removal h) d fs of
        (_, _, fs1) \<Rightarrow> \<lparr>cr_exit = Inl e, cr_lines = ls, cr_tried = tried, cr_signals = sigs, cr_fs = fs1\<rparr>)"

text \<open>A browser that came up: it is taken down, then the directory removed; only a reaped browser passes.\<close>

definition check_finish ::
    "'j check_host \<Rightarrow> session_dirs \<Rightarrow> browser \<Rightarrow> string \<Rightarrow> launch_spec list \<Rightarrow> report_line list \<Rightarrow> signal list \<Rightarrow> fs
     \<Rightarrow> check_result" where
  "check_finish h d b sandbox tried ls sigs fs =
     (case teardown (ch_close h) (ch_term h) (ch_kill h) b of
        (report, sigs1) \<Rightarrow>
          (let ls1 = ls @ [SandboxLine sandbox, BrowserLine (pid b) (version b), TeardownLine report]
           in case dirs_teardown (ch_removal h) d fs of
                (Ok, _, fs1) \<Rightarrow>
                  \<lparr>cr_exit = Inr (reaped report),
                   cr_lines = ls1 @ [DirRemoved, if reaped report then CheckPass else CheckFail],
                   cr_tried = tried, cr_signals = sigs @ sigs1, cr_fs = fs1\<rparr>
              | (stopped, _, fs1) \<Rightarrow>
                  \<lparr>cr_exit = Inl (DirsNotRemoved stopped), cr_lines = ls1, cr_tried = tried,
                   cr_signals = sigs @ sigs1, cr_fs = fs1\<rparr>))"

definition run_check ::
    "'n::linordered_semidom config_source \<Rightarrow> 'j check_host \<Rightarrow> string option \<Rightarrow> string option \<Rightarrow> fs \<Rightarrow> check_result" where
  "run_check src h config_path chrome_override fs =
     (let nothing = \<lparr>cr_exit = Inr False, cr_lines = [], cr_tried = [], cr_signals = [], cr_fs = fs\<rparr>
      in case load_config src config_path of
           Inl e \<Rightarrow> nothing\<lparr>cr_exit := Inl e\<rparr>
         | Inr loaded0 \<Rightarrow>
             (let c = rc_chrome (ld_config loaded0);
                  wanted = (case chrome_override of Some p \<Rightarrow> Some p | None \<Rightarrow> bc_executable_path c)
              in case find_chrome (ch_metadata h) wanted of
                   Inl e \<Rightarrow> nothing\<lparr>cr_exit := Inl (NoBrowser e)\<rparr>
                 | Inr exe \<Rightarrow>
                     (case provision_plain (ch_disk h) (ch_data_dir h) (ch_session_id h) fs of
                        (Inl stopped, fs1) \<Rightarrow>
                          nothing\<lparr>cr_exit := Inl (NotProvisioned stopped), cr_lines := [ExecutableLine exe], cr_fs := fs1\<rparr>
                      | (Inr d, fs1) \<Rightarrow>
                          (let ls = [ExecutableLine exe, UserDataDir (sd_user_data_dir d)]
                           in case check_launch h c exe d fs1 of
                                (Inl e, tried, ls2, sigs, fs2) \<Rightarrow> check_failed h d e tried (ls @ ls2) sigs fs2
                              | (Inr (b, sandbox), tried, ls2, sigs, fs2) \<Rightarrow>
                                  check_finish h d b sandbox tried (ls @ ls2) sigs fs2))))"

section \<open>Doctor\<close>

text \<open>
  What the diagnosis meets: the output of the version command when it succeeded, the soft limit on open
  files, the free space of \<^verbatim>\<open>/dev/shm\<close>, and for the data directory the creation, the probe file's
  contents and its removal.
\<close>

datatype doctor_line =
    BrowserFound string
  | VersionOut string
  | VersionFailed
  | BrowserMissing find_error
  | FdLimit "nat option" bool
  | DataDirWritable
  | DataDirNotWritable outcome
  | ShmLine "u64 option" bool
  | Isolation string "string list"
  | DoctorPass
  | DoctorFail

record doctor_host =
  dh_metadata :: metadata
  dh_version :: "string \<Rightarrow> string option"
  dh_nofile :: "nat option"
  dh_shm :: "(u64 \<times> u64) option"
  dh_disk :: disk
  dh_data_dir :: path
  dh_remove_refused :: "fs_error option"
  dh_tiers :: tiers

text \<open>\<^verbatim>\<open>probe_writable\<close>: the probe file is written and removed again.\<close>

definition probe_writable :: "disk \<Rightarrow> fs_error option \<Rightarrow> path \<Rightarrow> fs \<Rightarrow> outcome \<times> fs" where
  "probe_writable dk refused dir fs =
     (case create_dir_all dk dir fs of
        (Ok, fs1) \<Rightarrow>
          (let probe = dir @ [''.doctor-write-probe'']
           in case copy_over dk probe (as_bytes ''probe'') fs1 of
                (Ok, fs2) \<Rightarrow> remove_file refused probe fs2
              | (stopped, fs2) \<Rightarrow> (stopped, fs2))
      | (stopped, fs1) \<Rightarrow> (stopped, fs1))"

fun kill_name :: "kill_tier \<Rightarrow> string" where
  "kill_name CgroupKill = ''CgroupKill''"
| "kill_name Killpg = ''Killpg''"

fun memcap_name :: "memcap_tier \<Rightarrow> string" where
  "memcap_name MemCgroup = ''Cgroup''"
| "memcap_name RssPoll = ''RssPoll''"
| "memcap_name MemNone = ''None''"

fun profile_name :: "profile_tier \<Rightarrow> string" where
  "profile_name Overlay = ''Overlay''"
| "profile_name Reflink = ''Reflink''"
| "profile_name TmpfsCopy = ''TmpfsCopy''"
| "profile_name PlainCopy = ''PlainCopy''"

definition summary :: "tiers \<Rightarrow> string" where
  "summary t = ''kill='' @ kill_name (kill t) @ '' memcap='' @ memcap_name (memcap t) @ '' profile='' @ profile_name (profile t)"

definition browser_lines :: "doctor_host \<Rightarrow> string option \<Rightarrow> bool \<times> doctor_line list" where
  "browser_lines h wanted =
     (case find_chrome (dh_metadata h) wanted of
        Inr exe \<Rightarrow>
          (True, [BrowserFound exe, case dh_version h exe of Some out \<Rightarrow> VersionOut (trim out) | None \<Rightarrow> VersionFailed])
      | Inl e \<Rightarrow> (False, [BrowserMissing e]))"

definition shm_line :: "(u64 \<times> u64) option \<Rightarrow> doctor_line" where
  "shm_line stat =
     (case stat of
        None \<Rightarrow> ShmLine None False
      | Some (blocks, size0) \<Rightarrow>
          (let available_mb = blocks * size0 div (1024 * 1024) in ShmLine (Some available_mb) (available_mb < 512)))"

definition run_doctor ::
    "'n::linordered_semidom config_source \<Rightarrow> doctor_host \<Rightarrow> string option \<Rightarrow> fs
     \<Rightarrow> (cli_error + bool) \<times> doctor_line list \<times> fs" where
  "run_doctor src h config_path fs =
     (case read_config src config_path of
        Inl e \<Rightarrow> (Inl (BadConfig e), [], fs)
      | Inr loaded0 \<Rightarrow>
          (let (found, ls1) = browser_lines h (bc_executable_path (rc_chrome (ld_config loaded0)));
               fd = FdLimit (dh_nofile h) (case dh_nofile h of None \<Rightarrow> False | Some soft \<Rightarrow> soft < 4096);
               (writable, fs1) = probe_writable (dh_disk h) (dh_remove_refused h) (dh_data_dir h) fs;
               ok = (found \<and> writable = Ok)
           in (Inr ok,
               ls1 @ [fd, if writable = Ok then DataDirWritable else DataDirNotWritable writable, shm_line (dh_shm h),
                      Isolation (summary (dh_tiers h)) (tier_notes (dh_tiers h)), if ok then DoctorPass else DoctorFail],
               fs1)))"

section \<open>A check tells the truth\<close>

lemma check_launch_tried:
  assumes "check_launch h c exe d fs = (r, tried, ls, sigs, fs')"
  shows "(\<exists>s1. tried = [s1] \<or> (\<exists>s2 e. tried = [s1, s2] \<and> \<not> ls_no_sandbox s1 \<and> ls_no_sandbox s2 \<and>
            fst (launch (ch_json h) (ch_launch h False) s1) = Inl e \<and> is_sandbox_failure e)) \<and>
     (bc_require_sandbox c \<and> \<not> bc_no_sandbox c \<longrightarrow> list_all (\<lambda>s. \<not> ls_no_sandbox s) tried) \<and>
     (\<forall>b sandbox. r = Inr (b, sandbox) \<longrightarrow>
        fst (launch (ch_json h) (ch_launch h (ls_no_sandbox (last tried))) (last tried)) = Inr b) \<and>
     CheckPass \<notin> set ls"
proof -
  let ?s1 = "mk_spec h c exe d (bc_no_sandbox c)" and ?s2 = "mk_spec h c exe d True"
  have mode: "ls_no_sandbox (mk_spec h c exe d m) = m" for m by (simp add: mk_spec_def)
  obtain r1 sig1 where l1: "launch (ch_json h) (ch_launch h (bc_no_sandbox c)) ?s1 = (r1, sig1)" by (meson surj_pair)
  show ?thesis
  proof (cases "\<exists>e. r1 = Inl e \<and> is_sandbox_failure e \<and> \<not> bc_require_sandbox c \<and> \<not> bc_no_sandbox c")
    case True
    then obtain e where e: "r1 = Inl e" "is_sandbox_failure e" "\<not> bc_require_sandbox c" "\<not> bc_no_sandbox c" by blast
    obtain r2 sig2 where l2: "launch (ch_json h) (ch_launch h True) ?s2 = (r2, sig2)" by (meson surj_pair)
    have tried: "tried = [?s1, ?s2]" and ls: "ls = [SandboxBlockedRetrying]"
      and r: "\<And>b sb. r = Inr (b, sb) \<Longrightarrow> r2 = Inr b"
      using assms l1 l2 e by (auto simp: check_launch_def check_launch_once_def Let_def mode split: sum.splits)
    then show ?thesis using e l1 l2 by (simp add: mode)
  next
    case False
    then have tried: "tried = [?s1]" and ls: "ls = []" and r: "\<And>b sb. r = Inr (b, sb) \<Longrightarrow> r1 = Inr b"
      using assms l1 by (auto simp: check_launch_def check_launch_once_def Let_def mode split: sum.splits if_splits)
    then show ?thesis using l1 by (simp add: mode)
  qed
qed

lemma load_from_env_safe:
  "load_from_env from_yaml read_to_string exists env explicit = Inr ld \<Longrightarrow> safe_config (ld_config ld)"
  by (auto simp: load_from_env_def Let_def load_safe split: option.splits sum.splits if_splits)

lemma load_config_safe: "load_config src p = Inr ld \<Longrightarrow> safe_config (ld_config ld)"
  by (auto simp: load_config_def read_config_def load_from_env_safe split: sum.splits if_splits)

lemma check_failed_tried: "cr_tried (check_failed h d e tried ls sigs fs) = tried"
  by (simp add: check_failed_def split: prod.splits)

lemma check_finish_tried: "cr_tried (check_finish h d b sb tried ls sigs fs) = tried"
  by (simp add: check_finish_def Let_def split: prod.splits outcome.splits)

text \<open>The ways a check can go, once a browser and a directory are there.\<close>

lemma run_check_cases:
  assumes "run_check src h config_path over fs = r"
  obtains (early) "cr_tried r = []" "\<exists>e. cr_exit r = Inl e" "CheckPass \<notin> set (cr_lines r)"
    "cr_fs r = fs \<or> (\<exists>stopped. cr_exit r = Inl (NotProvisioned stopped))"
  | (failed) ld exe d fs1 e ls sigs fs2 where "load_config src config_path = Inr ld"
      "provision_plain (ch_disk h) (ch_data_dir h) (ch_session_id h) fs = (Inr d, fs1)"
      "check_launch h (rc_chrome (ld_config ld)) exe d fs1 = (Inl e, cr_tried r, ls, sigs, fs2)"
      "r = check_failed h d e (cr_tried r) ([ExecutableLine exe, UserDataDir (sd_user_data_dir d)] @ ls) sigs fs2"
  | (up) ld exe d fs1 b sandbox ls sigs fs2 where "load_config src config_path = Inr ld"
      "provision_plain (ch_disk h) (ch_data_dir h) (ch_session_id h) fs = (Inr d, fs1)"
      "check_launch h (rc_chrome (ld_config ld)) exe d fs1 = (Inr (b, sandbox), cr_tried r, ls, sigs, fs2)"
      "r = check_finish h d b sandbox (cr_tried r) ([ExecutableLine exe, UserDataDir (sd_user_data_dir d)] @ ls) sigs fs2"
proof -
  show thesis
  proof (cases "load_config src config_path")
    case (Inl e)
    then show thesis using assms by (intro early) (auto simp: run_check_def)
  next
    case ld: (Inr ld)
    let ?wanted = "case over of Some p \<Rightarrow> Some p | None \<Rightarrow> bc_executable_path (rc_chrome (ld_config ld))"
    show thesis
    proof (cases "find_chrome (ch_metadata h) ?wanted")
      case (Inl e)
      then show thesis using assms ld by (intro early) (auto simp: run_check_def Let_def)
    next
      case exe: (Inr exe)
      obtain pr fs1 where pr: "provision_plain (ch_disk h) (ch_data_dir h) (ch_session_id h) fs = (pr, fs1)"
        by (meson surj_pair)
      show thesis
      proof (cases pr)
        case (Inl stopped)
        then show thesis using assms ld exe pr by (intro early) (auto simp: run_check_def Let_def)
      next
        case d: (Inr d)
        obtain res tried ls sigs fs2 where
          l: "check_launch h (rc_chrome (ld_config ld)) exe d fs1 = (res, tried, ls, sigs, fs2)" by (meson prod_cases5)
        show thesis
        proof (cases res)
          case (Inl e)
          then have r: "r = check_failed h d e tried ([ExecutableLine exe, UserDataDir (sd_user_data_dir d)] @ ls) sigs fs2"
            using assms ld exe pr d l by (simp add: run_check_def Let_def)
          show thesis by (rule failed [OF ld pr [unfolded d]]) (use l Inl r in \<open>simp_all add: check_failed_tried\<close>)
        next
          case (Inr bs)
          then obtain b sb where bs: "res = Inr (b, sb)" by (cases bs) auto
          then have r: "r = check_finish h d b sb tried ([ExecutableLine exe, UserDataDir (sd_user_data_dir d)] @ ls) sigs fs2"
            using assms ld exe pr d l by (simp add: run_check_def Let_def)
          show thesis by (rule up [OF ld pr [unfolded d]]) (use l bs r in \<open>simp_all add: check_finish_tried\<close>)
        qed
      qed
    qed
  qed
qed


lemma unhindered_removal:
  assumes "real_dir fs (sd_root d)" "sd_root d \<noteq> []" "\<And>k. rms k = None"
  shows "dirs_teardown rms d fs = (Ok, [], \<lambda>q. if prefix (sd_root d) q then None else fs q)"
proof -
  have "reach fs [] (butlast (sd_root d)) = Ok"
    using assms(1) reach_ok [of "butlast (sd_root d)" fs "[]"]
    by (metis append_Nil prefix_order.trans prefixeq_butlast real_dir_def)
  moreover have "fs (sd_root d) = Some DirE" using assms(1) by (simp add: real_dir_def)
  ultimately show ?thesis
    by (simp add: dirs_teardown_def teardown_from.simps [of 1] remove_dir_all_def remove_below_def assms(3) del: One_nat_def)
qed

definition demo_source :: "nat config_source" where
  "demo_source =
     \<lparr>cs_yaml = (\<lambda>_. Inl ''no yaml''), cs_read = (\<lambda>_. Inl ''no file''), cs_exists = (\<lambda>_. False), cs_env = (\<lambda>_. None)\<rparr>"

definition demo_check :: "json check_host" where
  "demo_check =
     \<lparr>ch_metadata = (\<lambda>_. Some (True, 0x1ED)),
      ch_disk = \<lparr>refuses_create = (\<lambda>_. None), refuses_write = (\<lambda>_. None)\<rparr>,
      ch_data_dir = [''d''], ch_session_id = ''s'', ch_path_text = (\<lambda>_. ''p''), ch_major = (\<lambda>_. None), ch_shm = None,
      ch_json = json_values,
      ch_launch = (\<lambda>no_sandbox0.
        \<lparr>pipe_results = (None, None), fds_mapped = True, spawn_result = Inr (Some 7),
         stderr_items = (if no_sandbox0 then [] else [Some ''No usable sandbox!'']), wire_results = (None, None), probe_sent = None,
         probe_events = (if no_sandbox0 then [Received (Inr (JObject [(''id'', JNum 1)]))]
                         else [ChildExited ''exit status: 1''])\<rparr>),
      ch_browser_writes = (\<lambda>s f. f([''d'', ''sessions'', ''s'', ''user-data-dir'', ''x''] \<mapsto> FileE [])),
      ch_close = Some None, ch_term = None, ch_kill = None, ch_removal = (\<lambda>_. None)\<rparr>"

lemma demo_loads:
  obtains ld where "load_config demo_source None = Inr ld" "rc_chrome (ld_config ld) = default_browser_config"
proof -
  let ?c = "default_runtime_config :: nat runtime_config"
  have none: "cs_env demo_source = (\<lambda>_. None)" by (simp add: demo_source_def)
  have "override_all (\<lambda>_. None) int_keys (override_paths (\<lambda>_. None) ?c) = Inr ?c"
    by (simp add: int_keys_def override_def override_paths_def default_runtime_config_def)
  moreover have s: "apply_switches (\<lambda>_. None) ?c = ?c"
    by (simp add: apply_switches_def switch_def default_runtime_config_def default_session_config_def
        default_pool_config_def default_browser_config_def default_proxy_config_def)
  moreover have "validate ?c = Inr ()"
    by (simp add: validate_def default_runtime_config_def default_pool_config_def default_session_config_def
        default_pressure_config_def default_browser_config_def)
  ultimately have "load (cs_yaml demo_source) None (\<lambda>_. None) = Inr \<lparr>ld_config = ?c,
      ld_serve = \<lparr>sv_port = 9222, sv_host = ''0.0.0.0'', sv_token = None\<rparr>\<rparr>"
    by (simp add: load_def parse_file_def read_port_def read_token_def Let_def)
  then have "load_config demo_source None = Inr \<lparr>ld_config = ?c,
      ld_serve = \<lparr>sv_port = 9222, sv_host = ''0.0.0.0'', sv_token = None\<rparr>\<rparr>"
    by (simp add: load_config_def read_config_def load_from_env_def none Let_def)
       (simp add: demo_source_def default_runtime_config_def default_browser_config_def)
  then show thesis by (rule that) (simp add: default_runtime_config_def)
qed

definition demo_dirs :: session_dirs where
  "demo_dirs = \<lparr>sd_root = [''d'', ''sessions'', ''s''], sd_user_data_dir = [''d'', ''sessions'', ''s'', ''user-data-dir'']\<rparr>"

lemma demo_check_launch:
  "\<exists>b sb sigs fs2 tried ls. check_launch demo_check default_browser_config ''/b'' demo_dirs fs1 = (Inr (b, sb), tried, ls, sigs, fs2) \<and>
     length tried = 2 \<and> fs2 = fs1([''d'', ''sessions'', ''s'', ''user-data-dir'', ''x''] \<mapsto> FileE []) \<and> has_pipe b"
proof -
  let ?blocked = "\<lparr>pipe_results = (None, None), fds_mapped = True, spawn_result = Inr (Some 7),
      stderr_items = [Some ''No usable sandbox!''], wire_results = (None, None), probe_sent = None,
      probe_events = [ChildExited ''exit status: 1'']\<rparr> :: json launch_env"
  let ?fine = "\<lparr>pipe_results = (None, None), fds_mapped = True, spawn_result = Inr (Some 7),
      stderr_items = [], wire_results = (None, None), probe_sent = None,
      probe_events = [Received (Inr (JObject [(''id'', JNum 1)]))]\<rparr> :: json launch_env"
  have bad: "launch json_values ?blocked spec =
      (Inl (ChromeExited ''exit status: 1'' ''No usable sandbox!''), force_kill_group 7)" for spec
    by (simp add: launch_def probe_ready_def wire_pipe_def abort_child_def Let_def joined_def tail_push_def trim_front.simps
        stderr_max_lines_def)
  have sb: "is_sandbox_failure (ChromeExited ''exit status: 1'' ''No usable sandbox!'')" by code_simp
  have "Option.bind (jget json_values ''id'' (JObject [(''id'', JNum 1)])) (as_u64 json_values) = Some ready_probe_id"
    by code_simp
  then have good: "launch json_values ?fine spec =
      (Inr \<lparr>pid = 7, version = parse_version json_values (JObject [(''id'', JNum 1)]), has_pipe = True\<rparr>, [])" for spec
    by (simp add: launch_def probe_ready_def wire_pipe_def Let_def)
  show ?thesis
    by (simp add: check_launch_def check_launch_once_def demo_check_def mk_spec_def default_browser_config_def
        bad sb good Let_def)
qed

lemma demo_check_run:
  fixes fs :: fs
  assumes "fs = [[] \<mapsto> DirE]"
  shows "cr_exit (run_check demo_source demo_check None (Some ''/b'') fs) = Inr True"
    and "length (cr_tried (run_check demo_source demo_check None (Some ''/b'') fs)) = 2"
proof -
  obtain ld where ld: "load_config demo_source None = Inr ld" "rc_chrome (ld_config ld) = default_browser_config"
    by (rule demo_loads)
  have exe: "find_chrome (ch_metadata demo_check) (Some ''/b'') = Inr ''/b''"
    by (simp add: find_chrome_def is_executable_def demo_check_def)
  let ?fs1 = "fs([''d''] \<mapsto> DirE, [''d'', ''sessions''] \<mapsto> DirE, [''d'', ''sessions'', ''s''] \<mapsto> DirE,
      [''d'', ''sessions'', ''s'', ''user-data-dir''] \<mapsto> DirE)"
  have pr: "provision_plain (ch_disk demo_check) (ch_data_dir demo_check) (ch_session_id demo_check) fs = (Inr demo_dirs, ?fs1)"
    by (simp add: assms provision_plain_def session_root_def create_dir_all_def demo_check_def demo_dirs_def Let_def)
  obtain b sb sigs fs2 tried ls where
    l: "check_launch demo_check default_browser_config ''/b'' demo_dirs ?fs1 = (Inr (b, sb), tried, ls, sigs, fs2)"
      "length tried = 2" "fs2 = ?fs1([''d'', ''sessions'', ''s'', ''user-data-dir'', ''x''] \<mapsto> FileE [])" "has_pipe b"
    using demo_check_launch by blast
  have "real_dir fs2 [''d'', ''sessions'', ''s'']"
    unfolding real_dir_def l(3) assms by (auto simp: prefix_Cons)
  then have "dirs_teardown (ch_removal demo_check) demo_dirs fs2 = (Ok, [], \<lambda>q. if prefix (sd_root demo_dirs) q then None else fs2 q)"
    by (intro unhindered_removal) (simp_all add: demo_dirs_def demo_check_def)
  moreover have "reaped (fst (teardown (ch_close demo_check) (ch_term demo_check) (ch_kill demo_check) b))"
    using l(4) by (simp add: teardown_def demo_check_def Let_def)
  ultimately show "cr_exit (run_check demo_source demo_check None (Some ''/b'') fs) = Inr True"
    and "length (cr_tried (run_check demo_source demo_check None (Some ''/b'') fs)) = 2"
    using ld exe pr l(1,2) by (auto simp: run_check_def check_finish_def Let_def split: prod.splits)
qed


section \<open>A check leaves nothing behind\<close>

lemma check_launch_writes:
  assumes "\<And>s f p. \<not> prefix udd p \<Longrightarrow> ch_browser_writes h s f p = f p"
    and "check_launch h c exe d fs = (r, tried, ls, sigs, fs')" "\<not> prefix udd p"
  shows "fs' p = fs p"
proof -
  have once: "g' p = g p" if "check_launch_once h s g = (x, sg, g')" for s g x sg g'
    using that assms(1,3) by (auto simp: check_launch_once_def split: prod.splits)
  obtain r1 sig1 fs1 where l1: "check_launch_once h (mk_spec h c exe d (bc_no_sandbox c)) fs = (r1, sig1, fs1)"
    by (meson prod_cases3)
  obtain r2 sig2 fs2 where l2: "check_launch_once h (mk_spec h c exe d True) fs1 = (r2, sig2, fs2)"
    by (meson prod_cases3)
  have "fs' = fs1 \<or> fs' = fs2"
    using assms(2) l1 l2 by (auto simp: check_launch_def Let_def split: sum.splits if_splits)
  then show ?thesis using once [OF l1] once [OF l2] by auto
qed

lemma check_removed:
  assumes "root = session_root (ch_data_dir h) (ch_session_id h)" "clear_way fs root" "no_links fs root"
    and "\<And>s f p. \<not> prefix (root @ [''user-data-dir'']) p \<Longrightarrow> ch_browser_writes h s f p = f p"
    and "\<And>k. ch_removal h k = None"
    and p: "provision_plain (ch_disk h) (ch_data_dir h) (ch_session_id h) fs = (Inr d, fs1)"
    and l: "check_launch h c exe d fs1 = (x, tried, ls, sigs, fs2)"
    and f: "g = snd (snd (dirs_teardown (ch_removal h) d fs2))"
  shows "(\<forall>q. g (root @ q) = None) \<and>
     (\<forall>p. \<not> prefix root p \<longrightarrow> g p = fs p \<or> strict_prefix p root \<and> fs p = None \<and> g p = Some DirE)"
proof -
  note P = provision_plain_result [OF assms(2,3,1) p]
  then have d: "sd_root d = root" "real_dir fs1 (root @ [''user-data-dir''])" by auto
  have same: "fs2 q = fs1 q" if "\<not> prefix (root @ [''user-data-dir'']) q" for q
    by (rule check_launch_writes [OF assms(4) l that])
  have "real_dir fs2 root"
    unfolding real_dir_def
  proof (intro allI impI)
    fix q assume q: "prefix q root"
    then have "\<not> prefix (root @ [''user-data-dir'']) q"
      using prefix_length_le [of "root @ [''user-data-dir'']" q] prefix_length_le [of q root] by auto
    then show "fs2 q = Some DirE" using q d(2) same by (simp add: real_dir_def)
  qed
  moreover have "root \<noteq> []" using assms(1) by (simp add: session_root_def)
  ultimately have "dirs_teardown (ch_removal h) d fs2 = (Ok, [], \<lambda>q. if prefix root q then None else fs2 q)"
    using unhindered_removal [of fs2 d "ch_removal h"] assms(5) d(1) by simp
  then have cf: "g = (\<lambda>q. if prefix root q then None else fs2 q)" using f by simp
  have "fs2 p = fs1 p" if "\<not> prefix root p" for p
    using same that by (metis append_prefixD)
  then show ?thesis using P cf unfolding opens_def by auto
qed



section \<open>Doctor\<close>

text \<open>
  The diagnosis fails exactly when no browser is found or the data directory cannot be written; the
  warnings do not fail it. A passing probe leaves no file.
\<close>

lemma doctor_verdict:
  assumes "run_doctor src h config_path fs = (Inr ok, ls, fs')"
  shows "(ok \<longleftrightarrow> (\<exists>exe. BrowserFound exe \<in> set ls) \<and> DataDirWritable \<in> set ls) \<and>
     (ok \<longleftrightarrow> last ls = DoctorPass) \<and> (\<not> ok \<longleftrightarrow> last ls = DoctorFail) \<and>
     (ok \<longrightarrow> fs' (dh_data_dir h @ [''.doctor-write-probe'']) = None)"
proof -
  obtain ld where ld: "read_config src config_path = Inr ld"
    using assms by (auto simp: run_doctor_def split: sum.splits)
  obtain found ls1 where b: "browser_lines h (bc_executable_path (rc_chrome (ld_config ld))) = (found, ls1)" by (meson surj_pair)
  obtain writable fs1 where w: "probe_writable (dh_disk h) (dh_remove_refused h) (dh_data_dir h) fs = (writable, fs1)"
    by (meson surj_pair)
  have found: "(found \<longleftrightarrow> (\<exists>exe. BrowserFound exe \<in> set ls1)) \<and> DataDirWritable \<notin> set ls1"
    using b by (auto simp: browser_lines_def split: sum.splits option.splits)
  have gone: "writable = Ok \<Longrightarrow> fs1 (dh_data_dir h @ [''.doctor-write-probe'']) = None"
    using w by (auto simp: probe_writable_def Let_def remove_file_def split: prod.splits outcome.splits option.splits)
  have shm: "shm_line x \<noteq> DataDirWritable \<and> BrowserFound e \<noteq> shm_line x" for x e
    by (simp add: shm_line_def Let_def split: option.splits prod.splits)
  have "ok = (found \<and> writable = Ok)" "fs' = fs1"
    "ls = ls1 @ [FdLimit (dh_nofile h) (case dh_nofile h of None \<Rightarrow> False | Some soft \<Rightarrow> soft < 4096),
       if writable = Ok then DataDirWritable else DataDirNotWritable writable, shm_line (dh_shm h),
       Isolation (summary (dh_tiers h)) (tier_notes (dh_tiers h)), if ok then DoctorPass else DoctorFail]"
    using assms by (auto simp: run_doctor_def ld b w Let_def)
  then show ?thesis using found gone shm [of "dh_shm h"] by auto
qed

end
