(* ===== verification/Server.thy ===== *)
theory Server
  imports Profile_Session Config Calibrate
begin

text \<open>
  \<^verbatim>\<open>src/server.rs\<close>: how an instance starts, calibrates and shuts down. The state the handlers work on
  is built from the loaded configuration and from what the host reports (its limits, isolation tiers,
  the size of its shared memory).
\<close>

section \<open>Starting\<close>

text \<open>What the host answers at start-up.\<close>

record host =
  h_executable :: string
  h_tiers :: tiers
  h_shm :: "(u64 \<times> u64) option"
  h_browser_major :: "nat option"
  h_cgroup_base :: "string option"
  h_limits :: host_limits

definition factory_config :: "'n runtime_config \<Rightarrow> chrome_config" where
  "factory_config c =
     \<lparr>cc_no_sandbox = bc_no_sandbox (rc_chrome c), cc_require_sandbox = bc_require_sandbox (rc_chrome c),
      cc_stealth = bc_stealth (rc_chrome c), cc_extra_flags = bc_extra_flags (rc_chrome c),
      cc_launch_timeout_ms = bc_launch_timeout_ms (rc_chrome c),
      cc_max_frame_bytes = bc_max_frame_bytes (rc_chrome c),
      cc_memory_max_mb = sc_memory_max_mb (rc_session c), cc_cpu_percent = sc_cpu_percent (rc_session c),
      cc_pids_max = sc_pids_max (rc_session c)\<rparr>"

definition resolve_capacity :: "'n runtime_config \<Rightarrow> host_limits \<Rightarrow> session_footprint option \<Rightarrow> nat \<times> string" where
  "resolve_capacity c limits template_footprint =
     (case pc_max_sessions (rc_pool c) of
        Some explicit \<Rightarrow> (explicit, ''config'')
      | None \<Rightarrow>
          (let cap = compute limits template_footprint
           in (unat (cap_max_sessions cap), bound_by cap)))"

definition session_proxy_policy :: "'n runtime_config \<Rightarrow> string + relay_options" where
  "session_proxy_policy c =
     (if \<not> px_enabled (rc_proxy c) then Inl ''session proxies are disabled on this server''
      else if sets_proxy (bc_extra_flags (rc_chrome c))
      then Inl ''this server's own --proxy-server flag applies to every session''
      else Inr (default_relay_options\<lparr>allow_private := px_allow_private_upstream (rc_proxy c)\<rparr>))"

definition will_calibrate :: "'n runtime_config \<Rightarrow> bool" where
  "will_calibrate c \<longleftrightarrow> pc_max_sessions (rc_pool c) = None \<and> pc_calibrate (rc_pool c)"

definition start_options :: "'n runtime_config \<Rightarrow> nat \<Rightarrow> pool_options" where
  "start_options c n =
     \<lparr>min_ready = pc_min_ready (rc_pool c), opt_max_sessions = n, max_queue = pc_max_queue (rc_pool c),
      queue_timeout = pc_queue_timeout_ms (rc_pool c), warm_idle = pc_warm_idle_ms (rc_pool c),
      warm_max_age = pc_warm_max_age_ms (rc_pool c)\<rparr>"

text \<open>The thresholds of a validated configuration are numbers.\<close>

fun the_number :: "'n f64 \<Rightarrow> 'n" where
  "the_number (Number x) = x"

definition start_state ::
    "'q semaphore_api \<Rightarrow> host \<Rightarrow> 'n::linordered_semidom loaded
     \<Rightarrow> pool_options \<times> ('s, 'q, 'p, 'n, 'h) app_state" where
  "start_state api h l =
     (let c = ld_config l;
          f = factory_new (factory_config c) (h_executable h) (h_tiers h) (h_shm h) (h_browser_major h)
                (h_cgroup_base h);
          (n, source) = resolve_capacity c (h_limits h) (footprint f);
          opts = start_options c n
      in (opts,
          \<lparr>app_pool = pool_new api opts, app_factory = f, app_token = sv_token (ld_serve l),
           cpu_load = 0, memory_load = 0,
           max_cpu_percent = the_number (pr_max_cpu_percent (rc_pressure c)),
           max_memory_percent = the_number (pr_max_memory_percent (rc_pressure c)),
           external_address = rc_external_address c, max_message_bytes = bc_max_frame_bytes (rc_chrome c),
           app_tiers = h_tiers h, capacity_source = source,
           profiles = store_new profile_ttl max_pending_entries,
           idle_timeout = (if 0 < sc_idle_timeout_ms (rc_session c) then Some (sc_idle_timeout_ms (rc_session c))
                           else None),
           calibrating = will_calibrate c,
           app_single_use = (if sc_single_use (rc_session c) then Some single_use_new else None),
           app_resume = (if 0 < sc_resume_window_ms (rc_session c) \<and> \<not> sc_single_use (rc_session c)
                         then Some (registry_new (sc_resume_window_ms (rc_session c))) else None),
           session_proxy = session_proxy_policy c\<rparr>))"

text \<open>Whether the template is prepared in the background.\<close>

definition prepares_template :: "'n runtime_config \<Rightarrow> bool" where
  "prepares_template c \<longleftrightarrow> 0 < pc_min_ready (rc_pool c)"

text \<open>The end of the calibration task.\<close>

definition calibration_done ::
    "'q semaphore_api \<Rightarrow> capacity \<Rightarrow> ('s, 'q, 'p, 'n, 'h) app_state \<Rightarrow> ('s, 'q, 'p, 'n, 'h) app_state" where
  "calibration_done api cap st =
     st\<lparr>app_pool := set_max_sessions api (unat (cap_max_sessions cap)) (app_pool st), calibrating := False\<rparr>"

section \<open>Shutting down\<close>

text \<open>
  The signals that arrived, and whether their handlers could be installed. A handler for ctrl-c that cannot be
  installed resolves at once, with an error that is not looked at.
\<close>

datatype os_signal = CtrlC | Terminate

definition shutdown_signal :: "bool \<Rightarrow> bool \<Rightarrow> os_signal set \<Rightarrow> bool" where
  "shutdown_signal ctrl_c_installed term_installed came \<longleftrightarrow>
     (if \<not> term_installed then \<not> ctrl_c_installed \<or> CtrlC \<in> came
      else \<not> ctrl_c_installed \<or> CtrlC \<in> came \<or> Terminate \<in> came)"

text \<open>A signal, or the end of the one session of a single-use instance.\<close>

definition shutdown_due :: "bool \<Rightarrow> ('s, 'q, 'p, 'n, 'h) app_state \<Rightarrow> bool" where
  "shutdown_due signalled st \<longleftrightarrow>
     (case app_single_use st of None \<Rightarrow> signalled | Some su \<Rightarrow> signalled \<or> finished su)"

text \<open>Without a signal, an instance stops only when it is single-use and its one session is over.\<close>

lemma no_signal_no_shutdown:
  "shutdown_due (shutdown_signal True term_installed {}) st \<longleftrightarrow> (\<exists>su. app_single_use st = Some su \<and> finished su)"
  by (auto simp: shutdown_due_def shutdown_signal_def split: option.splits)

definition begin_shutdown ::
    "'q semaphore_api \<Rightarrow> ('s, 'q, 'p, 'n, 'h) app_state \<Rightarrow> 's list \<times> ('s, 'q, 'p, 'n, 'h) app_state" where
  "begin_shutdown api st = (let (drained, p) = pool_close api (app_pool st) in (drained, st\<lparr>app_pool := p\<rparr>))"

text \<open>\<open>done_at\<close> is when the last tracked task ends by itself.\<close>

datatype drain_result = DrainedCleanly | CancelledRemaining

definition drain :: "nat \<Rightarrow> nat option \<Rightarrow> drain_result" where
  "drain drain_timeout done_at =
     (case done_at of
        Some t \<Rightarrow> if t \<le> drain_timeout then DrainedCleanly else CancelledRemaining
      | None \<Rightarrow> CancelledRemaining)"

section \<open>A started instance\<close>

lemma resolve_capacity_pos:
  assumes "pc_max_sessions (rc_pool c) \<noteq> Some 0"
  shows "1 \<le> fst (resolve_capacity c limits fp)"
  using assms by (auto simp: resolve_capacity_def Let_def unat_compute split: option.split)


definition demo_host :: host where
  "demo_host =
     \<lparr>h_executable = ''chrome'', h_tiers = demo_tiers, h_shm = None, h_browser_major = None,
      h_cgroup_base = None, h_limits = \<lparr>mem_ceiling_bytes = None, pids_max = None, cpus = 2\<rparr>\<rparr>"

type_synonym demo_app = "(nat, nat \<times> bool, (int, unit, unit) profile_payload, nat, unit) app_state"


section \<open>Calibration\<close>

text \<open>While calibration runs and no session is parked, a request changes nothing that matters.\<close>

definition measuring :: "('s, 'q, 'p, 'n, 'h) app_state \<Rightarrow> bool" where
  "measuring st \<longleftrightarrow> calibrating st \<and> (\<forall>reg. app_resume st = Some reg \<longrightarrow> parked reg = [])"

lemma measuring_refuses:
  assumes "measuring st" "session_event ct_eq api opts req st = (r, st')"
  shows "r = None \<and> measuring st' \<and> app_pool st' = app_pool st \<and> capacity_source st' = capacity_source st"
proof -
  obtain env query hs where req: "req = (env, query, hs)" by (cases req)
  obtain resp tasks st1 where h: "ws_handler ct_eq api opts env query hs st = (resp, tasks, st1)"
    by (cases "ws_handler ct_eq api opts env query hs st")
  have "tasks = [] \<and> measuring st1 \<and> app_pool st1 = app_pool st \<and> capacity_source st1 = capacity_source st"
    using h assms(1)
    by (auto simp: ws_handler_def measuring_def resume_session_def registry_claim_def
        split: if_splits option.splits sum.splits prod.splits)
  then show ?thesis using assms(2) req h by (simp add: session_event_def)
qed

lemma measuring_run:
  assumes "measuring st" "trace (session_event ct_eq api opts) reqs st = (rs, st')"
  shows "rs = [] \<and> measuring st' \<and> app_pool st' = app_pool st \<and> capacity_source st' = capacity_source st"
  using assms
proof (induction reqs arbitrary: st rs)
  case (Cons req reqs)
  obtain r st1 where e: "session_event ct_eq api opts req st = (r, st1)"
    by (cases "session_event ct_eq api opts req st")
  obtain rs1 where t: "trace (session_event ct_eq api opts) reqs st1 = (rs1, st')" "rs = (case r of None \<Rightarrow> rs1 | Some x \<Rightarrow> x # rs1)"
    using Cons.prems(2) e by (cases "trace (session_event ct_eq api opts) reqs st1") auto
  note m = measuring_refuses [OF Cons.prems(1) e]
  show ?case using Cons.IH [of st1 rs1] m t by simp
qed simp

lemma set_max_sessions_idle:
  assumes "semaphore_ok api" "available_permits api (semaphore p) = max_sessions p" "1 \<le> n"
  shows "max_sessions (set_max_sessions api n p) = n \<and>
         available_permits api (semaphore (set_max_sessions api n p)) = n"
  using assms(2,3) by (auto simp: set_max_sessions_def Let_def semaphore_okD [OF assms(1)])

text \<open>
  Calibration has the host to itself and ends with an open instance. From a start that
  calibrates, whatever requests arrive until calibration is done, none starts a session and the pool
  is untouched; when the task ends, the instance accepts sessions, its ceiling is the calibrated one,
  between 1 and 256, and the semaphore has exactly that many permits.
\<close>

theorem calibration_has_the_host:
  assumes "semaphore_ok api" "load from_yaml yaml env = Inr l" "start_state api h l = (opts, st)" "calibrating st"
    and "trace (session_event ct_eq api opts) reqs st = (rs, st1)"
  shows "rs = [] \<and> app_pool st1 = app_pool st \<and>
     (let cap = calibrate steps before after (h_limits h); st2 = calibration_done api cap st1
      in \<not> calibrating st2 \<and> max_sessions (app_pool st2) = unat (cap_max_sessions cap) \<and>
         available_permits api (semaphore (app_pool st2)) = max_sessions (app_pool st2) \<and>
         1 \<le> max_sessions (app_pool st2) \<and> max_sessions (app_pool st2) \<le> 256)"
proof -
  let ?cap = "calibrate steps before after (h_limits h)"
  have start: "parked reg = []" if "app_resume st = Some reg" for reg
    using assms(3) that by (auto simp: start_state_def Let_def registry_new_def split: prod.splits if_splits)
  then have "measuring st" using assms(4) by (simp add: measuring_def)
  note run = measuring_run [OF this assms(5)]
  have "available_permits api (semaphore (app_pool st)) = max_sessions (app_pool st)"
    using assms(3)
    by (auto simp: start_state_def Let_def pool_new_def start_options_def semaphore_okD [OF assms(1)]
        split: prod.splits)
  then have "max_sessions (set_max_sessions api (unat (cap_max_sessions ?cap)) (app_pool st)) = unat (cap_max_sessions ?cap)"
    "available_permits api (semaphore (set_max_sessions api (unat (cap_max_sessions ?cap)) (app_pool st))) =
       unat (cap_max_sessions ?cap)"
    using set_max_sessions_idle [OF assms(1)] calibrate_range [of steps before after "h_limits h"] by blast+
  then show ?thesis
    using run calibrate_range [of steps before after "h_limits h"] by (simp add: calibration_done_def Let_def)
qed

lemma default_load:
  "load (\<lambda>_. Inl ''no'' :: string + nat runtime_config) None (\<lambda>_. None) =
     Inr \<lparr>ld_config = apply_switches (\<lambda>_. None) default_runtime_config,
          ld_serve = \<lparr>sv_port = 9222, sv_host = ''0.0.0.0'', sv_token = None\<rparr>\<rparr>"
  by (simp add: load_def parse_file_def int_keys_def override_def override_paths_def read_port_def read_token_def
      Let_def validate_def apply_switches_def switch_def default_runtime_config_def default_pool_config_def
      default_session_config_def default_pressure_config_def default_browser_config_def default_proxy_config_def)

theorem calibration_has_the_host_witness:
  "\<exists>opts (st :: demo_app) st1.
     start_state counting_semaphore demo_host
       \<lparr>ld_config = apply_switches (\<lambda>_. None) default_runtime_config,
        ld_serve = \<lparr>sv_port = 9222, sv_host = ''0.0.0.0'', sv_token = None\<rparr>\<rparr> = (opts, st) \<and>
     trace (session_event (=) counting_semaphore opts)
       [(calm_env\<lparr>env_seeded := (\<lambda>_ _. Inl ''no'')\<rparr>, (\<lambda>_. None), (\<lambda>_. None))] st = ([], st1) \<and>
     app_pool st1 = app_pool st"
proof -
  let ?l = "\<lparr>ld_config = apply_switches (\<lambda>_. None) default_runtime_config :: nat runtime_config,
        ld_serve = \<lparr>sv_port = 9222, sv_host = ''0.0.0.0'', sv_token = None\<rparr>\<rparr>"
  obtain opts and st :: demo_app where s: "start_state counting_semaphore demo_host ?l = (opts, st)"
    by (cases "start_state counting_semaphore demo_host ?l :: pool_options \<times> demo_app")
  have c: "calibrating st"
    using s by (auto simp: start_state_def Let_def will_calibrate_def apply_switches_def switch_def
        default_runtime_config_def default_pool_config_def default_session_config_def split: prod.splits)
  obtain rs st1 where t: "trace (session_event (=) counting_semaphore opts)
       [(calm_env\<lparr>env_seeded := (\<lambda>_ _. Inl ''no'')\<rparr>, (\<lambda>_. None), (\<lambda>_. None))] st = (rs, st1)"
    by (cases "trace (session_event (=) counting_semaphore opts)
       [(calm_env\<lparr>env_seeded := (\<lambda>_ _. Inl ''no'')\<rparr>, (\<lambda>_. None), (\<lambda>_. None))] st")
  from calibration_has_the_host [OF counting_semaphore_ok default_load s c t] s t show ?thesis by blast
qed

end
