(* ===== verification/Serve.thy ===== *)
theory Serve
  imports Server Discovery Host_Probe Template
begin

text \<open>
  \<^verbatim>\<open>serve\<close> and \<^verbatim>\<open>router\<close> of \<^verbatim>\<open>src/server.rs\<close>: how an instance is put together from the components, the order of its
  start and of its end, and which handler answers a request. What the host answers is a record; the
  serving itself, between the bind and the shutdown, is an argument. The data directory and the leaves that
  the host probe makes are part of its answers.
\<close>

section \<open>Routes\<close>

text \<open>A handler registered for GET also answers HEAD.\<close>

datatype http_method = Get | HeadMethod | Post | OtherMethod

datatype handler =
    Live | Ready | PressureReport | JsonVersion | WebSocket | ProfileDropOff | ProfilePickUp string

text \<open>What a route adds: a limit on the answer's time, a limit on the body.\<close>

record route =
  r_handler :: handler
  r_timeout :: "nat option"
  r_max_body :: "nat option"

definition http_timeout :: nat where "http_timeout = 10"
definition max_profile_bytes :: nat where "max_profile_bytes = 64 * 1024 * 1024"

datatype routed = To route | NotFoundPage | MethodNotAllowed

definition probe_route :: "handler \<Rightarrow> http_method \<Rightarrow> routed" where
  "probe_route hd0 meth =
     (if meth \<in> {Get, HeadMethod} then To \<lparr>r_handler = hd0, r_timeout = Some http_timeout, r_max_body = None\<rparr> else MethodNotAllowed)"

definition router :: "http_method \<Rightarrow> string \<Rightarrow> routed" where
  "router meth p =
     (if p = ''/'' then To \<lparr>r_handler = WebSocket, r_timeout = None, r_max_body = None\<rparr>
      else if p = ''/v1/profile'' then
        (if meth = Post then To \<lparr>r_handler = ProfileDropOff, r_timeout = None, r_max_body = Some max_profile_bytes\<rparr>
         else MethodNotAllowed)
      else if p = ''/live'' then probe_route Live meth
      else if p = ''/ready'' then probe_route Ready meth
      else if p = ''/pressure'' then probe_route PressureReport meth
      else if p = ''/json/version'' \<or> p = ''/json/version/'' then probe_route JsonVersion meth
      else
        (case strip_prefix p ''/v1/profile/'' of
           Some token0 \<Rightarrow>
             (if token0 = [] \<or> CHR ''/'' \<in> set token0 then NotFoundPage
              else if meth \<in> {Get, HeadMethod} then To \<lparr>r_handler = ProfilePickUp token0, r_timeout = None, r_max_body = None\<rparr>
              else MethodNotAllowed)
         | None \<Rightarrow> NotFoundPage))"

section \<open>Start\<close>

datatype serve_error = NoExecutable find_error | SweepFailed fs_error | CannotBind string string | ServerFailed string

record serve_host =
  sh_metadata :: metadata
  sh_data_dir :: path
  sh_listing :: "fs_error + (fs_error + string) list"
  sh_removal :: "string \<Rightarrow> removal"
  sh_cgroup :: cgroup_env
  sh_data_error :: "string option"
  sh_reflink :: "string + bool"
  sh_shm :: "(u64 \<times> u64) option"
  sh_major :: "string \<Rightarrow> nat option"
  sh_limits :: host_limits
  sh_bind :: "string \<Rightarrow> string option"

definition host_of :: "serve_host \<Rightarrow> string \<Rightarrow> host" where
  "host_of h exe =
     \<lparr>h_executable = exe, h_tiers = detect (sh_cgroup h) (sh_data_error h) (sh_reflink h), h_shm = sh_shm h,
      h_browser_major = sh_major h exe, h_cgroup_base = prepare_cgroup_base (sh_cgroup h), h_limits = sh_limits h\<rparr>"

datatype background = PreparesTemplate | Calibrates

definition background_tasks :: "'n runtime_config \<Rightarrow> background list" where
  "background_tasks c =
     (if prepares_template c then [PreparesTemplate] else []) @ (if will_calibrate c then [Calibrates] else [])"

definition bind_address :: "serve_settings \<Rightarrow> string" where
  "bind_address s = sv_host s @ '':'' @ show_nat (sv_port s)"

definition boot ::
    "'q semaphore_api \<Rightarrow> serve_host \<Rightarrow> 'n::linordered_semidom loaded \<Rightarrow> fs
     \<Rightarrow> (serve_error + pool_options \<times> ('s, 'q, 'p, 'n, 'h) app_state \<times> background list) \<times> fs" where
  "boot api h l fs =
     (case find_chrome (sh_metadata h) (bc_executable_path (rc_chrome (ld_config l))) of
        Inl e \<Rightarrow> (Inl (NoExecutable e), fs)
      | Inr exe \<Rightarrow>
          (case clean_stale (sh_removal h) (sh_data_dir h) (sh_listing h) fs of
             (Inl e, fs1) \<Rightarrow> (Inl (SweepFailed e), fs1)
           | (Inr swept, fs1) \<Rightarrow>
               (let (opts, st) = start_state api (host_of h exe) l;
                    address = bind_address (ld_serve l)
                in case sh_bind h address of
                     Some e \<Rightarrow> (Inl (CannotBind address e), fs1)
                   | None \<Rightarrow> (Inr (opts, st, background_tasks (ld_config l)), fs1))))"

section \<open>End\<close>

text \<open>
  What serving until the shutdown leaves: the server's error, when the last session's task ends by
  itself, the file system; then the listing and the removals of the last sweep.
\<close>

record served =
  sd_error :: "string option"
  sd_done_at :: "nat option"
  sd_fs :: fs
  sd_listing :: "fs_error + (fs_error + string) list"
  sd_removal :: "string \<Rightarrow> removal"

definition finish :: "path \<Rightarrow> nat \<Rightarrow> served \<Rightarrow> (serve_error + drain_result) \<times> fs" where
  "finish data_dir drain_timeout s =
     (case sd_error s of
        Some e \<Rightarrow> (Inl (ServerFailed e), sd_fs s)
      | None \<Rightarrow>
          (Inr (drain drain_timeout (sd_done_at s)),
           snd (clean_stale (sd_removal s) data_dir (sd_listing s) (sd_fs s))))"

definition serve ::
    "'q semaphore_api \<Rightarrow> serve_host \<Rightarrow> 'n::linordered_semidom loaded
     \<Rightarrow> (pool_options \<Rightarrow> ('s, 'q, 'p, 'n, 'h) app_state \<Rightarrow> background list \<Rightarrow> fs \<Rightarrow> served)
     \<Rightarrow> fs \<Rightarrow> (serve_error + drain_result) \<times> fs" where
  "serve api h l serving fs =
     (case boot api h l fs of
        (Inl e, fs1) \<Rightarrow> (Inl e, fs1)
      | (Inr (opts, st, tasks), fs1) \<Rightarrow>
          finish (sh_data_dir h) (rc_drain_timeout_ms (ld_config l)) (serving opts st tasks fs1))"

section \<open>The sweep\<close>

lemma remove_entries_outside:
  assumes "remove_entries rms sessions es n fs = (r, fs')" "\<And>x. Inr x \<in> set es \<Longrightarrow> \<not> prefix (sessions @ [x]) p"
  shows "fs' p = fs p"
  using assms
proof (induction rms sessions es n fs rule: remove_entries.induct)
  case (3 rms sessions x es n fs)
  obtain r1 fs1 where one: "remove_dir_all (rms x) (sessions @ [x]) fs = (r1, fs1)" by (meson surj_pair)
  have "fs1 p = fs p" by (rule remove_dir_all_outside(1) [OF one]) (use 3 in simp)
  then show ?case using 3 one by (cases r1) auto
qed auto

lemma remove_entries_keeps_or_removes:
  assumes "remove_entries rms sessions es n fs = (r, fs')"
  shows "fs' p = fs p \<or> fs' p = None"
  using assms
proof (induction rms sessions es n fs rule: remove_entries.induct)
  case (3 rms sessions x es n fs)
  obtain r1 fs1 where one: "remove_dir_all (rms x) (sessions @ [x]) fs = (r1, fs1)" by (meson surj_pair)
  have "fs1 p = fs p \<or> fs1 p = None" by (rule remove_dir_all_outside(2) [OF one])
  then show ?case using 3 one by (cases r1) fastforce+
qed auto

lemma remove_entries_ends: "\<exists>k g. remove_entries rms sessions (map Inr ns) n fs = (Inr k, g)"
  by (induction ns arbitrary: n fs) (auto split: prod.splits outcome.splits)

text \<open>A sweep that reads its listing to the end removes what it may remove.\<close>

lemma remove_entries_gone:
  assumes "remove_entries rms sessions es n fs = (Inr k, fs')" "real_dir fs sessions"
    and "Inr x \<in> set es" "rms x = None" "fs (sessions @ [x]) = Some DirE"
  shows "fs' (sessions @ x # q) = None"
  using assms
proof (induction rms sessions es n fs rule: remove_entries.induct)
  case (3 rms sessions y es n fs)
  obtain r1 fs1 where one: "remove_dir_all (rms y) (sessions @ [y]) fs = (r1, fs1)" by (meson surj_pair)
  obtain n1 where rest: "remove_entries rms sessions es n1 fs1 = (Inr k, fs')"
    using 3(4) one by (cases r1) auto
  have out: "fs1 p = fs p" if "\<not> prefix (sessions @ [y]) p" for p
    using remove_dir_all_outside(1) [OF one that] .
  have dir: "real_dir fs1 sessions"
    unfolding real_dir_def
  proof (intro allI impI)
    fix p assume p: "prefix p sessions"
    then have "\<not> prefix (sessions @ [y]) p"
      using prefix_length_le [of "sessions @ [y]" p] prefix_length_le [of p sessions] by auto
    then show "fs1 p = Some DirE" using 3(5) p out by (simp add: real_dir_def)
  qed
  show ?case
  proof (cases "x = y")
    case True
    have "reach fs [] sessions = Ok" using 3(5) reach_ok [of sessions fs "[]"] by (simp add: real_dir_def)
    then have "fs1 (sessions @ x # q) = None"
      using one 3(7,8) True by (auto simp: remove_dir_all_def remove_below_def prefix_def)
    then show ?thesis using remove_entries_keeps_or_removes [OF rest, of "sessions @ x # q"] by auto
  next
    case False
    then have "fs1 (sessions @ [x]) = Some DirE" using out [of "sessions @ [x]"] 3(8) by simp
    then show ?thesis
      using 3 one dir False by (cases r1) auto
  qed
qed auto

section \<open>What a start promises\<close>


definition left_over :: fs where
  "left_over = [[] \<mapsto> DirE, [''d''] \<mapsto> DirE, [''d'', ''sessions''] \<mapsto> DirE, [''d'', ''sessions'', ''old''] \<mapsto> DirE,
     [''d'', ''sessions'', ''old'', ''Cookies''] \<mapsto> FileE [1]]"

definition demo_serve_host :: serve_host where
  "demo_serve_host =
     \<lparr>sh_metadata = (\<lambda>_. Some (True, 0x1ED)), sh_data_dir = [''d''], sh_listing = Inr [Inr ''old''],
      sh_removal = (\<lambda>_. None), sh_cgroup = delegated_host, sh_data_error = None, sh_reflink = Inr False,
      sh_shm = None, sh_major = (\<lambda>_. None),
      sh_limits = \<lparr>mem_ceiling_bytes = Some 8000000000, pids_max = None, cpus = 4\<rparr>, sh_bind = (\<lambda>_. None)\<rparr>"

definition demo_serve_config :: "nat loaded" where
  "demo_serve_config =
     \<lparr>ld_config = default_runtime_config, ld_serve = \<lparr>sv_port = 80, sv_host = ''h'', sv_token = None\<rparr>\<rparr>"


section \<open>Where the order matters\<close>

text \<open>
  The sweep comes before the bind. A second instance on the same data directory and address removes the
  directories of the sessions that run, and only then finds the address taken.
\<close>

lemma failed_start_sweeps_live_sessions:
  assumes "find_chrome (sh_metadata h) (bc_executable_path (rc_chrome (ld_config l))) = Inr exe"
    and "sh_bind h (bind_address (ld_serve l)) = Some e"
    and "sh_listing h = Inr (map Inr names)" "x \<in> set names" "sh_removal h x = None"
    and "real_dir fs (sh_data_dir h @ [''sessions''])" "fs (sh_data_dir h @ [''sessions'', x]) = Some DirE"
    and "boot api h l fs = (r, fs')"
  shows "r = Inl (CannotBind (bind_address (ld_serve l)) e) \<and> (\<forall>q. fs' (sh_data_dir h @ [''sessions'', x] @ q) = None)"
proof -
  let ?sessions = "sh_data_dir h @ [''sessions'']"
  obtain k g where sweep: "remove_entries (sh_removal h) ?sessions (map Inr names) 0 fs = (Inr k, g)"
    using remove_entries_ends by blast
  then have "clean_stale (sh_removal h) (sh_data_dir h) (sh_listing h) fs = (Inr k, g)"
    using assms(3) by (simp add: clean_stale_def)
  then have "r = Inl (CannotBind (bind_address (ld_serve l)) e)" "fs' = g"
    using assms(1,2,8) by (auto simp: boot_def Let_def split: prod.splits)
  moreover have "g (?sessions @ x # q) = None" for q
    using remove_entries_gone [OF sweep assms(6) _ assms(5), of q] assms(4,7) by simp
  ultimately show ?thesis by simp
qed

end
