(* ===== verification/Command.thy ===== *)
theory Command
  imports Cli Serve
begin

text \<open>
  The entry of \<^verbatim>\<open>src/main.rs\<close>: the three commands and how the process exits. Argument parsing is the clap crate's.
\<close>

datatype command_error = CliFailed cli_error | ServeFailed serve_error

definition run_serve ::
    "'n::linordered_semidom config_source \<Rightarrow> 'q semaphore_api \<Rightarrow> serve_host
     \<Rightarrow> (pool_options \<Rightarrow> ('s, 'q, 'p, 'n, 'h) app_state \<Rightarrow> background list \<Rightarrow> fs \<Rightarrow> served)
     \<Rightarrow> string option \<Rightarrow> fs \<Rightarrow> (command_error + bool) \<times> fs" where
  "run_serve src api h serving explicit fs =
     (case load_config src explicit of
        Inl e \<Rightarrow> (Inl (CliFailed e), fs)
      | Inr loaded0 \<Rightarrow>
          (case serve api h loaded0 serving fs of
             (Inl e, fs1) \<Rightarrow> (Inl (ServeFailed e), fs1)
           | (Inr _, fs1) \<Rightarrow> (Inr True, fs1)))"

section \<open>The command line\<close>

datatype command = Check "string option" "string option" | Doctor "string option" | Serve "string option"

text \<open>The process exits with success exactly when the command returned it; an error is shown and is a failure.\<close>

definition exit_success :: "'e + bool \<Rightarrow> bool" where
  "exit_success r = (case r of Inl e \<Rightarrow> False | Inr ok \<Rightarrow> ok)"

definition main ::
    "'n::linordered_semidom config_source \<Rightarrow> 'j check_host \<Rightarrow> doctor_host \<Rightarrow> 'q semaphore_api \<Rightarrow> serve_host
     \<Rightarrow> (pool_options \<Rightarrow> ('s, 'q, 'p, 'n, 'h) app_state \<Rightarrow> background list \<Rightarrow> fs \<Rightarrow> served)
     \<Rightarrow> command \<Rightarrow> fs \<Rightarrow> bool \<times> fs" where
  "main src ch dh api sh serving cmd fs =
     (case cmd of
        Check config chrome0 \<Rightarrow>
          (let r = run_check src ch config chrome0 fs in (exit_success (cr_exit r), cr_fs r))
      | Doctor config \<Rightarrow> (case run_doctor src dh config fs of (r, _, fs1) \<Rightarrow> (exit_success r, fs1))
      | Serve config \<Rightarrow> (case run_serve src api sh serving config fs of (r, fs1) \<Rightarrow> (exit_success r, fs1)))"

text \<open>
  A check that exits with success passed; and a server only starts on a configuration that loads, is
  safe and speaks over pipes: otherwise the file system is left as it was.
\<close>

lemma exit_tells_the_verdict:
  "fst (main src ch dh api sh serving (Check config chrome0) fs) \<longleftrightarrow>
     cr_exit (run_check src ch config chrome0 fs) = Inr True"
  by (simp add: main_def exit_success_def Let_def split: sum.splits)

lemma no_serving_without_config:
  assumes "load_config src config = Inl e"
  shows "main src ch dh api sh serving (Serve config) fs = (False, fs)"
  using assms by (simp add: main_def run_serve_def exit_success_def)

end
