(* ===== verification/Gauge.thy ===== *)
theory Gauge
  imports Complex_Main Http Config
begin

text \<open>
  \<^verbatim>\<open>src/pressure.rs\<close>: the sampled load of the host. The readings of the system library are arguments; a
  floating point number is NaN or an element of an ordered field with a floor, without rounding.
\<close>

section \<open>The gauge\<close>

definition scale :: nat where "scale = 100"

record gauge =
  cpu_centi :: u32
  memory_centi :: u32

definition gauge_new :: gauge where "gauge_new = \<lparr>cpu_centi = 0, memory_centi = 0\<rparr>"

definition snapshot :: "gauge \<Rightarrow> 'n::floor_ceiling \<times> 'n" where
  "snapshot g =
     (of_nat (unat (cpu_centi g)) / of_nat scale, of_nat (unat (memory_centi g)) / of_nat scale)"

text \<open>\<^verbatim>\<open>f32::clamp\<close> keeps NaN; the cast truncates, saturates, and makes NaN zero.\<close>

fun clamp :: "'n::linorder \<Rightarrow> 'n \<Rightarrow> 'n f64 \<Rightarrow> 'n f64" where
  "clamp lo hi NaN = NaN"
| "clamp lo hi (Number x) = Number (if x < lo then lo else if hi < x then hi else x)"

fun scaled :: "'n::floor_ceiling f64 \<Rightarrow> 'n f64" where
  "scaled NaN = NaN"
| "scaled (Number x) = Number (x * of_nat scale)"

fun to_u32 :: "'n::floor_ceiling f64 \<Rightarrow> u32" where
  "to_u32 NaN = 0"
| "to_u32 (Number x) = (if x < 0 then 0 else if 2 ^ 32 - 1 \<le> x then - 1 else word_of_int \<lfloor>x\<rfloor>)"

definition memory_percent :: "nat \<Rightarrow> nat \<Rightarrow> 'n::floor_ceiling f64" where
  "memory_percent used capacity0 = (if capacity0 = 0 then Number 0 else Number (of_nat used / of_nat capacity0 * 100))"

text \<open>One turn of the sampler: the processor's reading, the used and the total memory.\<close>

definition sample :: "'n::floor_ceiling f64 \<Rightarrow> nat \<Rightarrow> nat \<Rightarrow> gauge" where
  "sample cpu used capacity0 =
     \<lparr>cpu_centi = to_u32 (scaled (clamp 0 100 cpu)),
      memory_centi = to_u32 (scaled (clamp 0 100 (memory_percent used capacity0 :: 'n f64)))\<rparr>"

section \<open>What a reading says\<close>

lemma centi_reading:
  fixes x :: "'n::floor_ceiling"
  defines "y \<equiv> (if x < 0 then 0 else if 100 < x then 100 else x)"
  shows "(of_nat (unat (to_u32 (scaled (clamp 0 100 (Number x))))) :: 'n) = of_int \<lfloor>y * 100\<rfloor>"
proof -
  have y: "0 \<le> y * 100" "y * 100 \<le> 10000" by (auto simp: y_def)
  then have "\<not> y * 100 < 0" "\<not> (2 ^ 32 - 1 \<le> y * 100)" by auto
  then have "to_u32 (scaled (clamp 0 100 (Number x))) = word_of_int \<lfloor>y * 100\<rfloor>"
    by (simp add: scale_def y_def)
  moreover have "0 \<le> \<lfloor>y * 100\<rfloor>" "\<lfloor>y * 100\<rfloor> \<le> 10000"
    using y by (simp_all add: floor_le_iff)
  moreover have "unat (word_of_int k :: u32) = nat k" if "0 \<le> k" "k \<le> 10000" for k
    using that by (simp add: unsigned_of_int take_bit_int_eq_self)
  ultimately show ?thesis by simp
qed

lemma centi_close:
  fixes x :: "'n::floor_ceiling"
  shows "let c = of_nat (unat (to_u32 (scaled (clamp 0 100 (Number x))))) / of_nat scale :: 'n
    in 0 \<le> c \<and> c \<le> 100 \<and> (0 \<le> x \<and> x \<le> 100 \<longrightarrow> c \<le> x \<and> x < c + 1 / 100)"
proof -
  define y :: 'n where "y = (if x < 0 then 0 else if 100 < x then 100 else x)"
  have y: "0 \<le> y" "y \<le> 100" "0 \<le> x \<and> x \<le> 100 \<longrightarrow> y = x" by (auto simp: y_def)
  have r: "(of_nat (unat (to_u32 (scaled (clamp 0 100 (Number x))))) :: 'n) = of_int \<lfloor>y * 100\<rfloor>"
    unfolding y_def by (rule centi_reading)
  have "(0 :: 'n) \<le> of_int \<lfloor>y * 100\<rfloor>" "of_int \<lfloor>y * 100\<rfloor> \<le> y * 100" "y * 100 < of_int \<lfloor>y * 100\<rfloor> + 1"
    using y floor_correct [of "y * 100"] by simp_all
  then show ?thesis using y unfolding r Let_def scale_def by (auto simp: field_simps)
qed

text \<open>
  A reading is a percentage, and no more than the load. Whatever the system reports, both
  readings of a sample lie between 0 and 100; a load in that range is read as itself, less than a hundredth
  below and never above, so a threshold is never passed by rounding; a reading that is not a number and an
  unknown size of the memory count as no load. The gauge reads no load before the first sample, and a
  threshold of 100 is never passed.
\<close>

theorem gauge_reads_load:
  fixes c m :: "'n::floor_ceiling"
  assumes "snapshot (sample cpu used capacity0) = (c, m)"
  shows "0 \<le> c \<and> c \<le> 100 \<and> 0 \<le> m \<and> m \<le> 100 \<and>
     (cpu = NaN \<longrightarrow> c = 0) \<and> (capacity0 = 0 \<longrightarrow> m = 0) \<and>
     (\<forall>x. cpu = Number x \<and> 0 \<le> x \<and> x \<le> 100 \<longrightarrow> c \<le> x \<and> x < c + 1 / 100) \<and>
     (0 < capacity0 \<and> used \<le> capacity0 \<longrightarrow>
        m \<le> of_nat used / of_nat capacity0 * 100 \<and> of_nat used / of_nat capacity0 * 100 < m + 1 / 100) \<and>
     snapshot gauge_new = (0, 0 :: 'n) \<and> \<not> (100 < c) \<and> \<not> (100 < m)"
proof -
  define v :: "'n f64 \<Rightarrow> 'n" where "v f = of_nat (unat (to_u32 (scaled (clamp 0 100 f)))) / of_nat scale" for f
  define y :: 'n where "y = (if capacity0 = 0 then 0 else of_nat used / of_nat capacity0 * 100)"
  have c: "c = v cpu" and m: "m = v (Number y)"
    using assms unfolding snapshot_def sample_def v_def memory_percent_def y_def
    by (auto simp del: clamp.simps scaled.simps to_u32.simps split: if_splits)
  have nan: "v NaN = 0" "v (Number 0) = 0" by (simp_all add: v_def)
  have close: "0 \<le> v (Number x)" "v (Number x) \<le> 100"
    "0 \<le> x \<Longrightarrow> x \<le> 100 \<Longrightarrow> v (Number x) \<le> x \<and> x < v (Number x) + 1 / 100" for x
    using centi_close [of x] unfolding Let_def v_def by blast+
  have "0 \<le> c \<and> c \<le> 100" using close(1,2) nan(1) unfolding c by (cases cpu) simp_all
  moreover have "0 \<le> m \<and> m \<le> 100" using close(1,2) unfolding m by simp
  moreover have "capacity0 = 0 \<longrightarrow> m = 0" unfolding m y_def using nan(2) by simp
  moreover have "m \<le> of_nat used / of_nat capacity0 * 100 \<and> of_nat used / of_nat capacity0 * 100 < m + 1 / 100"
    if "0 < capacity0 \<and> used \<le> capacity0"
  proof -
    have "y = of_nat used / of_nat capacity0 * 100" using that by (simp add: y_def)
    moreover have "0 \<le> y" "y \<le> 100" using that by (simp_all add: y_def divide_le_eq)
    ultimately show ?thesis using close(3) [of y] unfolding m by simp
  qed
  moreover have "snapshot gauge_new = (0, 0 :: 'n)" by (simp add: snapshot_def gauge_new_def)
  ultimately show ?thesis using nan(1) close(3) unfolding c by (simp add: not_less)
qed

theorem gauge_reads_load_witness:
  "fst (snapshot (sample (Number (37 :: real)) 1 2)) \<le> (37 :: real) \<and> snd (snapshot (sample (Number (37 :: real)) 1 2)) \<le> (50 :: real)"
proof -
  obtain c m :: real where s: "snapshot (sample (Number (37 :: real)) 1 2) = (c, m)" by (meson surj_pair)
  have "c \<le> 37 \<and> m \<le> 50"
    using gauge_reads_load [OF s] by fastforce
  then show ?thesis using s by simp
qed

end
