(* ===== verification/Spec2Isabelle.thy ===== *)
theory Spec2Isabelle
  imports Fleet Journey Local_Storage Factory_Dirs Recording Command Gauge
begin

text \<open>
  \<^bold>\<open>The program.\<close> browserserve is a server that hands out browsers. A client opens a WebSocket; the server
  authorises it, admits it, takes a browser from a warm pool (or launches one), and then copies messages between
  the socket and the browser's command pipe until one side ends. A session may carry a profile (cookies, local
  storage, files), dropped off and picked up over HTTP; it may go through an upstream proxy by way of
  a local relay; it may be parked and resumed. Every browser lives in a directory and, where the host allows
  it, a control group of its own. At start-up the server measures how many sessions the host holds.

  \<^bold>\<open>How the parts interact.\<close> The request handler (\<open>Ws.ws_handler\<close>, from \<^verbatim>\<open>src/server/ws.rs\<close>) works on the shared
  state \<open>Http.app_state\<close>, which holds the pool, the factory, the profile store, the resume registry and the single-use
  switch. It asks the pool (\<open>Pool\<close>) for a slot; the pool and the handler ask the factory (\<open>Factory\<close>) for sessions;
  the factory provisions a directory (\<open>Template\<close>, \<open>Factory_Dirs\<close>), makes a leaf, and launches (\<open>Launch\<close>) with the
  command line of \<open>Flags\<close>. The launched browser is a pipe (\<open>Cdp_Pipe\<close>) and a client on it (\<open>Cdp_Client\<close>), used to seed
  and capture profiles (\<open>Cdp_Profile\<close>, \<open>Profile_Session\<close>), to bridge a client (\<open>Bridge\<close>, \<open>Resume\<close>) and to
  calibrate (\<open>Calibrate\<close>, \<open>Recording\<close>). \<open>Server\<close> builds the state from a configuration (\<open>Config\<close>), \<open>Serve\<close> puts start,
  serving and end in order, \<open>Cli\<close> is the command line over all of it.

  \<^bold>\<open>Conventions.\<close> A fallible function returns a sum, the error on the left. What the operating system or a library answers is
  an argument (a function or a record whose name ends in \<open>env\<close>, \<open>host\<close> or \<open>api\<close>); what the code does to the outside
  is returned as a list of effects, signals or written messages, in order. An operation that may still be waiting
  when its inputs run out returns \<open>None\<close>. Integers that take part in arithmetic where the width matters are words;
  counts of live objects are natural numbers. Strings are lists of bytes as characters.
\<close>

text \<open>
  \<^bold>\<open>Theories and sources.\<close>

  \<^item> \<open>Prelude\<close>, \<open>Rust_Str\<close>, \<open>Rust_Net\<close>: widths, fallible sequencing, list lemmas, and the parts of Rust's string and
    address library the program uses. \<open>Retry\<close>: a loop with a fixed number of
    attempts (the locale \<open>retry_loop\<close>), interpreted for the removal of a directory and of a leaf. \<open>Json_Api\<close>: the JSON values of serde as an interface with documented
    behaviour. \<open>File_System\<close>: trees, paths and the file operations of the standard library.
  \<^item> \<open>Pool\<close>, \<open>Pool_Machine\<close> (\<^verbatim>\<open>src/pool.rs\<close>): the pool's operations one by one, and all of them as a step relation
    \<open>pool_step\<close> whose steps interleave claims, releases, the replenisher, culling, closing and ceiling changes. Shown: the
    number of sessions stays within the ceiling in every reachable state, a browser is never handed out twice,
    what a claim gets, and that a failed claim gives its slot back.
  \<^item> \<open>Fleet\<close>: the pool's machine and the factory in step, with the profile sessions beside them, which do not pass through the
    pool. Shown: the directories and leaves of one instance on its host stay within the ceiling, the warm stock, what is being
    discarded and the profile sessions.
  \<^item> \<open>Ws\<close>, \<open>Profile_Session\<close>, \<open>Http\<close> (\<^verbatim>\<open>src/server/ws.rs\<close>, \<^verbatim>\<open>src/server/http.rs\<close>): the handlers with every refusal, and the
    tasks after the upgrade. Shown: a request that asks for a proxy is proxied or refused; the slot and the token of a
    session settle on every way out; what the pressure report says is what a new session gets; one session per
    single-use instance.
  \<^item> \<open>Journey\<close>: a profile's way through all of these, from the drop-off over HTTP through the session to the pick-up over HTTP,
    while the instance does anything else with other tokens. Shown: the session loads what was dropped off, and what it captured is
    handed out once.
  \<^item> \<open>Profile_Store\<close>, \<open>Resume\<close>, \<open>Single_Use\<close>, \<open>Auth\<close> (\<^verbatim>\<open>src/server\<close>): one-shot objects, each an interpretation of the
    locale \<open>one_shot\<close> (stated in \<open>Profile_Store\<close>); the store refines the life of a single token.
  \<^item> \<open>Factory\<close>, \<open>Factory_Dirs\<close>, \<open>Lifecycle\<close>, \<open>Template\<close>, \<open>Launch\<close>, \<open>Flags\<close>, \<open>Host_Probe\<close>, \<open>Discovery\<close> (\<^verbatim>\<open>src/factory.rs\<close>,
    \<^verbatim>\<open>src/template.rs\<close>, \<^verbatim>\<open>src/session_dirs.rs\<close>, \<^verbatim>\<open>src/chrome\<close>, \<^verbatim>\<open>src/linux\<close>): from the executable to a running
    session and its removal. Shown: a required sandbox is never dropped; a session writes only below its directory
    and starts with nothing of an earlier one; the removal ends; a hard memory cap is claimed only when it was proven; over any run of
    creations and destructions the factory (the locale \<open>session_factory\<close>, as the pool sees it) leaves nothing behind.
  \<^item> \<open>Cdp_Pipe\<close>, \<open>Cdp_Client\<close>, \<open>Cdp_Profile\<close>, \<open>Bridge\<close> (\<^verbatim>\<open>src/chrome/pipe.rs\<close>, \<^verbatim>\<open>src/chrome/client.rs\<close>,
    \<^verbatim>\<open>src/profile/cdp.rs\<close>, \<^verbatim>\<open>src/bridge.rs\<close>): framing round trip, transparency of the bridge, and that seeding a
    profile never lets the page reach the network.
  \<^item> \<open>Cookie\<close>, \<open>Local_Storage\<close>, \<open>Manifest\<close> (\<^verbatim>\<open>src/profile\<close>): the profile's data. Shown: extraction stays below its root,
    packing and extracting give the stores back, every origin is read once.
  \<^item> \<open>Address\<close>, \<open>Upstream\<close>, \<open>Socks\<close>, \<open>Head\<close>, \<open>Relay\<close> (\<^verbatim>\<open>src/proxy\<close>): the proxy path, from the block list of addresses
    to the tunnel. Shown: a blocked address is never dialled, a head is read exactly however it is chunked.
  \<^item> \<open>Capacity\<close>, \<open>Rss\<close>, \<open>Calibrate\<close>, \<open>Recording\<close>, \<open>Gauge\<close> (\<^verbatim>\<open>src/capacity.rs\<close>, \<^verbatim>\<open>src/rss.rs\<close>, \<^verbatim>\<open>src/calibrate.rs\<close>,
    \<^verbatim>\<open>src/pressure.rs\<close>): how much the host holds. Shown: the ceiling is between one and what was measured or modelled, and
    calibration destroys every session it creates.
  \<^item> \<open>Config\<close>, \<open>Server\<close>, \<open>Serve\<close>, \<open>Cli\<close>, \<open>Command\<close> (\<^verbatim>\<open>src/config.rs\<close>, \<^verbatim>\<open>src/server.rs\<close>, \<^verbatim>\<open>src/main.rs\<close>): what loads is a safe
    configuration; an instance starts as configured and runs on what it found; the check command tells the truth and
    leaves nothing behind; \<open>Command\<close> is the entry of \<^verbatim>\<open>src/main.rs\<close>, with its exit codes.

  The end of many theories holds lemmas on where the code departs from its documentation or from what it means to do; each
  is stated on the same definitions as the properties.
\<close>

text \<open>
  \<^bold>\<open>Bounds.\<close> The loops that run by a counter keep the source's bounds as constants: twelve sessions in the ramp, five
  attempts to remove a directory, four to remove a leaf, 200 lines of standard error. Recursion is structural or has a
  measure; there is no fuel. Loops that wait on the outside consume a list of what arrives, so they end with the list, and
  return \<open>None\<close> when the outside has not yet said enough; where the program's progress matters, that enough messages give
  a result is a theorem (\<open>Cdp_Profile.restoring_completes\<close>).

  \<^bold>\<open>Parameters and their hypotheses.\<close> tokio's semaphore (\<open>Pool.sem_ok\<close>), the JSON values (\<open>Json_Api.json_ok\<close>), the reflink
  library (\<open>Template.reflink_ok\<close>), and the searches and parsers of the memchr, httparse, base64, LevelDB and YAML crates
  are arguments; where a property needs their documented behaviour it is a named hypothesis, and the witness of the
  property shows it on a concrete instance.

  \<^bold>\<open>Not modelled.\<close> The installation of the log subscriber (\<^verbatim>\<open>src/logging.rs\<close>), the helpers of the test suite, module
  declarations and argument parsing by the clap crate have no logic of their own. Log lines are left out. The scheduling of
  tasks is modelled only where the pool's steps interleave; elsewhere a handler runs to its end, and time is the order of
  events. Floating-point numbers are exact or NaN. The code that builds only on macOS is left out. The bodies of the
  poll functions that forward a stream to TLS or TCP, and the trust store of the TLS library, are the libraries'.
\<close>

end
